theory Spec2Isabelle
  imports Complex_Main
begin

section \<open>Errors, warnings and results\<close>

text \<open>
  Every \<^verbatim>\<open>raise\<close> and every failing \<^verbatim>\<open>assert\<close> of
  \<^verbatim>\<open>cogent/evolve/substitution_model.py\<close> is a value of \<open>error\<close>; a function that can
  raise returns \<open>error + 'a\<close>, with \<open>Inl\<close> for the exception. The \<^verbatim>\<open>ValueError\<close>s of
  \<^verbatim>\<open>checkPredicateMasks\<close> are told apart by their message.
\<close>

datatype error =
    AssertionError
  | IndexError
  | TypeError
  | NotInSequence                \<comment> \<open>\<^verbatim>\<open>monomers.index(c)\<close> with \<^verbatim>\<open>c\<close> absent\<close>
  | PredicateAlwaysFalse string  \<comment> \<open>\<^verbatim>\<open>ValueError("Predicate %s is always false.")\<close>\<close>
  | PredicateAlwaysTrue string   \<comment> \<open>\<^verbatim>\<open>ValueError("Predicate %s is always true.")\<close>\<close>
  | RedundancyInPredicates       \<comment> \<open>\<^verbatim>\<open>ValueError("Redundancy in predicates.")\<close>\<close>
  | EquivalentToOverallRate      \<comment> \<open>\<^verbatim>\<open>ValueError("Some combination of predicates is equivalent to the overall rate parameter.")\<close>\<close>
  | DuplicatePredicateName string \<comment> \<open>\<^verbatim>\<open>KeyError('Duplicate predicate name "%s"')\<close>\<close>
  | GappedNewQ                   \<comment> \<open>\<^verbatim>\<open>ValueError("Gapped new-Q context models not yet possible")\<close>\<close>
  | UnknownDistribution string   \<comment> \<open>\<^verbatim>\<open>ValueError('Unknown distribution "%s"')\<close>\<close>
  | DivisionByZero               \<comment> \<open>\<^verbatim>\<open>result /= 0.0\<close>: numpy fills the array with nan, no real number\<close>

datatype warning =
    EmpiricalModelWithParameters \<comment> \<open>\<^verbatim>\<open>warnings.warn('Empirical model with parameters too!')\<close>\<close>
  | ModelNotReversible           \<comment> \<open>\<^verbatim>\<open>warnings.warn('Model not reversible')\<close>\<close>
  | OverlyGeneralPredicates      \<comment> \<open>\<^verbatim>\<open>LOG.warning("do_scaling=True would be more efficient ...")\<close>\<close>

text \<open>A loop whose body can raise: the first exception, in iteration order, ends it.\<close>

fun traverse :: "('a \<Rightarrow> error + 'b) \<Rightarrow> 'a list \<Rightarrow> error + 'b list" where
  "traverse f [] = Inr []"
| "traverse f (x # xs) =
     (case f x of
        Inl e \<Rightarrow> Inl e
      | Inr y \<Rightarrow> (case traverse f xs of Inl e \<Rightarrow> Inl e | Inr ys \<Rightarrow> Inr (y # ys)))"

section \<open>Arrays\<close>

text \<open>
  A two-dimensional numpy array is the list of its rows. The masks are arrays of
  \<^verbatim>\<open>Int\<close> (\<open>int\<close>), the rate matrices arrays of \<^verbatim>\<open>Float\<close>, idealised as \<open>real\<close>:
  rounding, infinities and nan are outside the embedding.
\<close>

type_synonym 'a matrix = "'a list list"
type_synonym motif = string

definition get2 :: "'a matrix \<Rightarrow> nat \<Rightarrow> nat \<Rightarrow> error + 'a" where
  \<comment> \<open>\<^verbatim>\<open>m[i,j]\<close>\<close>
  "get2 m i j =
     (if i < length m \<and> j < length (m ! i) then Inr (m ! i ! j) else Inl IndexError)"

definition ravel :: "'a matrix \<Rightarrow> 'a list" where
  \<comment> \<open>\<^verbatim>\<open>m.ravel()\<close>, \<^verbatim>\<open>m.flat\<close>: the rows one after the other\<close>
  "ravel m = concat m"

definition np_transpose :: "nat \<Rightarrow> 'a matrix \<Rightarrow> 'a matrix" where
  \<comment> \<open>\<^verbatim>\<open>numpy.transpose(m)\<close> of an \<open>n\<close> by \<open>n\<close> array\<close>
  "np_transpose n m = map (\<lambda>i. map (\<lambda>j. m ! j ! i) [0..<n]) [0..<n]"

definition isSymmetrical :: "'a matrix \<Rightarrow> bool" where
  \<comment> \<open>\<^verbatim>\<open>numpy.alltrue(numpy.alltrue(matrix == numpy.transpose(matrix)))\<close>\<close>
  "isSymmetrical m =
     list_all (\<lambda>i. list_all (\<lambda>j. m ! i ! j = np_transpose (length m) m ! i ! j)
                      [0..<length m]) [0..<length m]"

section \<open>The instantaneous predicate\<close>

text \<open>
  What \<^verbatim>\<open>_isInstantaneous\<close> reads of the model: the class (the method is overridden
  in \<^verbatim>\<open>Codon\<close>), the gap motif of the alphabet (\<^verbatim>\<open>alphabet.getGapMotif()\<close>, which
  may be \<^verbatim>\<open>None\<close>) and the class attribute \<^verbatim>\<open>long_indels_are_instantaneous\<close>.
\<close>

datatype klass = SubstitutionModel | Codon

record inst_env =
  model_class :: klass
  gapmotif :: "motif option"
  long_indels_are_instantaneous :: bool

definition gapmotif_at :: "motif option \<Rightarrow> nat \<Rightarrow> error + char" where
  \<comment> \<open>\<^verbatim>\<open>self.gapmotif[i]\<close>\<close>
  "gapmotif_at gm i =
     (case gm of
        None \<Rightarrow> Inl TypeError
      | Some g \<Rightarrow> if i < length g then Inr (g ! i) else Inl IndexError)"

text \<open>
  The loop of \<^verbatim>\<open>_isAnyIndel\<close> over \<^verbatim>\<open>enumerate(zip(x,y))\<close>, with its three
  variables \<^verbatim>\<open>gap_start\<close>, \<^verbatim>\<open>gap_end\<close> and \<^verbatim>\<open>gap_strand\<close>.
  \<^verbatim>\<open>[X,Y].index(G)\<close> is only evaluated where \<^verbatim>\<open>X != Y\<close> and one of them is \<^verbatim>\<open>G\<close>:
  it is 0 when \<^verbatim>\<open>X == G\<close> and 1 otherwise.
\<close>

fun isAnyIndel_loop ::
  "motif option \<Rightarrow> (nat \<times> char \<times> char) list \<Rightarrow> nat option \<Rightarrow> nat option \<Rightarrow> nat option
     \<Rightarrow> error + bool" where
  "isAnyIndel_loop gm [] gap_start gap_end gap_strand = Inr True"
| "isAnyIndel_loop gm ((i, X, Y) # rest) gap_start gap_end gap_strand =
     (case gapmotif_at gm i of
        Inl e \<Rightarrow> Inl e
      | Inr G \<Rightarrow>
          if X \<noteq> Y then
            if X \<noteq> G \<and> Y \<noteq> G then Inr False
            else if gap_start = None then
              isAnyIndel_loop gm rest (Some i) gap_end (Some (if X = G then 0 else 1))
            else if gap_end \<noteq> None \<or> Some (if X = G then 0 else 1) \<noteq> gap_strand then
              Inr False
            else isAnyIndel_loop gm rest gap_start gap_end gap_strand
          else if gap_start \<noteq> None then
            isAnyIndel_loop gm rest gap_start (Some i) gap_strand
          else isAnyIndel_loop gm rest gap_start gap_end gap_strand)"

definition isAnyIndel :: "inst_env \<Rightarrow> motif \<Rightarrow> motif \<Rightarrow> error + bool" where
  "isAnyIndel env x y =
     (if x = y then Inr False
      else isAnyIndel_loop (gapmotif env) (enumerate 0 (zip x y)) None None None)"

definition ndiffs :: "motif \<Rightarrow> motif \<Rightarrow> nat" where
  \<comment> \<open>\<^verbatim>\<open>sum([X!=Y for (X,Y) in zip(x,y)])\<close>\<close>
  "ndiffs x y = length (filter (\<lambda>(X, Y). X \<noteq> Y) (zip x y))"

definition isInstantaneous_base :: "inst_env \<Rightarrow> motif \<Rightarrow> motif \<Rightarrow> error + bool" where
  \<comment> \<open>\<^verbatim>\<open>SubstitutionModel._isInstantaneous\<close>; \<^verbatim>\<open>or\<close> and \<^verbatim>\<open>and\<close> short-circuit\<close>
  "isInstantaneous_base env x y =
     (let diffs = ndiffs x y in
      if diffs = 1 then Inr True
      else if diffs > 1 \<and> long_indels_are_instantaneous env then isAnyIndel env x y
      else Inr False)"

definition isInstantaneous_codon :: "inst_env \<Rightarrow> motif \<Rightarrow> motif \<Rightarrow> error + bool" where
  \<comment> \<open>\<^verbatim>\<open>Codon._isInstantaneous\<close>\<close>
  "isInstantaneous_codon env x y =
     (if Some x = gapmotif env \<or> Some y = gapmotif env then Inr (x \<noteq> y)
      else Inr (ndiffs x y = 1))"

definition isInstantaneous :: "inst_env \<Rightarrow> motif \<Rightarrow> motif \<Rightarrow> error + bool" where
  "isInstantaneous env x y =
     (case model_class env of
        SubstitutionModel \<Rightarrow> isInstantaneous_base env x y
      | Codon \<Rightarrow> isInstantaneous_codon env x y)"

text \<open>
  \<^verbatim>\<open>predicate2matrix\<close>: the double loop over the alphabet. A predicate's result is stored
  in an \<^verbatim>\<open>Int\<close> array, so \<^verbatim>\<open>True\<close> is 1 and \<^verbatim>\<open>False\<close> is 0; where the mask is given
  and zero, the entry stays 0 and the predicate is not called.
\<close>

type_synonym predicate = "motif \<Rightarrow> motif \<Rightarrow> error + bool"

definition predicate2matrix_entry ::
  "motif list \<Rightarrow> predicate \<Rightarrow> int matrix option \<Rightarrow> nat \<Rightarrow> nat \<Rightarrow> error + int" where
  "predicate2matrix_entry alphabet pred mask_arg i j =
     (case mask_arg of
        None \<Rightarrow> map_sum id of_bool (pred (alphabet ! i) (alphabet ! j))
      | Some m \<Rightarrow>
          (case get2 m i j of
             Inl e \<Rightarrow> Inl e
           | Inr v \<Rightarrow>
               if v \<noteq> 0 then map_sum id of_bool (pred (alphabet ! i) (alphabet ! j))
               else Inr 0))"

definition predicate2matrix ::
  "motif list \<Rightarrow> predicate \<Rightarrow> int matrix option \<Rightarrow> error + int matrix" where
  "predicate2matrix alphabet pred mask_arg =
     (let M = length alphabet in
      traverse (\<lambda>i. traverse (\<lambda>j. predicate2matrix_entry alphabet pred mask_arg i j) [0..<M])
        [0..<M])"

text \<open>
  The claim's wording of the indel case, over the positions \<open>(G, X, Y)\<close> of the gap motif
  and the two motifs: after the leading equal positions comes the run of differing
  positions, after the run only equal positions; and one strand (always \<open>x\<close>, or always
  \<open>y\<close>) holds the gap character at every position of the run.
\<close>

definition single_gap_run :: "(char \<times> char \<times> char) list \<Rightarrow> bool" where
  "single_gap_run ts =
     (let differs = (\<lambda>(G, X, Y). X \<noteq> Y);
          ds = dropWhile (\<lambda>t. \<not> differs t) ts;
          run = takeWhile differs ds;
          post = dropWhile differs ds
      in list_all (\<lambda>t. \<not> differs t) post \<and>
         (list_all (\<lambda>(G, X, Y). X = G) run \<or> list_all (\<lambda>(G, X, Y). Y = G) run))"

definition isInstantaneous_spec :: "bool \<Rightarrow> motif \<Rightarrow> motif \<Rightarrow> motif \<Rightarrow> bool" where
  "isInstantaneous_spec long g x y =
     (ndiffs x y = 1 \<or>
      (ndiffs x y > 1 \<and> long \<and> single_gap_run (zip g (zip x y))))"

section \<open>Predicate masks\<close>

text \<open>
  A rule of the model is a predicate object of \<^verbatim>\<open>cogent.evolve.predicate\<close> (a parsed
  string, a wrapped callable or a predicate), of which the model uses two things: its
  \<^verbatim>\<open>repr\<close>, and the function \<^verbatim>\<open>makeModelPredicate\<close> returns, a pure boolean
  function of an ordered pair of motifs. The rules are given as a dict from names to
  predicates or as a sequence of predicates. A dict is the list of its items, in the order
  \<^verbatim>\<open>items()\<close> yields them; a new key goes to the end.
\<close>

record pred_obj =
  pred_repr :: string
  pred_func :: "motif \<Rightarrow> motif \<Rightarrow> bool"

datatype rules = RulesDict "(string \<times> pred_obj) list" | RulesList "pred_obj list"

definition adaptPredicate ::
  "motif list \<Rightarrow> int matrix \<Rightarrow> pred_obj \<Rightarrow> string option \<Rightarrow> error + (string \<times> int matrix)" where
  \<comment> \<open>\<^verbatim>\<open>label = label or repr(pred)\<close>: an empty label counts as none\<close>
  "adaptPredicate alphabet inst pred label =
     (let label' = (case label of None \<Rightarrow> pred_repr pred
                    | Some l \<Rightarrow> if l = [] then pred_repr pred else l)
      in case predicate2matrix alphabet (\<lambda>x y. Inr (pred_func pred x y)) (Some inst) of
           Inl e \<Rightarrow> Inl e
         | Inr mask' \<Rightarrow> Inr (label', mask'))"

fun adaptPredicates_loop ::
  "motif list \<Rightarrow> int matrix \<Rightarrow> (string option \<times> pred_obj) list \<Rightarrow> (string \<times> int matrix) list
     \<Rightarrow> error + (string \<times> int matrix) list" where
  "adaptPredicates_loop alphabet inst [] predicate_masks = Inr predicate_masks"
| "adaptPredicates_loop alphabet inst ((key, pred) # rest) predicate_masks =
     (case adaptPredicate alphabet inst pred key of
        Inl e \<Rightarrow> Inl e
      | Inr (label, mask') \<Rightarrow>
          if label \<in> set (map fst predicate_masks) then Inl (DuplicatePredicateName label)
          else adaptPredicates_loop alphabet inst rest (predicate_masks @ [(label, mask')]))"

definition adaptPredicates ::
  "motif list \<Rightarrow> int matrix \<Rightarrow> rules \<Rightarrow> error + (string \<times> int matrix) list" where
  "adaptPredicates alphabet inst rs =
     adaptPredicates_loop alphabet inst
       (case rs of
          RulesDict d \<Rightarrow> map (\<lambda>(k, p). (Some k, p)) d
        | RulesList l \<Rightarrow> map (\<lambda>p. (None, p)) l)
       []"

definition rules_or_empty :: "rules option \<Rightarrow> rules" where
  \<comment> \<open>\<^verbatim>\<open>predicates or []\<close>\<close>
  "rules_or_empty r =
     (case r of
        None \<Rightarrow> RulesList []
      | Some (RulesDict d) \<Rightarrow> if d = [] then RulesList [] else RulesDict d
      | Some (RulesList l) \<Rightarrow> RulesList l)"

definition rules_truthy :: "rules option \<Rightarrow> bool" where
  \<comment> \<open>\<^verbatim>\<open>if predicates:\<close>\<close>
  "rules_truthy r =
     (case r of None \<Rightarrow> False | Some (RulesDict d) \<Rightarrow> d \<noteq> [] | Some (RulesList l) \<Rightarrow> l \<noteq> [])"

text \<open>
  \<^verbatim>\<open>redundancyInPredicateMasks\<close>. The singular values come from
  \<^verbatim>\<open>numpy.linalg.svd\<close>, a floating-point library routine: it is the parameter \<open>svd\<close>,
  the function from the stacked rows to the singular values it returns.
\<close>

type_synonym svd_routine = "real matrix \<Rightarrow> real list"

definition mask_equations :: "int matrix list \<Rightarrow> real matrix" where
  \<comment> \<open>\<^verbatim>\<open>1.0 * numpy.array([list(mask.flat) for mask in masks])\<close>\<close>
  "mask_equations masks = map (\<lambda>mask'. map real_of_int (ravel mask')) masks"

definition redundancyInPredicateMasks :: "svd_routine \<Rightarrow> ('k \<times> int matrix) list \<Rightarrow> int" where
  "redundancyInPredicateMasks svd preds =
     (let masks = map snd preds in
      if masks = [] then 0
      else
        let eqns = mask_equations masks;
            svs = svd eqns;
            matrix_rank = length (filter (\<lambda>sv. \<bar>sv\<bar> > 1 / 10 ^ 8) svs)
        in int (length masks) - int matrix_rank)"

definition all_zero :: "int matrix \<Rightarrow> bool" where
  \<comment> \<open>\<^verbatim>\<open>numpy.alltrue((matrix == 0).flat)\<close>\<close>
  "all_zero matrix = list_all (\<lambda>v. v = 0) (ravel matrix)"

definition all_equal :: "int matrix \<Rightarrow> int matrix \<Rightarrow> bool" where
  \<comment> \<open>\<^verbatim>\<open>numpy.alltrue((matrix == self._instantaneous_mask).flat)\<close>, two arrays of one shape\<close>
  "all_equal matrix inst = list_all (\<lambda>(a, b). a = b) (zip (ravel matrix) (ravel inst))"

definition checkPredicateMasks ::
  "svd_routine \<Rightarrow> bool \<Rightarrow> int matrix \<Rightarrow> (string \<times> int matrix) list \<Rightarrow> error + warning list" where
  "checkPredicateMasks svd do_scaling inst predicate_masks =
     (case find (\<lambda>(name, matrix). all_zero matrix) predicate_masks of
        Some (name, matrix) \<Rightarrow> Inl (PredicateAlwaysFalse name)
      | None \<Rightarrow>
          let predicates_plus_scale =
                map (\<lambda>(name, matrix). (Some name, matrix)) predicate_masks @ [(None, inst)]
          in
          if do_scaling then
            (case find (\<lambda>(name, matrix). all_equal matrix inst) predicate_masks of
               Some (name, matrix) \<Rightarrow> Inl (PredicateAlwaysTrue name)
             | None \<Rightarrow>
                 if redundancyInPredicateMasks svd predicate_masks \<noteq> 0
                 then Inl RedundancyInPredicates
                 else if redundancyInPredicateMasks svd predicates_plus_scale \<noteq> 0
                 then Inl EquivalentToOverallRate
                 else Inr [])
          else
            if redundancyInPredicateMasks svd predicate_masks \<noteq> 0
            then Inl RedundancyInPredicates
            else if redundancyInPredicateMasks svd predicates_plus_scale \<noteq> 0
            then Inr [OverlyGeneralPredicates]
            else Inr [])"

section \<open>Monomer index tables\<close>

definition py_index :: "'a list \<Rightarrow> 'a \<Rightarrow> error + nat" where
  \<comment> \<open>\<^verbatim>\<open>monomers.index(c)\<close>: the first position of \<^verbatim>\<open>c\<close>\<close>
  "py_index xs c =
     (case find (\<lambda>k. xs ! k = c) [0..<length xs] of
        None \<Rightarrow> Inl NotInSequence
      | Some k \<Rightarrow> Inr k)"

definition char_at :: "motif \<Rightarrow> nat \<Rightarrow> error + motif" where
  \<comment> \<open>\<^verbatim>\<open>word[j]\<close>, a string of one character\<close>
  "char_at w j = (if j < length w then Inr [w ! j] else Inl IndexError)"

record tuple_indices =
  m2w :: "nat matrix"
  m2w_shape1 :: nat       \<comment> \<open>\<^verbatim>\<open>m2w.shape[1]\<close>, the motif length\<close>
  w2m :: "int matrix list"

definition calc_monomer_tuple_indices ::
  "motif list \<Rightarrow> nat \<Rightarrow> motif list \<Rightarrow> error + tuple_indices" where
  \<comment> \<open>the second argument is \<^verbatim>\<open>tuple_alphabet.getMotifLen()\<close>\<close>
  "calc_monomer_tuple_indices tuple_alphabet len monomers =
     (let size' = length tuple_alphabet in
      case traverse (\<lambda>i. traverse (\<lambda>j.
             case char_at (tuple_alphabet ! i) j of
               Inl e \<Rightarrow> Inl e
             | Inr c \<Rightarrow> py_index monomers c) [0..<len]) [0..<size'] of
        Inl e \<Rightarrow> Inl e
      | Inr t \<Rightarrow>
          Inr \<lparr> m2w = t, m2w_shape1 = len,
                w2m = map (\<lambda>j. map (\<lambda>i. map (\<lambda>k. if t ! i ! j = k then 1 else 0)
                                 [0..<length monomers]) [0..<size']) [0..<len] \<rparr>)"

definition diff_pos :: "motif \<Rightarrow> motif \<Rightarrow> error + nat list" where
  \<comment> \<open>\<^verbatim>\<open>[i for i in range(len(x)) if x[i] != y[i]]\<close>; \<^verbatim>\<open>y[i]\<close> raises beyond \<^verbatim>\<open>y\<close>\<close>
  "diff_pos x y =
     (if length y < length x then Inl IndexError
      else Inr (filter (\<lambda>i. x ! i \<noteq> y ! i) [0..<length x]))"

definition monomer_matrix_entry ::
  "motif list \<Rightarrow> motif list \<Rightarrow> real matrix \<Rightarrow> nat \<Rightarrow> nat \<Rightarrow> error + (nat \<times> nat)" where
  \<comment> \<open>the body of the double loop: \<^verbatim>\<open>(mutated_posn[i,j], mutant_motif[i,j])\<close>\<close>
  "monomer_matrix_entry tuple_alphabet monomers mask_arg i j =
     (let old_word = tuple_alphabet ! i; new_word = tuple_alphabet ! j in
      case get2 mask_arg i j of
        Inl e \<Rightarrow> Inl e
      | Inr v \<Rightarrow>
          if v \<noteq> 0 then
            if v \<noteq> 1 then Inl AssertionError
            else
              (case diff_pos old_word new_word of
                 Inl e \<Rightarrow> Inl e
               | Inr diffs' \<Rightarrow>
                   if length diffs' \<noteq> 1 then Inl AssertionError
                   else
                     (case char_at new_word (diffs' ! 0) of
                        Inl e \<Rightarrow> Inl e
                      | Inr c \<Rightarrow>
                          (case py_index monomers c of
                             Inl e \<Rightarrow> Inl e
                           | Inr k \<Rightarrow> Inr (diffs' ! 0, k))))
          else Inr (0, 0))"

definition calc_monomer_matrix_indices ::
  "motif list \<Rightarrow> motif list \<Rightarrow> real matrix
     \<Rightarrow> error + (nat matrix \<times> nat matrix \<times> real matrix)" where
  "calc_monomer_matrix_indices tuple_alphabet monomers mask_arg =
     (let num_states = length tuple_alphabet in
      case traverse (\<lambda>i. traverse (\<lambda>j.
             monomer_matrix_entry tuple_alphabet monomers mask_arg i j) [0..<num_states])
             [0..<num_states] of
        Inl e \<Rightarrow> Inl e
      | Inr t \<Rightarrow> Inr (map (map fst) t, map (map snd) t, mask_arg))"

section \<open>Construction of a model\<close>

text \<open>
  The embedding of \<^verbatim>\<open>SubstitutionModel.__init__\<close> starts at its MATRIX section. The
  sections before it (MISC, ALPHABET) call methods of the alphabet object; what they leave
  in the local variables is given in \<open>init_args\<close>, as are the arguments the later sections
  read. The MOTIF PROBS section counts motifs through collaborators outside the file and
  sets only \<^verbatim>\<open>motif_probs\<close> and \<^verbatim>\<open>motif_probs_from_align\<close>, which no later section
  reads: of it the embedding keeps the exception it raises, if any.
\<close>

datatype param_arg = PNone | PStr string | PSeq "string list"

datatype distribution_arg = DistNone | DistStr string | DistObject

datatype distrib_class = GammaDefn | MonotonicDefn | CustomDistribution

record init_args =
  arg_class :: klass
  arg_long_indels_are_instantaneous :: bool
  arg_alphabet :: "motif list"            \<comment> \<open>\<^verbatim>\<open>self.alphabet\<close>\<close>
  arg_gapmotif :: "motif option"          \<comment> \<open>\<^verbatim>\<open>alphabet.getGapMotif()\<close>\<close>
  arg_motif_len :: nat                    \<comment> \<open>\<^verbatim>\<open>alphabet.getMotifLen()\<close>\<close>
  arg_motif_alphabet :: "motif list"      \<comment> \<open>\<^verbatim>\<open>motif_alphabet\<close>\<close>
  arg_use_monomer_probs :: bool
  arg_position_specific_mprobs :: bool
  arg_model_gaps :: bool
  arg_predicates :: "rules option"
  arg_scales :: "rules option"
  arg_rate_matrix :: "real matrix option"
  arg_do_scaling :: bool
  arg_motif_probs_error :: "error option"
  arg_with_rate :: bool
  arg_ordered_param :: param_arg
  arg_partitioned_params :: param_arg
  arg_distribution :: distribution_arg

record model =
  self_env :: inst_env
  alphabet :: "motif list"
  mprobs_alphabet :: "motif list"
  do_scaling :: bool
  instantaneous_mask :: "int matrix"
  instantaneous_mask_f :: "real matrix"
  symmetric :: bool
  predicate_masks :: "(string \<times> int matrix) list"
  parameter_order :: "string list"
  predicate_indices :: "nat list list"
  scale_masks :: "(string \<times> int matrix) list"
  monomer_indices :: "tuple_indices option"
  monomer_matrix_indices :: "(nat matrix \<times> nat matrix \<times> real matrix) option"
  position_specific_mprobs :: bool
  with_rate :: bool
  ordered_param :: "string list"
  partitioned_params :: "string list"
  distrib_class :: distrib_class
  ident :: "real matrix"

definition args_env :: "init_args \<Rightarrow> inst_env" where
  "args_env args =
     \<lparr> model_class = arg_class args, gapmotif = arg_gapmotif args,
       long_indels_are_instantaneous = arg_long_indels_are_instantaneous args \<rparr>"

definition init_instantaneous :: "init_args \<Rightarrow> error + (int matrix \<times> real matrix \<times> warning list)" where
  \<comment> \<open>MATRIX: \<^verbatim>\<open>(_instantaneous_mask, _instantaneous_mask_f)\<close> and the warning\<close>
  "init_instantaneous args =
     (let M = length (arg_alphabet args) in
      case arg_rate_matrix args of
        Some rate_matrix \<Rightarrow>
          if \<not> (length rate_matrix = M \<and> list_all (\<lambda>row. length row = M) rate_matrix)
          then Inl AssertionError
          else if \<not> list_all (\<lambda>i. rate_matrix ! i ! i = 0) [0..<M] then Inl AssertionError
          else Inr (map (map (\<lambda>v. if v \<noteq> 0 then 1 else 0)) rate_matrix, rate_matrix,
                    if rules_truthy (arg_predicates args) then [EmpiricalModelWithParameters]
                    else [])
      | None \<Rightarrow>
          (case predicate2matrix (arg_alphabet args) (isInstantaneous (args_env args)) None of
             Inl e \<Rightarrow> Inl e
           | Inr inst \<Rightarrow> Inr (inst, map (map real_of_int) inst, [])))"

definition nonzero :: "int list \<Rightarrow> nat list" where
  \<comment> \<open>\<^verbatim>\<open>numpy.nonzero(a)[0]\<close>\<close>
  "nonzero a = filter (\<lambda>k. a ! k \<noteq> 0) [0..<length a]"

fun init_indices_loop ::
  "(string \<times> int matrix) list \<Rightarrow> bool \<Rightarrow> string list \<Rightarrow> nat list list
     \<Rightarrow> error + (bool \<times> string list \<times> nat list list)" where
  \<comment> \<open>\<^verbatim>\<open>for (pred, mask) in predicate_masks.items()\<close>\<close>
  "init_indices_loop [] symm names inds = Inr (symm, names, inds)"
| "init_indices_loop ((pred, mask') # rest) symm names inds =
     (let symm' = (if \<not> isSymmetrical mask' then False else symm);
          indices = nonzero (ravel mask')
      in if \<not> list_all (\<lambda>k. ravel mask' ! k = 1) indices then Inl AssertionError
         else init_indices_loop rest symm' (names @ [pred]) (inds @ [indices]))"

definition init_monomer_indices ::
  "init_args \<Rightarrow> real matrix
     \<Rightarrow> error + (tuple_indices option \<times> (nat matrix \<times> nat matrix \<times> real matrix) option)" where
  \<comment> \<open>MOTIF PROB ALPHABET MAPPING\<close>
  "init_monomer_indices args inst_f =
     (if arg_use_monomer_probs args then
        if arg_model_gaps args then Inl GappedNewQ
        else
          (case calc_monomer_tuple_indices (arg_alphabet args) (arg_motif_len args)
                  (arg_motif_alphabet args) of
             Inl e \<Rightarrow> Inl e
           | Inr mi \<Rightarrow>
               (case calc_monomer_matrix_indices (arg_alphabet args) (arg_motif_alphabet args)
                       inst_f of
                  Inl e \<Rightarrow> Inl e
                | Inr mmi \<Rightarrow> Inr (Some mi, Some mmi)))
      else Inr (None, None))"

definition param_tuple :: "param_arg \<Rightarrow> string list" where
  \<comment> \<open>a string is a tuple of one name, \<^verbatim>\<open>None\<close> the empty tuple\<close>
  "param_tuple p = (case p of PNone \<Rightarrow> [] | PStr s \<Rightarrow> [s] | PSeq l \<Rightarrow> l)"

definition init_bins ::
  "param_arg \<Rightarrow> param_arg \<Rightarrow> bool \<Rightarrow> string list \<Rightarrow> error + (bool \<times> string list \<times> string list)" where
  \<comment> \<open>BINS: \<^verbatim>\<open>(with_rate, ordered_param, partitioned_params)\<close>;
      \<^verbatim>\<open>tuple(set(a) | set(b))\<close> has each name once, in an order Python does not fix\<close>
  "init_bins ordered partitioned with_rate_arg names =
     (let ordered' = param_tuple ordered;
          partitioned' = param_tuple partitioned
      in if ordered' = [] \<and> partitioned' \<noteq> [] then Inl AssertionError
         else
           let partitioned'' = (if ordered' \<noteq> [] then remdups (ordered' @ partitioned')
                                else partitioned');
               with_rate' = (with_rate_arg \<or> ''rate'' \<in> set ordered')
           in if partitioned'' \<noteq> [] \<and>
                 \<not> list_ex (\<lambda>p. p \<in> set (''rate'' # names)) partitioned''
              then Inl AssertionError
              else Inr (with_rate', ordered', partitioned''))"

definition init_distribution :: "distribution_arg \<Rightarrow> error + distrib_class" where
  "init_distribution d =
     (case d of
        DistNone \<Rightarrow> Inr MonotonicDefn
      | DistStr s \<Rightarrow>
          if s = ''gamma'' then Inr GammaDefn
          else if s = ''free'' then Inr MonotonicDefn
          else Inl (UnknownDistribution s)
      | DistObject \<Rightarrow> Inr CustomDistribution)"

definition np_identity :: "nat \<Rightarrow> real matrix" where
  "np_identity n = map (\<lambda>i. map (\<lambda>j. if i = j then 1 else 0) [0..<n]) [0..<n]"

definition SubstitutionModel_init :: "svd_routine \<Rightarrow> init_args \<Rightarrow> error + (model \<times> warning list)" where
  "SubstitutionModel_init svd args =
     (case init_instantaneous args of
        Inl e \<Rightarrow> Inl e
      | Inr (inst, inst_f, w1) \<Rightarrow>
     (case adaptPredicates (arg_alphabet args) inst (rules_or_empty (arg_predicates args)) of
        Inl e \<Rightarrow> Inl e
      | Inr masks \<Rightarrow>
     (case checkPredicateMasks svd (arg_do_scaling args) inst masks of
        Inl e \<Rightarrow> Inl e
      | Inr w2 \<Rightarrow>
     (case init_indices_loop masks (isSymmetrical inst_f) [] [] of
        Inl e \<Rightarrow> Inl e
      | Inr (symm, names, inds) \<Rightarrow>
     (case adaptPredicates (arg_alphabet args) inst (rules_or_empty (arg_scales args)) of
        Inl e \<Rightarrow> Inl e
      | Inr scales \<Rightarrow>
     (case init_monomer_indices args inst_f of
        Inl e \<Rightarrow> Inl e
      | Inr (mi, mmi) \<Rightarrow>
     (case arg_motif_probs_error args of
        Some e \<Rightarrow> Inl e
      | None \<Rightarrow>
     (case init_bins (arg_ordered_param args) (arg_partitioned_params args)
             (arg_with_rate args) names of
        Inl e \<Rightarrow> Inl e
      | Inr (wr, ordered, partitioned) \<Rightarrow>
     (case init_distribution (arg_distribution args) of
        Inl e \<Rightarrow> Inl e
      | Inr dc \<Rightarrow>
          Inr (\<lparr> self_env = args_env args,
                 alphabet = arg_alphabet args,
                 mprobs_alphabet = arg_motif_alphabet args,
                 do_scaling = arg_do_scaling args,
                 instantaneous_mask = inst,
                 instantaneous_mask_f = inst_f,
                 symmetric = symm,
                 predicate_masks = masks,
                 parameter_order = names,
                 predicate_indices = inds,
                 scale_masks = scales,
                 monomer_indices = mi,
                 monomer_matrix_indices = mmi,
                 position_specific_mprobs = arg_position_specific_mprobs args,
                 with_rate = wr,
                 ordered_param = ordered,
                 partitioned_params = partitioned,
                 distrib_class = dc,
                 ident = np_identity (length (arg_alphabet args)) \<rparr>,
               w1 @ w2 @ (if \<not> symm then [ModelNotReversible] else [])))))))))))"

section \<open>The rate matrix\<close>

definition ncols :: "'a matrix \<Rightarrow> nat" where
  "ncols m = (case m of [] \<Rightarrow> 0 | row # _ \<Rightarrow> length row)"

fun np_put :: "'a matrix \<Rightarrow> nat list \<Rightarrow> 'a \<Rightarrow> error + 'a matrix" where
  \<comment> \<open>\<^verbatim>\<open>numpy.put(a, indices, v)\<close>: indices into the flattened array, in row-major order\<close>
  "np_put a [] v = Inr a"
| "np_put a (k # ks) v =
     (if k < length (ravel a) then
        np_put (a[k div ncols a := (a ! (k div ncols a))[k mod ncols a := v]]) ks v
      else Inl IndexError)"

definition np_ones :: "'a matrix \<Rightarrow> real matrix" where
  \<comment> \<open>\<^verbatim>\<open>numpy.ones(a.shape, Float)\<close>, and \<^verbatim>\<open>work[:] = 1.0\<close>\<close>
  "np_ones a = map (map (\<lambda>_. 1)) a"

definition np_mult :: "real matrix \<Rightarrow> real matrix \<Rightarrow> real matrix" where
  \<comment> \<open>the elementwise product of two arrays of one shape\<close>
  "np_mult a b = map2 (map2 (*)) a b"

fun calcRateMatrix_loop ::
  "(nat list \<times> real) list \<Rightarrow> real matrix \<Rightarrow> real matrix \<Rightarrow> error + real matrix" where
  \<comment> \<open>\<^verbatim>\<open>for (indices, par) in zip(self.predicate_indices, params)\<close>, on \<^verbatim>\<open>F\<close> and \<^verbatim>\<open>work\<close>\<close>
  "calcRateMatrix_loop [] F work = Inr F"
| "calcRateMatrix_loop ((indices, par) # rest) F work =
     (case np_put work indices par of
        Inl e \<Rightarrow> Inl e
      | Inr work1 \<Rightarrow> calcRateMatrix_loop rest (np_mult F work1) (np_ones work1))"

record rate_matrix =
  rm_scaled :: bool       \<comment> \<open>\<^verbatim>\<open>ScaledRateMatrix\<close> or \<^verbatim>\<open>RateMatrix\<close>\<close>
  rm_F :: "real matrix"
  rm_ident :: "real matrix"
  rm_symmetric :: bool

definition calcRateMatrix :: "model \<Rightarrow> real list \<Rightarrow> error + rate_matrix" where
  "calcRateMatrix self params =
     (if length params \<noteq> length (predicate_indices self) then Inl AssertionError
      else
        let inst = instantaneous_mask_f self;
            work = np_ones inst
        in case calcRateMatrix_loop (zip (predicate_indices self) params) inst work of
             Inl e \<Rightarrow> Inl e
           | Inr F \<Rightarrow>
               Inr \<lparr> rm_scaled = do_scaling self, rm_F = F, rm_ident = ident self,
                     rm_symmetric = symmetric self \<rparr>)"

section \<open>Word probabilities and the weight matrix\<close>

definition np_take :: "'a list \<Rightarrow> nat list \<Rightarrow> error + 'a list" where
  \<comment> \<open>\<^verbatim>\<open>a.take(indices)\<close> of a one-dimensional \<^verbatim>\<open>a\<close>\<close>
  "np_take a indices =
     traverse (\<lambda>k. if k < length a then Inr (a ! k) else Inl IndexError) indices"

definition normalise :: "real list \<Rightarrow> error + real list" where
  \<comment> \<open>\<^verbatim>\<open>result /= result.sum()\<close>\<close>
  "normalise result =
     (if result \<noteq> [] \<and> sum_list result = 0 then Inl DivisionByZero
      else Inr (map (\<lambda>v. v / sum_list result) result))"

definition calcWordProbs :: "model \<Rightarrow> real list list \<Rightarrow> error + real list" where
  "calcWordProbs self monomer_probs =
     (case monomer_indices self of
        None \<Rightarrow>
          if length monomer_probs \<noteq> 1 then Inl AssertionError else Inr (monomer_probs ! 0)
      | Some ti \<Rightarrow>
          if length monomer_probs = 1 then
            (case traverse (\<lambda>row. np_take (monomer_probs ! 0) row) (m2w ti) of
               Inl e \<Rightarrow> Inl e
             | Inr taken \<Rightarrow> normalise (map prod_list taken))
          else if length monomer_probs \<noteq> m2w_shape1 ti then Inl AssertionError
          else
            (case traverse (\<lambda>i. np_take (monomer_probs ! i) (map (\<lambda>row. row ! i) (m2w ti)))
                    [0..<length monomer_probs] of
               Inl e \<Rightarrow> Inl e
             | Inr taken \<Rightarrow>
                 normalise (map (\<lambda>w. prod_list (map (\<lambda>col. col ! w) taken))
                              [0..<length (m2w ti)])))"

datatype ndarray = Array1 "real list" | Array2 "real matrix"

definition calcWordWeightMatrix :: "model \<Rightarrow> real list list \<Rightarrow> error + ndarray" where
  \<comment> \<open>\<^verbatim>\<open>numpy.array(monomer_probs)\<close> is taken for vectors of one length, which is its
      \<^verbatim>\<open>shape[-1]\<close>\<close>
  "calcWordWeightMatrix self monomer_probs =
     (case monomer_matrix_indices self of
        None \<Rightarrow>
          if length monomer_probs \<noteq> 1 then Inl AssertionError
          else Inr (Array1 (monomer_probs ! 0))
      | Some (positions, indices, mask') \<Rightarrow>
          if length monomer_probs = 1 then
            (case traverse (\<lambda>row. np_take (monomer_probs ! 0) row) indices of
               Inl e \<Rightarrow> Inl e
             | Inr taken \<Rightarrow> Inr (Array2 (np_mult taken mask')))
          else
            let size' = (case monomer_probs of [] \<Rightarrow> 0 | v # _ \<Rightarrow> length v);
                extended_indices =
                  map2 (map2 (\<lambda>posn ind. posn * size' + ind)) positions indices
            in case traverse (\<lambda>row. np_take (concat monomer_probs) row) extended_indices of
                 Inl e \<Rightarrow> Inl e
               | Inr taken \<Rightarrow> Inr (Array2 (np_mult taken mask')))"

section \<open>Closed instances\<close>

text \<open>
  The singular values of a matrix of one or two rows, in closed form: the square roots of
  the eigenvalues of its Gram matrix. It stands for the library routine in the closed
  instances below, all of which have at most two rows to decompose.
\<close>

definition dot :: "real list \<Rightarrow> real list \<Rightarrow> real" where
  "dot u v = sum_list (map2 (*) u v)"

definition svd_two_rows :: svd_routine where
  "svd_two_rows A =
     (case A of
        [] \<Rightarrow> []
      | [r] \<Rightarrow> [sqrt (dot r r)]
      | [r, s] \<Rightarrow>
          (let a = dot r r; b = dot r s; c = dot s s;
               d = sqrt ((a - c) ^ 2 + 4 * b ^ 2)
           in [sqrt ((a + c + d) / 2), sqrt ((a + c - d) / 2)])
      | _ \<Rightarrow> [])"

text \<open>A model of two states \<^verbatim>\<open>a\<close> and \<^verbatim>\<open>b\<close>, with the rules and the scaling mode given.\<close>

definition two_state_args :: "rules option \<Rightarrow> bool \<Rightarrow> init_args" where
  "two_state_args preds scaling =
     \<lparr> arg_class = SubstitutionModel,
       arg_long_indels_are_instantaneous = True,
       arg_alphabet = [''a'', ''b''],
       arg_gapmotif = Some ''-'',
       arg_motif_len = 1,
       arg_motif_alphabet = [''a'', ''b''],
       arg_use_monomer_probs = False,
       arg_position_specific_mprobs = False,
       arg_model_gaps = False,
       arg_predicates = preds,
       arg_scales = None,
       arg_rate_matrix = None,
       arg_do_scaling = scaling,
       arg_motif_probs_error = None,
       arg_with_rate = False,
       arg_ordered_param = PNone,
       arg_partitioned_params = PNone,
       arg_distribution = DistNone \<rparr>"

definition pred_always :: pred_obj where
  "pred_always = \<lparr> pred_repr = ''always'', pred_func = (\<lambda>x y. True) \<rparr>"

definition pred_never :: pred_obj where
  "pred_never = \<lparr> pred_repr = ''never'', pred_func = (\<lambda>x y. False) \<rparr>"

definition pred_forward :: pred_obj where
  \<comment> \<open>true of the change from \<^verbatim>\<open>a\<close> to \<^verbatim>\<open>b\<close> only\<close>
  "pred_forward = \<lparr> pred_repr = ''forward'', pred_func = (\<lambda>x y. x = ''a'' \<and> y = ''b'') \<rparr>"

text \<open>
  The nucleotide scenario: the DNA alphabet, and the predicate \<^verbatim>\<open>transition\<close> of
  \<^verbatim>\<open>_Nucleotide.getPredefinedPredicates\<close>, \<^verbatim>\<open>R/R | Y/Y\<close>: both motifs purines, or both
  pyrimidines.
\<close>

definition pred_transition :: pred_obj where
  "pred_transition =
     \<lparr> pred_repr = ''transition'',
       pred_func = (\<lambda>x y. (x \<in> set [''A'', ''G''] \<and> y \<in> set [''A'', ''G'']) \<or>
                           (x \<in> set [''C'', ''T''] \<and> y \<in> set [''C'', ''T''])) \<rparr>"

definition nucleotide_args :: init_args where
  "nucleotide_args =
     (two_state_args (Some (RulesDict [(''transition'', pred_transition)])) True)
       \<lparr> arg_alphabet := [''T'', ''C'', ''A'', ''G''],
         arg_motif_alphabet := [''T'', ''C'', ''A'', ''G''] \<rparr>"

text \<open>
  Models of words of two letters over the monomers \<^verbatim>\<open>a\<close> and \<^verbatim>\<open>b\<close>, with monomer
  probabilities; and the model the constructor returns for the three words \<^verbatim>\<open>aa\<close>,
  \<^verbatim>\<open>ab\<close>, \<^verbatim>\<open>ba\<close>.
\<close>

definition word_args :: "motif list \<Rightarrow> init_args" where
  "word_args words =
     (two_state_args None True)
       \<lparr> arg_alphabet := words, arg_gapmotif := Some ''--'', arg_motif_len := 2,
         arg_use_monomer_probs := True \<rparr>"

definition sub_word_model :: model where
  "sub_word_model =
     \<lparr> self_env = \<lparr> model_class = SubstitutionModel, gapmotif = Some ''--'',
                    long_indels_are_instantaneous = True \<rparr>,
       alphabet = [''aa'', ''ab'', ''ba''],
       mprobs_alphabet = [''a'', ''b''],
       do_scaling = True,
       instantaneous_mask = [[0, 1, 1], [1, 0, 0], [1, 0, 0]],
       instantaneous_mask_f = [[0, 1, 1], [1, 0, 0], [1, 0, 0]],
       symmetric = True,
       predicate_masks = [],
       parameter_order = [],
       predicate_indices = [],
       scale_masks = [],
       monomer_indices =
         Some \<lparr> m2w = [[0, 0], [0, 1], [1, 0]], m2w_shape1 = 2,
                w2m = [[[1, 0], [1, 0], [0, 1]], [[1, 0], [0, 1], [1, 0]]] \<rparr>,
       monomer_matrix_indices =
         Some ([[0, 1, 0], [1, 0, 0], [0, 0, 0]],
               [[0, 1, 1], [0, 0, 0], [0, 0, 0]],
               [[0, 1, 1], [1, 0, 0], [1, 0, 0]]),
       position_specific_mprobs = False,
       with_rate = False,
       ordered_param = [],
       partitioned_params = [],
       distrib_class = MonotonicDefn,
       ident = [[1, 0, 0], [0, 1, 0], [0, 0, 1]] \<rparr>"

text \<open>
  An empirical model of the two states: the rate matrix is given, and is not symmetric;
  and the model the constructor returns for it.
\<close>

definition empirical_args :: init_args where
  "empirical_args = (two_state_args None True) \<lparr> arg_rate_matrix := Some [[0, 2], [3, 0]] \<rparr>"

definition empirical_model :: model where
  "empirical_model =
     \<lparr> self_env = \<lparr> model_class = SubstitutionModel, gapmotif = Some ''-'',
                    long_indels_are_instantaneous = True \<rparr>,
       alphabet = [''a'', ''b''],
       mprobs_alphabet = [''a'', ''b''],
       do_scaling = True,
       instantaneous_mask = [[0, 1], [1, 0]],
       instantaneous_mask_f = [[0, 2], [3, 0]],
       symmetric = False,
       predicate_masks = [],
       parameter_order = [],
       predicate_indices = [],
       scale_masks = [],
       monomer_indices = None,
       monomer_matrix_indices = None,
       position_specific_mprobs = False,
       with_rate = False,
       ordered_param = [],
       partitioned_params = [],
       distrib_class = MonotonicDefn,
       ident = [[1, 0], [0, 1]] \<rparr>"

section \<open>Auxiliary notions of the proofs\<close>

text \<open>A position that differs with the gap character on strand \<open>s\<close>.\<close>

definition on_strand :: "nat \<Rightarrow> char \<times> char \<times> char \<Rightarrow> bool" where
  "on_strand s = (\<lambda>(G, X, Y). (X = G \<or> Y = G) \<and> (if X = G then 0 else 1) = s)"

text \<open>
  An array of \<open>n\<close> rows and \<open>n\<close> columns; the items of the rules, the label a rule resolves
  to, and the mask of a predicate.
\<close>

definition square :: "nat \<Rightarrow> 'a matrix \<Rightarrow> bool" where
  "square n m = (length m = n \<and> list_all (\<lambda>row. length row = n) m)"

definition rule_items :: "rules \<Rightarrow> (string option \<times> pred_obj) list" where
  "rule_items rs =
     (case rs of
        RulesDict d \<Rightarrow> map (\<lambda>(k, p). (Some k, p)) d
      | RulesList l \<Rightarrow> map (\<lambda>p. (None, p)) l)"

definition rule_label :: "string option \<times> pred_obj \<Rightarrow> string" where
  "rule_label = (\<lambda>(key, pred).
     case key of None \<Rightarrow> pred_repr pred | Some l \<Rightarrow> if l = [] then pred_repr pred else l)"

definition masked_table :: "motif list \<Rightarrow> int matrix \<Rightarrow> pred_obj \<Rightarrow> int matrix" where
  "masked_table a inst p =
     map (\<lambda>i. map (\<lambda>j. if inst ! i ! j \<noteq> 0 then of_bool (pred_func p (a ! i) (a ! j)) else 0)
                [0..<length a]) [0..<length a]"

definition orthogonal :: "nat \<Rightarrow> (nat \<Rightarrow> nat \<Rightarrow> real) \<Rightarrow> bool" where
  \<comment> \<open>an \<open>n\<close> by \<open>n\<close> matrix whose columns, and whose rows, are orthonormal\<close>
  "orthogonal n Q =
     (\<forall>i<n. \<forall>j<n.
        (\<Sum>k<n. Q k i * Q k j) = (if i = j then 1 else 0) \<and>
        (\<Sum>k<n. Q i k * Q j k) = (if i = j then 1 else 0))"

definition singular_values :: "real matrix \<Rightarrow> real list \<Rightarrow> bool" where
  \<comment> \<open>what \<^verbatim>\<open>numpy.linalg.svd(a)\<close> documents of its result \<^verbatim>\<open>(u, s, vh)\<close>: \<^verbatim>\<open>u\<close> and
      \<^verbatim>\<open>vh\<close> are orthogonal, \<^verbatim>\<open>s\<close> holds \<open>min n m\<close> non-negative values in descending
      order, and \<^verbatim>\<open>a = u . diag(s) . vh\<close>; here \<open>V\<close> is the transpose of \<^verbatim>\<open>vh\<close>\<close>
  "singular_values A s =
     (let n = length A; m = ncols A; k = min n m in
      length s = k \<and> list_all (\<lambda>v. 0 \<le> v) s \<and> sorted (rev s) \<and>
      (\<exists>U V. orthogonal n U \<and> orthogonal m V \<and>
         (\<forall>i<n. \<forall>j<m. A ! i ! j = (\<Sum>l<k. U i l * s ! l * V j l))))"

definition half_turn :: "nat \<Rightarrow> nat \<Rightarrow> real" where
  \<comment> \<open>the left factor of the decomposition of two equal rows\<close>
  "half_turn i l = (if l = 0 \<or> i = 0 then 1 else - 1) / sqrt 2"

definition swap_first :: "nat \<Rightarrow> nat \<Rightarrow> real" where
  \<comment> \<open>the right factor: the permutation that exchanges the first two coordinates\<close>
  "swap_first j l = (if (j = 0 \<and> l = 1) \<or> (j = 1 \<and> l = 0) \<or> (j = l \<and> 2 \<le> j) then 1 else 0)"

definition word_products :: "tuple_indices \<Rightarrow> real list list \<Rightarrow> real list" where
  \<comment> \<open>for each word, the product over its positions of the probability of the monomer there:
      of the shared vector, or of the vector of the position\<close>
  "word_products ti ps =
     map (\<lambda>row. prod_list (map (\<lambda>j. (if length ps = 1 then ps ! 0 else ps ! j) ! (row ! j))
                              [0..<m2w_shape1 ti])) (m2w ti)"

section \<open>Properties of the instantaneous predicate\<close>

lemma on_strand_0:
  "list_all (\<lambda>(G, X, Y). X \<noteq> Y) run \<Longrightarrow>
   list_all (on_strand 0) run = list_all (\<lambda>(G, X, Y). X = G) run"
  by (induction run) (auto simp: on_strand_def)

lemma on_strand_1:
  "list_all (\<lambda>(G, X, Y). X \<noteq> Y) run \<Longrightarrow>
   list_all (on_strand (Suc 0)) run = list_all (\<lambda>(G, X, Y). Y = G) run"
  by (induction run) (auto simp: on_strand_def)

lemma not_differs: "(\<lambda>t. \<not> (case t of (G, X, Y) \<Rightarrow> X \<noteq> Y)) = (\<lambda>(G, X, Y). X = Y)"
  by auto

lemma traverse_Inr_iff:
  "traverse f xs = Inr ys \<longleftrightarrow> length ys = length xs \<and> (\<forall>i<length xs. f (xs ! i) = Inr (ys ! i))"
proof (induction xs arbitrary: ys)
  case Nil
  then show ?case by auto
next
  case (Cons x xs)
  show ?case
  proof (cases "f x")
    case (Inl e)
    then show ?thesis by (auto intro: exI [of _ 0])
  next
    case (Inr y)
    show ?thesis
    proof (cases "traverse f xs")
      case (Inl e)
      then have "\<not> (\<exists>zs. length zs = length xs \<and> (\<forall>i<length xs. f (xs ! i) = Inr (zs ! i)))"
        using Cons.IH by auto
      then show ?thesis using Inl Inr
        by (cases ys) (auto simp: nth_Cons split: nat.splits)
    next
      case r: (Inr zs)
      then show ?thesis using Inr Cons.IH [of zs] Cons.IH [of "tl ys"]
        by (cases ys) (auto simp: nth_Cons less_Suc_eq_0_disj split: nat.splits)
    qed
  qed
qed

lemma traverse_total:
  "(\<And>x. x \<in> set xs \<Longrightarrow> f x = Inr (g x)) \<Longrightarrow> traverse f xs = Inr (map g xs)"
  by (induction xs) auto

lemma traverse_Inl:
  "traverse f xs = Inl e \<Longrightarrow> \<exists>x\<in>set xs. f x = Inl e"
  by (induction xs) (auto split: sum.splits)


lemma predicate2matrix_total:
  assumes "\<And>i j. i < length a \<Longrightarrow> j < length a \<Longrightarrow> pred (a ! i) (a ! j) = Inr (p i j)"
  shows "predicate2matrix a pred None
           = Inr (map (\<lambda>i. map (\<lambda>j. of_bool (p i j)) [0..<length a]) [0..<length a])"
proof -
  have row: "traverse (\<lambda>j. predicate2matrix_entry a pred None i j) [0..<length a]
               = Inr (map (\<lambda>j. of_bool (p i j)) [0..<length a])" if "i < length a" for i
    by (rule traverse_total) (simp add: predicate2matrix_entry_def assms that)
  show ?thesis unfolding predicate2matrix_def Let_def
    by (rule traverse_total) (simp add: row)
qed

lemma sum_list_of_bool_row:
  "sum_list (map (\<lambda>j. of_bool (P j)) js) = int (length (filter P js))"
  by (induction js) auto

lemma sum_list_of_bool_concat:
  "sum_list (concat (map (\<lambda>i. map (\<lambda>j. of_bool (P i j)) js) is))
     = int (length (filter (\<lambda>(i, j). P i j) (List.product is js)))"
  by (induction "is") (simp_all add: sum_list_of_bool_row filter_map comp_def)

lemma length_filter_disj:
  "(\<And>x. x \<in> set xs \<Longrightarrow> \<not> (P x \<and> Q x)) \<Longrightarrow>
   length (filter (\<lambda>x. P x \<or> Q x) xs) = length (filter P xs) + length (filter Q xs)"
  by (induction xs) auto

lemma ndiffs_same: "ndiffs x x = 0"
  by (induction x) (simp_all add: ndiffs_def)

lemma predicate2matrix_Inr:
  assumes "predicate2matrix a pred mo = Inr r"
  shows "square (length a) r"
    and "i < length a \<Longrightarrow> j < length a \<Longrightarrow> predicate2matrix_entry a pred mo i j = Inr (r ! i ! j)"
proof -
  have len: "length r = length a"
    and rows: "\<And>i. i < length a \<Longrightarrow>
      traverse (\<lambda>j. predicate2matrix_entry a pred mo i j) [0..<length a] = Inr (r ! i)"
    using assms by (simp_all add: predicate2matrix_def traverse_Inr_iff Let_def)
  have row: "length (r ! i) = length a \<and>
      (\<forall>j<length a. predicate2matrix_entry a pred mo i j = Inr (r ! i ! j))"
    if "i < length a" for i
    using rows [OF that] by (simp add: traverse_Inr_iff)
  show "square (length a) r"
    using len row by (simp add: square_def list_all_length)
  show "predicate2matrix_entry a pred mo i j = Inr (r ! i ! j)"
    if "i < length a" "j < length a"
    using row [OF that(1)] that(2) by simp
qed

lemma predicate2matrix_None_Inr:
  assumes "predicate2matrix a pred None = Inr inst"
  shows "square (length a) inst"
    and "i < length a \<Longrightarrow> j < length a \<Longrightarrow> map_sum id of_bool (pred (a ! i) (a ! j)) = Inr (inst ! i ! j)"
  using predicate2matrix_Inr [OF assms] by (simp_all add: predicate2matrix_entry_def)

lemma loop_past_gapmotif:
  "length g \<le> k \<Longrightarrow> isAnyIndel_loop (Some g) (enumerate k (z # zs)) a b s = Inl IndexError"
  by (cases z) (simp add: gapmotif_at_def)

lemma loop_closed_any:
  "isAnyIndel_loop (Some g) (enumerate k zs) (Some a) (Some b) st
     = (if list_all (\<lambda>(G, X, Y). X = Y) (zip (drop k g) zs)
        then if length zs \<le> length g - k then Inr True else Inl IndexError
        else Inr False)"
proof (induction zs arbitrary: k b)
  case Nil
  then show ?case by simp
next
  case (Cons z zs)
  obtain X Y where z: "z = (X, Y)" by (cases z)
  show ?case
  proof (cases "k < length g")
    case True
    have d: "drop k g = g ! k # drop (Suc k) g" using True by (simp add: Cons_nth_drop_Suc)
    have l: "(length (z # zs) \<le> length g - k) = (length zs \<le> length g - Suc k)"
      using True by auto
    show ?thesis unfolding l using Cons.IH [of "Suc k" k] True
      by (simp add: z gapmotif_at_def d)
  next
    case False
    then show ?thesis using loop_past_gapmotif [of g k z zs] by simp
  qed
qed

lemma loop_open_any:
  "isAnyIndel_loop (Some g) (enumerate k zs) (Some a) None (Some s)
     = (if list_all (\<lambda>(G, X, Y). X = Y) (dropWhile (\<lambda>(G, X, Y). X \<noteq> Y) (zip (drop k g) zs)) \<and>
           list_all (on_strand s) (takeWhile (\<lambda>(G, X, Y). X \<noteq> Y) (zip (drop k g) zs))
        then if length zs \<le> length g - k then Inr True else Inl IndexError
        else Inr False)"
proof (induction zs arbitrary: k)
  case Nil
  then show ?case by simp
next
  case (Cons z zs)
  obtain X Y where z: "z = (X, Y)" by (cases z)
  show ?case
  proof (cases "k < length g")
    case True
    have d: "drop k g = g ! k # drop (Suc k) g" using True by (simp add: Cons_nth_drop_Suc)
    have l: "(length (z # zs) \<le> length g - k) = (length zs \<le> length g - Suc k)"
      using True by auto
    show ?thesis unfolding l
      using Cons.IH [of "Suc k"] True loop_closed_any [of g "Suc k" zs a k "Some s"]
      by (auto simp add: z gapmotif_at_def d on_strand_def)
  next
    case False
    then show ?thesis using loop_past_gapmotif [of g k z zs] by simp
  qed
qed

lemma loop_start_any:
  "isAnyIndel_loop (Some g) (enumerate k zs) None None None
     = (if single_gap_run (zip (drop k g) zs)
        then if length zs \<le> length g - k then Inr True else Inl IndexError
        else Inr False)"
proof (induction zs arbitrary: k)
  case Nil
  then show ?case by (simp add: single_gap_run_def)
next
  case (Cons z zs)
  obtain X Y where z: "z = (X, Y)" by (cases z)
  show ?case
  proof (cases "k < length g")
    case k: True
    have d: "drop k g = g ! k # drop (Suc k) g" using k by (simp add: Cons_nth_drop_Suc)
    have l: "(length (z # zs) \<le> length g - k) = (length zs \<le> length g - Suc k)"
      using k by auto
    show ?thesis
    proof (cases "X = Y")
      case True
      then show ?thesis unfolding l using Cons.IH [of "Suc k"] k
        by (simp add: z gapmotif_at_def d single_gap_run_def)
    next
      case False
      let ?T = "zip (drop (Suc k) g) zs"
      let ?run = "takeWhile (\<lambda>(G, X, Y). X \<noteq> Y) ?T"
      let ?post = "dropWhile (\<lambda>(G, X, Y). X \<noteq> Y) ?T"
      have run: "list_all (\<lambda>(G, X, Y). X \<noteq> Y) ?run"
        by (simp add: list_all_iff) (metis (mono_tags, lifting) set_takeWhileD)
      have spec: "single_gap_run (zip (drop k g) (z # zs)) =
          (list_all (\<lambda>(G, X, Y). X = Y) ?post \<and>
            ((X = g ! k \<and> list_all (\<lambda>(G, X, Y). X = G) ?run) \<or>
             (Y = g ! k \<and> list_all (\<lambda>(G, X, Y). Y = G) ?run)))"
        using False by (simp add: z d single_gap_run_def not_differs Let_def)
      have lhs: "isAnyIndel_loop (Some g) (enumerate k (z # zs)) None None None =
          (if X \<noteq> g ! k \<and> Y \<noteq> g ! k then Inr False
           else isAnyIndel_loop (Some g) (enumerate (Suc k) zs) (Some k) None
                  (Some (if X = g ! k then 0 else 1)))"
        using False k by (simp add: z gapmotif_at_def)
      consider (x) "X = g ! k" | (y) "X \<noteq> g ! k" "Y = g ! k" | (n) "X \<noteq> g ! k" "Y \<noteq> g ! k"
        by blast
      then show ?thesis
      proof cases
        case x
        then have "Y \<noteq> g ! k" using False by simp
        then show ?thesis unfolding lhs spec l
          using x loop_open_any [of g "Suc k" zs k 0] on_strand_0 [OF run] by simp
      next
        case y
        then show ?thesis unfolding lhs spec l
          using loop_open_any [of g "Suc k" zs k "Suc 0"] on_strand_1 [OF run] by simp
      next
        case n
        then show ?thesis unfolding lhs spec by simp
      qed
    qed
  next
    case False
    then show ?thesis using loop_past_gapmotif [of g k z zs]
      by (simp add: single_gap_run_def)
  qed
qed

lemma ndiffs_positive: "ndiffs x y > 0 \<Longrightarrow> x \<noteq> y \<and> zip x y \<noteq> []"
  by (auto simp: ndiffs_def filter_empty_conv in_set_zip)

lemma isInstantaneous_base_any:
  assumes "gapmotif env = Some g"
  shows "isInstantaneous_base env x y
           = (if ndiffs x y > 1 \<and> long_indels_are_instantaneous env \<and>
                 single_gap_run (zip g (zip x y)) \<and> length g < min (length x) (length y)
              then Inl IndexError
              else Inr (isInstantaneous_spec (long_indels_are_instantaneous env) g x y))"
  using assms ndiffs_positive [of x y] loop_start_any [of g 0 "zip x y"]
  by (auto simp: isInstantaneous_base_def isInstantaneous_spec_def isAnyIndel_def Let_def)

lemma isInstantaneous_base_no_gapmotif:
  assumes "gapmotif env = None"
  shows "isInstantaneous_base env x y
           = (if ndiffs x y > 1 \<and> long_indels_are_instantaneous env then Inl TypeError
              else Inr (ndiffs x y = 1))"
proof (cases "ndiffs x y > 1 \<and> long_indels_are_instantaneous env")
  case True
  with ndiffs_positive [of x y] obtain z zs where z: "zip x y = z # zs" and ne: "x \<noteq> y"
    by (cases "zip x y") auto
  obtain X Y where "z = (X, Y)" by (cases z)
  then show ?thesis using True ne
    by (simp add: isInstantaneous_base_def isAnyIndel_def z assms gapmotif_at_def Let_def)
next
  case False
  then show ?thesis by (auto simp: isInstantaneous_base_def Let_def)
qed

lemma isInstantaneous_same: "isInstantaneous env x x = Inr False"
  by (simp add: isInstantaneous_def isInstantaneous_base_def isInstantaneous_codon_def
      ndiffs_same Let_def split: klass.splits)

lemma gap_free_no_gap_run:
  assumes free: "\<And>G X Y. (G, X, Y) \<in> set ts \<Longrightarrow> X \<noteq> G \<and> Y \<noteq> G"
    and diff: "\<exists>t \<in> set ts. (\<lambda>(G, X, Y). X \<noteq> Y) t"
  shows "\<not> single_gap_run ts"
proof -
  let ?d = "\<lambda>(G, X, Y). X \<noteq> (Y :: char)"
  let ?ds = "dropWhile (\<lambda>t. \<not> ?d t) ts"
  from diff have ne: "?ds \<noteq> []" by (auto simp: dropWhile_eq_Nil_conv)
  then obtain t rest where ds: "?ds = t # rest" by (cases ?ds) auto
  have "?d (hd ?ds)" using hd_dropWhile [OF ne] by simp
  then have dt: "?d t" by (simp add: ds)
  have "t \<in> set ts" using set_dropWhileD [of t "\<lambda>t. \<not> ?d t" ts] by (simp add: ds)
  then have "(\<lambda>(G, X, Y). X \<noteq> G \<and> Y \<noteq> G) t" using free by (cases t) auto
  then show ?thesis using dt unfolding single_gap_run_def Let_def ds by (cases t) auto
qed

lemma disjoint_nth:
  "set y \<inter> set g = {} \<Longrightarrow> i < length y \<Longrightarrow> j < length g \<Longrightarrow>
   y ! i \<noteq> g ! j \<and> g ! j \<noteq> y ! i"
  by (metis disjoint_iff nth_mem)

lemma all_gap_run:
  assumes "\<forall>t \<in> set ts. (\<lambda>(G, X, Y). X \<noteq> Y) t"
    and "list_all (\<lambda>(G, X, Y). X = G) ts \<or> list_all (\<lambda>(G, X, Y). Y = G) ts"
  shows "single_gap_run ts"
proof -
  have 1: "dropWhile (\<lambda>t. \<not> (\<lambda>(G, X, Y). X \<noteq> Y) t) ts = ts"
    using assms(1) by (cases ts) auto
  have 2: "takeWhile (\<lambda>(G, X, Y). X \<noteq> Y) ts = ts"
    using assms(1) by (intro takeWhile_eq_all_conv [THEN iffD2]) auto
  have 3: "dropWhile (\<lambda>(G, X, Y). X \<noteq> Y) ts = []"
    using assms(1) by (auto simp: dropWhile_eq_Nil_conv)
  show ?thesis unfolding single_gap_run_def Let_def 1 2 3 using assms(2) by simp
qed

lemma gap_motif_run:
  assumes "length y = length g" and "set y \<inter> set g = {}"
  shows "ndiffs g y = length g" and "single_gap_run (zip g (zip g y))"
    and "ndiffs y g = length g" and "single_gap_run (zip g (zip y g))"
proof -
  have a: "\<forall>t \<in> set (zip g y). (\<lambda>(X, Y). X \<noteq> Y) t"
    using disjoint_nth [OF assms(2)] by (auto simp: in_set_zip)
  then show "ndiffs g y = length g" using assms(1) by (simp add: ndiffs_def)
  have b: "\<forall>t \<in> set (zip y g). (\<lambda>(X, Y). X \<noteq> Y) t"
    using disjoint_nth [OF assms(2)] by (auto simp: in_set_zip)
  then show "ndiffs y g = length g" using assms(1) by (simp add: ndiffs_def)
  have c: "\<forall>t \<in> set (zip g (zip g y)). (\<lambda>(G, X, Y). X \<noteq> Y \<and> X = G) t"
    using disjoint_nth [OF assms(2)] by (auto simp: in_set_zip)
  show "single_gap_run (zip g (zip g y))"
    by (rule all_gap_run) (use c in \<open>auto simp: list_all_iff\<close>)
  have d: "\<forall>t \<in> set (zip g (zip y g)). (\<lambda>(G, X, Y). X \<noteq> Y \<and> Y = G) t"
    using disjoint_nth [OF assms(2)] by (auto simp: in_set_zip)
  show "single_gap_run (zip g (zip y g))"
    by (rule all_gap_run) (use d in \<open>auto simp: list_all_iff\<close>)
qed

lemma isInstantaneous_codon_gap_free:
  assumes gm: "gapmotif env = Some g"
    and x: "x = g \<or> (length x = length g \<and> set x \<inter> set g = {})"
    and y: "y = g \<or> (length y = length g \<and> set y \<inter> set g = {})"
  shows "isInstantaneous_codon env x y = Inr (isInstantaneous_spec True g x y)"
proof -
  consider (both) "x = g" "y = g"
    | (left) "x = g" "y \<noteq> g" "length y = length g" "set y \<inter> set g = {}"
    | (right) "y = g" "x \<noteq> g" "length x = length g" "set x \<inter> set g = {}"
    | (none) "x \<noteq> g" "y \<noteq> g" "length x = length g" "set x \<inter> set g = {}"
        "length y = length g" "set y \<inter> set g = {}"
    using x y by blast
  then show ?thesis
  proof cases
    case both
    then show ?thesis
      by (simp add: isInstantaneous_codon_def gm isInstantaneous_spec_def ndiffs_same)
  next
    case left
    note r = gap_motif_run(1,2) [OF left(3,4)]
    have "length g = 1 \<or> 1 < length g" using left(2,3) by (cases g) auto
    then have "isInstantaneous_spec True g g y"
      unfolding isInstantaneous_spec_def r(1) using r(2) by blast
    then show ?thesis using left(1,2) by (simp add: isInstantaneous_codon_def gm)
  next
    case right
    note r = gap_motif_run(3,4) [OF right(3,4)]
    have "length g = 1 \<or> 1 < length g" using right(2,3) by (cases g) auto
    then have "isInstantaneous_spec True g x g"
      unfolding isInstantaneous_spec_def r(1) using r(2) by blast
    then show ?thesis using right(1,2) by (simp add: isInstantaneous_codon_def gm)
  next
    case none
    have free: "X \<noteq> G \<and> Y \<noteq> G" if "(G, X, Y) \<in> set (zip g (zip x y))" for G X Y
      using that disjoint_nth [OF none(4)] disjoint_nth [OF none(6)]
      by (auto simp: in_set_zip)
    have "\<not> single_gap_run (zip g (zip x y))" if "ndiffs x y > 0"
    proof (rule gap_free_no_gap_run [OF free])
      from that obtain X Y where "(X, Y) \<in> set (zip x y)" "X \<noteq> Y"
        by (auto simp: ndiffs_def filter_empty_conv)
      then obtain i where i: "i < length x" "i < length y" "x ! i = X" "y ! i = Y"
        by (auto simp: in_set_zip)
      then have "(g ! i, X, Y) \<in> set (zip g (zip x y))"
        using none(3) by (auto simp: in_set_zip)
      then show "\<exists>t \<in> set (zip g (zip x y)). (\<lambda>(G, X, Y). X \<noteq> Y) t"
        using \<open>X \<noteq> Y\<close> by (intro bexI [of _ "(g ! i, X, Y)"]) auto
    qed simp
    then have "isInstantaneous_spec True g x y = (ndiffs x y = 1)"
      by (auto simp: isInstantaneous_spec_def)
    then show ?thesis using none(1,2) by (simp add: isInstantaneous_codon_def gm)
  qed
qed

lemma predicate2matrix_table:
  assumes "predicate2matrix a pred None = Inr inst"
  shows "inst = map (\<lambda>i. map (\<lambda>j. of_bool (pred (a ! i) (a ! j) = Inr True)) [0..<length a])
                  [0..<length a]"
    and "i < length a \<Longrightarrow> j < length a \<Longrightarrow> pred (a ! i) (a ! j) = Inr (inst ! i ! j = 1)"
proof -
  have pt: "pred (a ! i) (a ! j) = Inr (pred (a ! i) (a ! j) = Inr True)"
    if "i < length a" "j < length a" for i j
    using predicate2matrix_None_Inr(2) [OF assms that]
    by (cases "pred (a ! i) (a ! j)") auto
  from predicate2matrix_total [of a pred "\<lambda>i j. pred (a ! i) (a ! j) = Inr True", OF pt] assms
  show t: "inst = map (\<lambda>i. map (\<lambda>j. of_bool (pred (a ! i) (a ! j) = Inr True)) [0..<length a])
                  [0..<length a]"
    by simp
  show "pred (a ! i) (a ! j) = Inr (inst ! i ! j = 1)" if "i < length a" "j < length a"
  proof -
    have "inst ! i ! j = of_bool (pred (a ! i) (a ! j) = Inr True)"
      by (subst t) (simp add: that)
    then show ?thesis using pt [OF that] by (cases "pred (a ! i) (a ! j) = Inr True") auto
  qed
qed

text \<open>
  Claim C4, amended. In the base class, with a gap motif, \<^verbatim>\<open>_isInstantaneous(x, y)\<close> is
  true exactly when \<open>x\<close> and \<open>y\<close> differ in exactly one position, or differ in more than
  one position while long indels are instantaneous and the differing positions are one
  contiguous run with the gap character always on the same strand; where the motifs are
  longer than the gap motif and the characterisation would accept such a run, indexing
  the gap motif raises instead. With no gap motif it is true exactly of the pairs
  differing in one position, and raises for pairs differing in more when long indels are
  instantaneous. In the class \<^verbatim>\<open>Codon\<close>, which overrides the method, it is true exactly
  when one of the two motifs is the gap motif and they differ, or neither is and they
  differ in exactly one position; this is the same predicate where every motif other
  than the gap motif has its length and holds none of its characters. In every
  configuration the predicate is false of a motif and itself, so a mask that is built
  has a zero diagonal, and the sum of its entries is the number of pairs of which the
  predicate is true: in the base class the pairs differing in one position plus the
  indel pairs, in \<^verbatim>\<open>Codon\<close> the pairs without the gap motif differing in one position
  plus the pairs of the gap motif and another motif.
\<close>

theorem isInstantaneous_single_difference_or_gap_run:
  fixes env :: inst_env and alph :: "motif list"
  defines "long \<equiv> long_indels_are_instantaneous env"
    and "pairs \<equiv> List.product [0..<length alph] [0..<length alph]"
  shows
    "(\<forall>g x y. model_class env = SubstitutionModel \<and> gapmotif env = Some g \<longrightarrow>
        isInstantaneous env x y
          = (if 1 < ndiffs x y \<and> long \<and> single_gap_run (zip g (zip x y)) \<and>
                length g < min (length x) (length y)
             then Inl IndexError
             else Inr (isInstantaneous_spec long g x y))) \<and>
     (\<forall>x y. model_class env = SubstitutionModel \<and> gapmotif env = None \<longrightarrow>
        isInstantaneous env x y
          = (if 1 < ndiffs x y \<and> long then Inl TypeError else Inr (ndiffs x y = 1))) \<and>
     (\<forall>x y. model_class env = Codon \<longrightarrow>
        isInstantaneous env x y
          = Inr (if Some x = gapmotif env \<or> Some y = gapmotif env then x \<noteq> y
                 else ndiffs x y = 1)) \<and>
     (\<forall>g x y. model_class env = Codon \<and> gapmotif env = Some g \<and> long \<and>
        (x = g \<or> (length x = length g \<and> set x \<inter> set g = {})) \<and>
        (y = g \<or> (length y = length g \<and> set y \<inter> set g = {})) \<longrightarrow>
        isInstantaneous env x y = Inr (isInstantaneous_spec long g x y)) \<and>
     (\<forall>x. isInstantaneous env x x = Inr False) \<and>
     (\<forall>inst. predicate2matrix alph (isInstantaneous env) None = Inr inst \<longrightarrow>
        length inst = length alph \<and>
        (\<forall>i<length alph. length (inst ! i) = length alph \<and> inst ! i ! i = 0 \<and>
           (\<forall>j<length alph.
              inst ! i ! j = of_bool (isInstantaneous env (alph ! i) (alph ! j) = Inr True) \<and>
              isInstantaneous env (alph ! i) (alph ! j) = Inr (inst ! i ! j = 1))) \<and>
        sum_list (ravel inst)
          = int (length (filter (\<lambda>(i, j). isInstantaneous env (alph ! i) (alph ! j) = Inr True)
                           pairs))) \<and>
     (\<forall>g. model_class env = SubstitutionModel \<and> gapmotif env = Some g \<and>
        list_all (\<lambda>x. length x \<le> length g) alph \<longrightarrow>
        (\<exists>inst. predicate2matrix alph (isInstantaneous env) None = Inr inst \<and>
           (\<forall>i<length alph. \<forall>j<length alph.
              inst ! i ! j = of_bool (isInstantaneous_spec long g (alph ! i) (alph ! j))) \<and>
           sum_list (ravel inst)
             = int (length (filter (\<lambda>(i, j). ndiffs (alph ! i) (alph ! j) = 1) pairs))
             + int (length (filter (\<lambda>(i, j). ndiffs (alph ! i) (alph ! j) > 1 \<and> long \<and>
                     single_gap_run (zip g (zip (alph ! i) (alph ! j)))) pairs)))) \<and>
     (model_class env = Codon \<longrightarrow>
        (\<exists>inst. predicate2matrix alph (isInstantaneous env) None = Inr inst \<and>
           sum_list (ravel inst)
             = int (length (filter (\<lambda>(i, j). Some (alph ! i) \<noteq> gapmotif env \<and>
                     Some (alph ! j) \<noteq> gapmotif env \<and> ndiffs (alph ! i) (alph ! j) = 1) pairs))
             + int (length (filter (\<lambda>(i, j). (Some (alph ! i) = gapmotif env \<or>
                     Some (alph ! j) = gapmotif env) \<and> alph ! i \<noteq> alph ! j) pairs))))"
proof -
  let ?M = "length alph"
  have base: "isInstantaneous env x y
          = (if 1 < ndiffs x y \<and> long \<and> single_gap_run (zip g (zip x y)) \<and>
                length g < min (length x) (length y)
             then Inl IndexError
             else Inr (isInstantaneous_spec long g x y))"
    if "model_class env = SubstitutionModel" "gapmotif env = Some g" for g x y
    using isInstantaneous_base_any [OF that(2), of x y] that(1)
    by (simp add: isInstantaneous_def long_def)
  have nogap: "isInstantaneous env x y
          = (if 1 < ndiffs x y \<and> long then Inl TypeError else Inr (ndiffs x y = 1))"
    if "model_class env = SubstitutionModel" "gapmotif env = None" for x y
    using isInstantaneous_base_no_gapmotif [OF that(2), of x y] that(1)
    by (simp add: isInstantaneous_def long_def)
  have codon: "isInstantaneous env x y
          = Inr (if Some x = gapmotif env \<or> Some y = gapmotif env then x \<noteq> y
                 else ndiffs x y = 1)"
    if "model_class env = Codon" for x y
    using that by (simp add: isInstantaneous_def isInstantaneous_codon_def)
  have agree: "isInstantaneous env x y = Inr (isInstantaneous_spec long g x y)"
    if "model_class env = Codon" "gapmotif env = Some g" "long"
      "x = g \<or> (length x = length g \<and> set x \<inter> set g = {})"
      "y = g \<or> (length y = length g \<and> set y \<inter> set g = {})" for g x y
    using isInstantaneous_codon_gap_free [OF that(2,4,5)] that(1,3)
    by (simp add: isInstantaneous_def)
  have built: "length inst = length alph \<and>
        (\<forall>i<length alph. length (inst ! i) = length alph \<and> inst ! i ! i = 0 \<and>
           (\<forall>j<length alph.
              inst ! i ! j = of_bool (isInstantaneous env (alph ! i) (alph ! j) = Inr True) \<and>
              isInstantaneous env (alph ! i) (alph ! j) = Inr (inst ! i ! j = 1))) \<and>
        sum_list (ravel inst)
          = int (length (filter (\<lambda>(i, j). isInstantaneous env (alph ! i) (alph ! j) = Inr True)
                           pairs))"
    if p: "predicate2matrix alph (isInstantaneous env) None = Inr inst" for inst
  proof -
    note t = predicate2matrix_table [OF p]
    note sq = predicate2matrix_None_Inr(1) [OF p]
    have e: "inst ! i ! j = of_bool (isInstantaneous env (alph ! i) (alph ! j) = Inr True)"
      if "i < ?M" "j < ?M" for i j
      by (subst t(1)) (simp add: that)
    have s: "sum_list (ravel inst)
          = int (length (filter (\<lambda>(i, j). isInstantaneous env (alph ! i) (alph ! j) = Inr True)
                           pairs))"
      by (subst t(1)) (simp only: ravel_def sum_list_of_bool_concat pairs_def)
    have d: "inst ! i ! i = 0" if "i < ?M" for i
      using e [OF that that] by (simp add: isInstantaneous_same)
    from sq have l: "length inst = ?M" "\<And>i. i < ?M \<Longrightarrow> length (inst ! i) = ?M"
      by (simp_all add: square_def list_all_length)
    show ?thesis using l e t(2) s d by blast
  qed
  have base_mask: "\<exists>inst. predicate2matrix alph (isInstantaneous env) None = Inr inst \<and>
           (\<forall>i<length alph. \<forall>j<length alph.
              inst ! i ! j = of_bool (isInstantaneous_spec long g (alph ! i) (alph ! j))) \<and>
           sum_list (ravel inst)
             = int (length (filter (\<lambda>(i, j). ndiffs (alph ! i) (alph ! j) = 1) pairs))
             + int (length (filter (\<lambda>(i, j). ndiffs (alph ! i) (alph ! j) > 1 \<and> long \<and>
                     single_gap_run (zip g (zip (alph ! i) (alph ! j)))) pairs))"
    if cls: "model_class env = SubstitutionModel" and gm: "gapmotif env = Some g"
      and len: "list_all (\<lambda>x. length x \<le> length g) alph" for g
  proof -
    let ?p = "\<lambda>i j. isInstantaneous_spec long g (alph ! i) (alph ! j)"
    let ?inst = "map (\<lambda>i. map (\<lambda>j. of_bool (?p i j)) [0..<?M]) [0..<?M] :: int matrix"
    have pt: "isInstantaneous env (alph ! i) (alph ! j) = Inr (?p i j)"
      if "i < ?M" "j < ?M" for i j
    proof -
      have "length (alph ! i) \<le> length g" using that(1) len by (simp add: list_all_length)
      then have "\<not> length g < min (length (alph ! i)) (length (alph ! j))" by simp
      then show ?thesis using base [OF cls gm, of "alph ! i" "alph ! j"] by simp
    qed
    have p2m: "predicate2matrix alph (isInstantaneous env) None = Inr ?inst"
      by (rule predicate2matrix_total) (rule pt)
    let ?A = "\<lambda>(i, j). ndiffs (alph ! i) (alph ! j) = 1"
    let ?B = "\<lambda>(i, j). ndiffs (alph ! i) (alph ! j) > 1 \<and> long \<and>
                single_gap_run (zip g (zip (alph ! i) (alph ! j)))"
    have "(\<lambda>(i, j). ?p i j) = (\<lambda>x. ?A x \<or> ?B x)"
      by (auto simp: isInstantaneous_spec_def)
    moreover have "length (filter (\<lambda>x. ?A x \<or> ?B x) pairs)
        = length (filter ?A pairs) + length (filter ?B pairs)"
      by (rule length_filter_disj) auto
    ultimately have total: "sum_list (ravel ?inst)
        = int (length (filter ?A pairs)) + int (length (filter ?B pairs))"
      unfolding ravel_def sum_list_of_bool_concat pairs_def [symmetric] by simp
    show ?thesis using p2m total by (intro exI [of _ ?inst]) simp
  qed
  have codon_mask: "\<exists>inst. predicate2matrix alph (isInstantaneous env) None = Inr inst \<and>
           sum_list (ravel inst)
             = int (length (filter (\<lambda>(i, j). Some (alph ! i) \<noteq> gapmotif env \<and>
                     Some (alph ! j) \<noteq> gapmotif env \<and> ndiffs (alph ! i) (alph ! j) = 1) pairs))
             + int (length (filter (\<lambda>(i, j). (Some (alph ! i) = gapmotif env \<or>
                     Some (alph ! j) = gapmotif env) \<and> alph ! i \<noteq> alph ! j) pairs))"
    if cls: "model_class env = Codon"
  proof -
    let ?p = "\<lambda>i j. if Some (alph ! i) = gapmotif env \<or> Some (alph ! j) = gapmotif env
                     then alph ! i \<noteq> alph ! j else ndiffs (alph ! i) (alph ! j) = 1"
    let ?inst = "map (\<lambda>i. map (\<lambda>j. of_bool (?p i j)) [0..<?M]) [0..<?M] :: int matrix"
    have p2m: "predicate2matrix alph (isInstantaneous env) None = Inr ?inst"
      by (rule predicate2matrix_total) (simp add: codon [OF cls])
    let ?A = "\<lambda>(i, j). Some (alph ! i) \<noteq> gapmotif env \<and>
                     Some (alph ! j) \<noteq> gapmotif env \<and> ndiffs (alph ! i) (alph ! j) = 1"
    let ?B = "\<lambda>(i, j). (Some (alph ! i) = gapmotif env \<or>
                     Some (alph ! j) = gapmotif env) \<and> alph ! i \<noteq> alph ! j"
    have "(\<lambda>(i, j). ?p i j) = (\<lambda>x. ?A x \<or> ?B x)"
      by auto
    moreover have "length (filter (\<lambda>x. ?A x \<or> ?B x) pairs)
        = length (filter ?A pairs) + length (filter ?B pairs)"
      by (rule length_filter_disj) auto
    ultimately have total: "sum_list (ravel ?inst)
        = int (length (filter ?A pairs)) + int (length (filter ?B pairs))"
      unfolding ravel_def sum_list_of_bool_concat pairs_def [symmetric] by simp
    show ?thesis using p2m total by (intro exI [of _ ?inst]) simp
  qed
  show ?thesis
    apply (intro conjI allI impI)
    subgoal for g x y using base by blast
    subgoal for x y using nogap by blast
    subgoal for x y using codon by blast
    subgoal for g x y using agree by blast
    subgoal for x by (rule isInstantaneous_same)
    subgoal for inst using built by blast
    subgoal for inst i using built by blast
    subgoal for inst i using built by blast
    subgoal for inst i j using built by blast
    subgoal for inst i j using built by blast
    subgoal for inst using built by blast
    subgoal for g using base_mask by blast
    subgoal using codon_mask by blast
    done
qed

theorem isInstantaneous_single_difference_or_gap_run_witness:
  "isInstantaneous \<lparr>model_class = SubstitutionModel, gapmotif = Some ''--'',
       long_indels_are_instantaneous = True\<rparr> ''aa'' ''--'' = Inr True \<and>
   isInstantaneous \<lparr>model_class = SubstitutionModel, gapmotif = Some ''--'',
       long_indels_are_instantaneous = True\<rparr> ''a-'' ''-a'' = Inr False \<and>
   list_all (\<lambda>x. length x \<le> length ''--'') [''aa'', ''a-'', ''--''] \<and>
   (\<exists>inst. predicate2matrix [''aa'', ''a-'', ''--'']
        (isInstantaneous \<lparr>model_class = SubstitutionModel, gapmotif = Some ''--'',
           long_indels_are_instantaneous = True\<rparr>) None = Inr inst \<and>
      inst ! 0 ! 0 = 0 \<and> inst ! 0 ! 2 = 1) \<and>
   isInstantaneous \<lparr>model_class = SubstitutionModel, gapmotif = Some ''-'',
       long_indels_are_instantaneous = True\<rparr> ''--'' ''aa'' = Inl IndexError \<and>
   isInstantaneous \<lparr>model_class = SubstitutionModel, gapmotif = None,
       long_indels_are_instantaneous = True\<rparr> ''aa'' ''bb'' = Inl TypeError \<and>
   isInstantaneous \<lparr>model_class = Codon, gapmotif = Some ''---'',
       long_indels_are_instantaneous = True\<rparr> ''---'' ''aaa'' = Inr True \<and>
   isInstantaneous_spec True ''---'' ''---'' ''aaa'' \<and>
   isInstantaneous \<lparr>model_class = Codon, gapmotif = Some ''---'',
       long_indels_are_instantaneous = True\<rparr> ''aab'' ''abb'' = Inr True \<and>
   isInstantaneous \<lparr>model_class = Codon, gapmotif = Some ''---'',
       long_indels_are_instantaneous = True\<rparr> ''aab'' ''bba'' = Inr False \<and>
   (\<exists>inst. predicate2matrix [''aaa'', ''aab'', ''---'']
        (isInstantaneous \<lparr>model_class = Codon, gapmotif = Some ''---'',
           long_indels_are_instantaneous = True\<rparr>) None = Inr inst \<and>
      inst ! 0 ! 0 = 0 \<and> sum_list (ravel inst) = 6)"
proof -
  let ?E = "\<lparr>model_class = SubstitutionModel, gapmotif = Some ''--'',
       long_indels_are_instantaneous = True\<rparr>"
  let ?S = "\<lparr>model_class = SubstitutionModel, gapmotif = Some ''-'',
       long_indels_are_instantaneous = True\<rparr>"
  let ?N = "\<lparr>model_class = SubstitutionModel, gapmotif = None,
       long_indels_are_instantaneous = True\<rparr>"
  let ?C = "\<lparr>model_class = Codon, gapmotif = Some ''---'',
       long_indels_are_instantaneous = True\<rparr>"
  let ?A = "[''aa'', ''a-'', ''--'']"
  let ?B = "[''aaa'', ''aab'', ''---'']"
  note t = isInstantaneous_single_difference_or_gap_run [where env = ?E and alph = ?A]
  note base = t [THEN conjunct1, rule_format]
  note base_mask = t [THEN conjunct2, THEN conjunct2, THEN conjunct2, THEN conjunct2,
      THEN conjunct2, THEN conjunct2, THEN conjunct1, rule_format]
  have l: "list_all (\<lambda>x. length x \<le> length ''--'') ?A" by simp
  have a: "isInstantaneous ?E ''aa'' ''--'' = Inr True"
    using base [of "''--''" "''aa''" "''--''"]
    by (simp add: isInstantaneous_spec_def single_gap_run_def ndiffs_def)
  have b: "isInstantaneous ?E ''a-'' ''-a'' = Inr False"
    using base [of "''--''" "''a-''" "''-a''"]
    by (simp add: isInstantaneous_spec_def single_gap_run_def ndiffs_def)
  have "model_class ?E = SubstitutionModel \<and> gapmotif ?E = Some ''--'' \<and>
      list_all (\<lambda>x. length x \<le> length ''--'') ?A" by simp
  from base_mask [OF this] obtain inst where
    i: "predicate2matrix ?A (isInstantaneous ?E) None = Inr inst"
    and ie: "\<And>i j. i < length ?A \<Longrightarrow> j < length ?A \<Longrightarrow>
       inst ! i ! j = of_bool (isInstantaneous_spec (long_indels_are_instantaneous ?E) ''--''
         (?A ! i) (?A ! j))"
    by blast
  from ie [of 0 0] have i0: "inst ! 0 ! 0 = 0"
    by (simp add: isInstantaneous_spec_def single_gap_run_def ndiffs_def)
  from ie [of 0 2] have i2: "inst ! 0 ! 2 = 1"
    by (simp add: isInstantaneous_spec_def single_gap_run_def ndiffs_def)
  have m: "\<exists>inst. predicate2matrix ?A (isInstantaneous ?E) None = Inr inst \<and>
      inst ! 0 ! 0 = 0 \<and> inst ! 0 ! 2 = 1"
    using i i0 i2 by blast
  note short = isInstantaneous_single_difference_or_gap_run
    [where env = ?S and alph = "[]", THEN conjunct1, rule_format]
  have c: "isInstantaneous ?S ''--'' ''aa'' = Inl IndexError"
    using short [of "''-''" "''--''" "''aa''"]
    by (simp add: single_gap_run_def ndiffs_def)
  note nogap = isInstantaneous_single_difference_or_gap_run
    [where env = ?N and alph = "[]", THEN conjunct2, THEN conjunct1, rule_format]
  have d: "isInstantaneous ?N ''aa'' ''bb'' = Inl TypeError"
    using nogap [of "''aa''" "''bb''"] by (simp add: ndiffs_def)
  note u = isInstantaneous_single_difference_or_gap_run [where env = ?C and alph = ?B]
  note codon = u [THEN conjunct2, THEN conjunct2, THEN conjunct1, rule_format]
  note built = u [THEN conjunct2, THEN conjunct2, THEN conjunct2, THEN conjunct2,
      THEN conjunct2, THEN conjunct1, rule_format]
  note codon_mask = u [THEN conjunct2, THEN conjunct2, THEN conjunct2, THEN conjunct2,
      THEN conjunct2, THEN conjunct2, THEN conjunct2, rule_format]
  have e1: "isInstantaneous ?C ''---'' ''aaa'' = Inr True"
    using codon [of "''---''" "''aaa''"] by simp
  have e2: "isInstantaneous ?C ''aab'' ''abb'' = Inr True"
    using codon [of "''aab''" "''abb''"] by (simp add: ndiffs_def)
  have e3: "isInstantaneous ?C ''aab'' ''bba'' = Inr False"
    using codon [of "''aab''" "''bba''"] by (simp add: ndiffs_def)
  have f: "isInstantaneous_spec True ''---'' ''---'' ''aaa''"
    by (simp add: isInstantaneous_spec_def single_gap_run_def ndiffs_def)
  have "model_class ?C = Codon" by simp
  from codon_mask [OF this] obtain inst' where
    j: "predicate2matrix ?B (isInstantaneous ?C) None = Inr inst'"
    and s: "sum_list (ravel inst')
             = int (length (filter (\<lambda>(i, j). Some (?B ! i) \<noteq> gapmotif ?C \<and>
                     Some (?B ! j) \<noteq> gapmotif ?C \<and> ndiffs (?B ! i) (?B ! j) = 1)
                 (List.product [0..<length ?B] [0..<length ?B])))
             + int (length (filter (\<lambda>(i, j). (Some (?B ! i) = gapmotif ?C \<or>
                     Some (?B ! j) = gapmotif ?C) \<and> ?B ! i \<noteq> ?B ! j)
                 (List.product [0..<length ?B] [0..<length ?B])))"
    by blast
  have j0: "inst' ! 0 ! 0 = 0"
    using built [OF j] by simp
  from s have s6: "sum_list (ravel inst') = 6"
    by (simp add: ndiffs_def upt_conv_Cons)
  have n: "\<exists>inst. predicate2matrix ?B (isInstantaneous ?C) None = Inr inst \<and>
      inst ! 0 ! 0 = 0 \<and> sum_list (ravel inst) = 6"
    using j j0 s6 by blast
  show ?thesis
    apply (intro conjI)
    subgoal by (rule a)
    subgoal by (rule b)
    subgoal by (rule l)
    subgoal by (rule m)
    subgoal by (rule c)
    subgoal by (rule d)
    subgoal by (rule e1)
    subgoal by (rule f)
    subgoal by (rule e2)
    subgoal by (rule e3)
    subgoal by (rule n)
    done
qed

theorem codon_gap_run_counterexample:
  "model_class \<lparr>model_class = Codon, gapmotif = Some ''---'',
       long_indels_are_instantaneous = True\<rparr> = Codon \<and>
   isInstantaneous \<lparr>model_class = Codon, gapmotif = Some ''---'',
       long_indels_are_instantaneous = True\<rparr> ''a--'' ''aaa'' = Inr False \<and>
   ndiffs ''a--'' ''aaa'' = 2 \<and>
   single_gap_run (zip ''---'' (zip ''a--'' ''aaa'')) \<and>
   isInstantaneous_spec True ''---'' ''a--'' ''aaa''"
  by (simp add: isInstantaneous_def isInstantaneous_codon_def isInstantaneous_spec_def
      single_gap_run_def ndiffs_def)

section \<open>Construction: inversion and evaluation\<close>

lemma find_zero_mask:
  "find P xs = Some x \<Longrightarrow> x \<in> set xs \<and> P x"
  by (auto simp: find_Some_iff)

lemma SubstitutionModel_init_InrD:
  assumes "SubstitutionModel_init svd args = Inr (m, ws)"
  shows "\<exists>w1 w2.
    init_instantaneous args = Inr (instantaneous_mask m, instantaneous_mask_f m, w1) \<and>
    adaptPredicates (arg_alphabet args) (instantaneous_mask m)
        (rules_or_empty (arg_predicates args)) = Inr (predicate_masks m) \<and>
    checkPredicateMasks svd (arg_do_scaling args) (instantaneous_mask m) (predicate_masks m)
        = Inr w2 \<and>
    init_indices_loop (predicate_masks m) (isSymmetrical (instantaneous_mask_f m)) [] []
        = Inr (symmetric m, parameter_order m, predicate_indices m) \<and>
    init_monomer_indices args (instantaneous_mask_f m)
        = Inr (monomer_indices m, monomer_matrix_indices m) \<and>
    init_bins (arg_ordered_param args) (arg_partitioned_params args) (arg_with_rate args)
        (parameter_order m) = Inr (with_rate m, ordered_param m, partitioned_params m) \<and>
    ws = w1 @ w2 @ (if \<not> symmetric m then [ModelNotReversible] else []) \<and>
    alphabet m = arg_alphabet args \<and> mprobs_alphabet m = arg_motif_alphabet args \<and>
    do_scaling m = arg_do_scaling args \<and> self_env m = args_env args \<and>
    ident m = np_identity (length (arg_alphabet args))"
  using assms unfolding SubstitutionModel_init_def
  by (auto split: sum.splits prod.splits option.splits)


lemma two_state_inst:
  "init_instantaneous (two_state_args preds scaling)
     = Inr ([[0, 1], [1, 0]], [[0, 1], [1, 0]], [])"
  by (simp add: init_instantaneous_def two_state_args_def predicate2matrix_def
      predicate2matrix_entry_def isInstantaneous_def args_env_def isInstantaneous_base_def
      ndiffs_def upt_conv_Cons Let_def)

lemma two_state_always:
  "adaptPredicates [''a'', ''b''] [[0, 1], [1, 0]] (RulesDict [(''p'', pred_always)])
     = Inr [(''p'', [[0, 1], [1, 0]])]"
  by (simp add: adaptPredicates_def adaptPredicate_def predicate2matrix_def
      predicate2matrix_entry_def get2_def pred_always_def upt_conv_Cons Let_def)


lemma sqrt_16: "sqrt 16 = 4"
  using real_sqrt_abs [of 4] by simp

lemma tolerance_below_one: "(1::real) / 10 ^ 8 < 1"
  by simp

lemma sqrt_2_above_tolerance: "1 / 10 ^ 8 < sqrt 2"
proof -
  have "(1::real) < sqrt 2" by simp
  then show ?thesis using tolerance_below_one by linarith
qed

lemma redundancy_one_full_mask:
  "redundancyInPredicateMasks svd_two_rows [(k, [[0, 1], [1, 0]])] = 0"
  using sqrt_2_above_tolerance
  by (simp add: redundancyInPredicateMasks_def mask_equations_def ravel_def svd_two_rows_def
      dot_def)

lemma redundancy_two_full_masks:
  "redundancyInPredicateMasks svd_two_rows [(k, [[0, 1], [1, 0]]), (k', [[0, 1], [1, 0]])] = 1"
  by (simp add: redundancyInPredicateMasks_def mask_equations_def ravel_def svd_two_rows_def
      dot_def sqrt_16)

lemma redundancy_two_forward_masks:
  "redundancyInPredicateMasks svd_two_rows [(k, [[0, 1], [0, 0]]), (k', [[0, 1], [0, 0]])] = 1"
  using sqrt_2_above_tolerance
  by (simp add: redundancyInPredicateMasks_def mask_equations_def ravel_def svd_two_rows_def
      dot_def)

lemma init_instantaneous_warnings:
  "init_instantaneous args = Inr (i, f, w1) \<Longrightarrow> w1 = [] \<or> w1 = [EmpiricalModelWithParameters]"
  by (auto simp: init_instantaneous_def Let_def split: option.splits if_splits sum.splits)

lemma checkPredicateMasks_warnings:
  "checkPredicateMasks svd scaling i pm = Inr w2 \<Longrightarrow> w2 = [] \<or> w2 = [OverlyGeneralPredicates]"
  by (auto simp: checkPredicateMasks_def Let_def split: option.splits if_splits)

section \<open>Validation of the predicate masks\<close>

text \<open>
  Claim C3. \<^verbatim>\<open>checkPredicateMasks\<close> applies its rules in this order: (1) in both scaling
  modes an all-zero mask raises the always-false error, for a mask of the set; (2) with
  scaling, a mask equal to the instantaneous mask raises the always-true error, and
  without scaling that error is never raised; (3) otherwise a non-zero redundancy among
  the parameter masks raises the redundancy error in both modes; (4) otherwise a non-zero
  redundancy among the masks and the instantaneous mask raises the overall-rate error with
  scaling, and without scaling only logs a warning; otherwise nothing is raised. An error
  of the check ends the construction with that error, and a model that was constructed
  passed the check with just the warning the construction reports.
\<close>

theorem checkPredicateMasks_validation_order:
  fixes svd :: svd_routine and scaling :: bool and inst :: "int matrix"
    and pm :: "(string \<times> int matrix) list"
  defines "never \<equiv> list_ex (\<lambda>(n, m). all_zero m) pm"
    and "always \<equiv> list_ex (\<lambda>(n, m). all_equal m inst) pm"
    and "plus_scale \<equiv> map (\<lambda>(n, m). (Some n, m)) pm @ [(None, inst)]"
    and "check \<equiv> checkPredicateMasks svd scaling inst pm"
  shows
    "(never \<longrightarrow> (\<exists>n m. (n, m) \<in> set pm \<and> all_zero m \<and> check = Inl (PredicateAlwaysFalse n))) \<and>
     (\<not> never \<and> scaling \<and> always \<longrightarrow>
        (\<exists>n m. (n, m) \<in> set pm \<and> all_equal m inst \<and> check = Inl (PredicateAlwaysTrue n))) \<and>
     (\<not> scaling \<longrightarrow> (\<forall>n. check \<noteq> Inl (PredicateAlwaysTrue n))) \<and>
     (\<not> never \<and> \<not> (scaling \<and> always) \<and> redundancyInPredicateMasks svd pm \<noteq> 0 \<longrightarrow>
        check = Inl RedundancyInPredicates) \<and>
     (\<not> never \<and> \<not> (scaling \<and> always) \<and> redundancyInPredicateMasks svd pm = 0 \<and>
        redundancyInPredicateMasks svd plus_scale \<noteq> 0 \<longrightarrow>
        check = (if scaling then Inl EquivalentToOverallRate
                 else Inr [OverlyGeneralPredicates])) \<and>
     (\<not> never \<and> \<not> (scaling \<and> always) \<and> redundancyInPredicateMasks svd pm = 0 \<and>
        redundancyInPredicateMasks svd plus_scale = 0 \<longrightarrow> check = Inr []) \<and>
     (\<forall>args instf w1 e.
        init_instantaneous args = Inr (inst, instf, w1) \<and>
        adaptPredicates (arg_alphabet args) inst (rules_or_empty (arg_predicates args)) = Inr pm \<and>
        arg_do_scaling args = scaling \<and> check = Inl e \<longrightarrow>
        SubstitutionModel_init svd args = Inl e) \<and>
     (\<forall>args m ws.
        SubstitutionModel_init svd args = Inr (m, ws) \<longrightarrow>
        checkPredicateMasks svd (do_scaling m) (instantaneous_mask m) (predicate_masks m)
          = Inr (filter (\<lambda>w. w = OverlyGeneralPredicates) ws))"
proof -
  have nv: "never \<longleftrightarrow> find (\<lambda>(n, m). all_zero m) pm \<noteq> None"
    by (auto simp: never_def find_None_iff list_ex_iff)
  have al: "always \<longleftrightarrow> find (\<lambda>(n, m). all_equal m inst) pm \<noteq> None"
    by (auto simp: always_def find_None_iff list_ex_iff)
  have c1: "never \<longrightarrow> (\<exists>n m. (n, m) \<in> set pm \<and> all_zero m \<and> check = Inl (PredicateAlwaysFalse n))"
  proof
    assume never
    then obtain n m where f: "find (\<lambda>(n, m). all_zero m) pm = Some (n, m)"
      using nv by (cases "find (\<lambda>(n, m). all_zero m) pm") auto
    then have "(n, m) \<in> set pm \<and> all_zero m" using find_zero_mask [OF f] by simp
    moreover have "check = Inl (PredicateAlwaysFalse n)"
      using f by (simp add: check_def checkPredicateMasks_def)
    ultimately show "\<exists>n m. (n, m) \<in> set pm \<and> all_zero m \<and> check = Inl (PredicateAlwaysFalse n)"
      by blast
  qed
  have c2: "\<not> never \<and> scaling \<and> always \<longrightarrow>
        (\<exists>n m. (n, m) \<in> set pm \<and> all_equal m inst \<and> check = Inl (PredicateAlwaysTrue n))"
  proof
    assume a: "\<not> never \<and> scaling \<and> always"
    then obtain n m where f: "find (\<lambda>(n, m). all_equal m inst) pm = Some (n, m)"
      using al by (cases "find (\<lambda>(n, m). all_equal m inst) pm") auto
    then have "(n, m) \<in> set pm \<and> all_equal m inst" using find_zero_mask [OF f] by simp
    moreover have fz: "find (\<lambda>(n, m). all_zero m) pm = None"
      using a nv by blast
    have "check = Inl (PredicateAlwaysTrue n)"
      using a by (simp add: check_def checkPredicateMasks_def f fz)
    ultimately show "\<exists>n m. (n, m) \<in> set pm \<and> all_equal m inst \<and> check = Inl (PredicateAlwaysTrue n)"
      by blast
  qed
  have c3: "\<not> scaling \<longrightarrow> (\<forall>n. check \<noteq> Inl (PredicateAlwaysTrue n))"
    by (auto simp: check_def checkPredicateMasks_def Let_def split: option.splits)
  have rest: "\<not> never \<and> \<not> (scaling \<and> always) \<longrightarrow>
      check = (if redundancyInPredicateMasks svd pm \<noteq> 0 then Inl RedundancyInPredicates
               else if redundancyInPredicateMasks svd plus_scale \<noteq> 0
               then (if scaling then Inl EquivalentToOverallRate
                     else Inr [OverlyGeneralPredicates])
               else Inr [])"
  proof
    assume a: "\<not> never \<and> \<not> (scaling \<and> always)"
    have fz: "find (\<lambda>(n, m). all_zero m) pm = None"
      using a nv by blast
    have fa: "scaling \<Longrightarrow> find (\<lambda>(n, m). all_equal m inst) pm = None"
      using a al by blast
    show "check = (if redundancyInPredicateMasks svd pm \<noteq> 0 then Inl RedundancyInPredicates
               else if redundancyInPredicateMasks svd plus_scale \<noteq> 0
               then (if scaling then Inl EquivalentToOverallRate
                     else Inr [OverlyGeneralPredicates])
               else Inr [])"
      using fa by (simp add: check_def checkPredicateMasks_def Let_def plus_scale_def fz)
  qed
  have abort: "\<forall>args instf w1 e.
        init_instantaneous args = Inr (inst, instf, w1) \<and>
        adaptPredicates (arg_alphabet args) inst (rules_or_empty (arg_predicates args)) = Inr pm \<and>
        arg_do_scaling args = scaling \<and> check = Inl e \<longrightarrow>
        SubstitutionModel_init svd args = Inl e"
    by (auto simp: SubstitutionModel_init_def check_def)
  have warn: "\<forall>args m ws.
        SubstitutionModel_init svd args = Inr (m, ws) \<longrightarrow>
        checkPredicateMasks svd (do_scaling m) (instantaneous_mask m) (predicate_masks m)
          = Inr (filter (\<lambda>w. w = OverlyGeneralPredicates) ws)"
  proof (intro allI impI)
    fix args m ws
    assume "SubstitutionModel_init svd args = Inr (m, ws)"
    from SubstitutionModel_init_InrD [OF this] obtain w1 w2 where
      i: "init_instantaneous args = Inr (instantaneous_mask m, instantaneous_mask_f m, w1)"
      and c: "checkPredicateMasks svd (arg_do_scaling args) (instantaneous_mask m)
                (predicate_masks m) = Inr w2"
      and ws: "ws = w1 @ w2 @ (if \<not> symmetric m then [ModelNotReversible] else [])"
      and d: "do_scaling m = arg_do_scaling args"
      by blast
    from init_instantaneous_warnings [OF i] checkPredicateMasks_warnings [OF c]
    have "filter (\<lambda>w. w = OverlyGeneralPredicates) ws = w2"
      unfolding ws by auto
    then show "checkPredicateMasks svd (do_scaling m) (instantaneous_mask m) (predicate_masks m)
          = Inr (filter (\<lambda>w. w = OverlyGeneralPredicates) ws)"
      using c d by simp
  qed
  show ?thesis using c1 c2 c3 rest abort warn by simp
qed





lemma two_state_fields:
  "arg_class (two_state_args preds scaling) = SubstitutionModel"
  "arg_alphabet (two_state_args preds scaling) = [''a'', ''b'']"
  "arg_motif_alphabet (two_state_args preds scaling) = [''a'', ''b'']"
  "arg_use_monomer_probs (two_state_args preds scaling) = False"
  "arg_predicates (two_state_args preds scaling) = preds"
  "arg_scales (two_state_args preds scaling) = None"
  "arg_rate_matrix (two_state_args preds scaling) = None"
  "arg_do_scaling (two_state_args preds scaling) = scaling"
  "arg_motif_probs_error (two_state_args preds scaling) = None"
  "arg_with_rate (two_state_args preds scaling) = False"
  "arg_ordered_param (two_state_args preds scaling) = PNone"
  "arg_partitioned_params (two_state_args preds scaling) = PNone"
  "arg_distribution (two_state_args preds scaling) = DistNone"
  by (simp_all add: two_state_args_def)

lemma adaptPredicates_no_rules: "adaptPredicates a i (rules_or_empty None) = Inr []"
  by (simp add: adaptPredicates_def rules_or_empty_def)

lemma init_bins_none: "init_bins PNone PNone w names = Inr (w, [], [])"
  by (simp add: init_bins_def param_tuple_def)

lemma init_monomer_indices_unused:
  "\<not> arg_use_monomer_probs args \<Longrightarrow> init_monomer_indices args f = Inr (None, None)"
  by (simp add: init_monomer_indices_def)

lemma SubstitutionModel_init_InrI:
  assumes "init_instantaneous args = Inr (inst, inst_f, w1)"
    and "adaptPredicates (arg_alphabet args) inst (rules_or_empty (arg_predicates args)) = Inr masks"
    and "checkPredicateMasks svd (arg_do_scaling args) inst masks = Inr w2"
    and "init_indices_loop masks (isSymmetrical inst_f) [] [] = Inr (symm, names, inds)"
    and "adaptPredicates (arg_alphabet args) inst (rules_or_empty (arg_scales args)) = Inr sc"
    and "init_monomer_indices args inst_f = Inr (mi, mmi)"
    and "arg_motif_probs_error args = None"
    and "init_bins (arg_ordered_param args) (arg_partitioned_params args) (arg_with_rate args)
           names = Inr (wr, op, pp)"
    and "init_distribution (arg_distribution args) = Inr dc"
  shows "SubstitutionModel_init svd args =
    Inr (\<lparr> self_env = args_env args, alphabet = arg_alphabet args,
           mprobs_alphabet = arg_motif_alphabet args, do_scaling = arg_do_scaling args,
           instantaneous_mask = inst, instantaneous_mask_f = inst_f, symmetric = symm,
           predicate_masks = masks, parameter_order = names, predicate_indices = inds,
           scale_masks = sc, monomer_indices = mi, monomer_matrix_indices = mmi,
           position_specific_mprobs = arg_position_specific_mprobs args,
           with_rate = wr, ordered_param = op, partitioned_params = pp, distrib_class = dc,
           ident = np_identity (length (arg_alphabet args)) \<rparr>,
         w1 @ w2 @ (if \<not> symm then [ModelNotReversible] else []))"
  by (simp add: SubstitutionModel_init_def assms)

lemma two_state_always_init:
  "\<exists>m. SubstitutionModel_init svd_two_rows
         (two_state_args (Some (RulesDict [(''p'', pred_always)])) False)
       = Inr (m, [OverlyGeneralPredicates])"
proof -
  let ?args = "two_state_args (Some (RulesDict [(''p'', pred_always)])) False"
  have c: "checkPredicateMasks svd_two_rows (arg_do_scaling ?args) [[0, 1], [1, 0]]
      [(''p'', [[0, 1], [1, 0]])] = Inr [OverlyGeneralPredicates]"
    by (simp add: checkPredicateMasks_def all_zero_def ravel_def redundancy_one_full_mask
        redundancy_two_full_masks two_state_fields)
  have r: "adaptPredicates (arg_alphabet ?args) [[0, 1], [1, 0]]
      (rules_or_empty (arg_predicates ?args)) = Inr [(''p'', [[0, 1], [1, 0]])]"
    by (simp add: rules_or_empty_def two_state_fields two_state_always)
  have l: "init_indices_loop [(''p'', [[0, 1], [1, 0]])] (isSymmetrical [[0, 1], [1, 0 :: real]]) [] []
      = Inr (True, [''p''], [[1, 2]])"
    by (simp add: isSymmetrical_def np_transpose_def nonzero_def ravel_def upt_conv_Cons)
  have s: "adaptPredicates (arg_alphabet ?args) [[0, 1], [1, 0]]
      (rules_or_empty (arg_scales ?args)) = Inr []"
    by (simp add: two_state_fields adaptPredicates_no_rules)
  have m: "init_monomer_indices ?args [[0, 1], [1, 0]] = Inr (None, None)"
    by (simp add: init_monomer_indices_unused two_state_fields)
  have b: "init_bins (arg_ordered_param ?args) (arg_partitioned_params ?args)
      (arg_with_rate ?args) [''p''] = Inr (False, [], [])"
    by (simp add: two_state_fields init_bins_none)
  have d: "init_distribution (arg_distribution ?args) = Inr MonotonicDefn"
    by (simp add: two_state_fields init_distribution_def)
  show ?thesis
    using SubstitutionModel_init_InrI [OF two_state_inst r c l s m _ b d]
    by (simp add: two_state_fields)
qed


theorem checkPredicateMasks_validation_order_witness:
  "checkPredicateMasks svd_two_rows True [[0, 1], [1, 0]] [(''p'', [[0, 0], [0, 0]])]
     = Inl (PredicateAlwaysFalse ''p'') \<and>
   checkPredicateMasks svd_two_rows True [[0, 1], [1, 0]] [(''p'', [[0, 1], [1, 0]])]
     = Inl (PredicateAlwaysTrue ''p'') \<and>
   checkPredicateMasks svd_two_rows True [[0, 1], [1, 0]]
       [(''p'', [[0, 1], [0, 0]]), (''q'', [[0, 1], [0, 0]])]
     = Inl RedundancyInPredicates \<and>
   checkPredicateMasks svd_two_rows False [[0, 1], [1, 0]] [(''p'', [[0, 1], [1, 0]])]
     = Inr [OverlyGeneralPredicates] \<and>
   (\<exists>m. SubstitutionModel_init svd_two_rows
          (two_state_args (Some (RulesDict [(''p'', pred_always)])) False)
        = Inr (m, [OverlyGeneralPredicates]))"
proof -
  let ?I = "[[0, 1], [1, 0]] :: int matrix"
  have w1: "checkPredicateMasks svd_two_rows True ?I [(''p'', [[0, 0], [0, 0]])]
     = Inl (PredicateAlwaysFalse ''p'')"
    using checkPredicateMasks_validation_order
      [where pm = "[(''p'', [[0, 0], [0, 0]])]" and inst = ?I and svd = svd_two_rows
         and scaling = True]
    by (simp add: all_zero_def ravel_def)
  have w2: "checkPredicateMasks svd_two_rows True ?I [(''p'', ?I)] = Inl (PredicateAlwaysTrue ''p'')"
    using checkPredicateMasks_validation_order
      [where pm = "[(''p'', ?I)]" and inst = ?I and svd = svd_two_rows and scaling = True]
    by (simp add: all_zero_def all_equal_def ravel_def)
  have w3: "checkPredicateMasks svd_two_rows True ?I
       [(''p'', [[0, 1], [0, 0]]), (''q'', [[0, 1], [0, 0]])] = Inl RedundancyInPredicates"
    using checkPredicateMasks_validation_order
      [where pm = "[(''p'', [[0, 1], [0, 0]]), (''q'', [[0, 1], [0, 0]])]" and inst = ?I
         and svd = svd_two_rows and scaling = True]
    by (simp add: all_zero_def all_equal_def ravel_def redundancy_two_forward_masks)
  have w4: "checkPredicateMasks svd_two_rows False ?I [(''p'', ?I)] = Inr [OverlyGeneralPredicates]"
    using checkPredicateMasks_validation_order
      [where pm = "[(''p'', ?I)]" and inst = ?I and svd = svd_two_rows and scaling = False]
    by (simp add: all_zero_def all_equal_def ravel_def redundancy_one_full_mask
        redundancy_two_full_masks)
  show ?thesis using w1 w2 w3 w4 two_state_always_init by blast
qed

lemma squareD: "square n m \<Longrightarrow> i < n \<Longrightarrow> length (m ! i) = n"
  by (simp add: square_def list_all_length)

lemma square_length: "square n m \<Longrightarrow> length m = n"
  by (simp add: square_def)

lemma square_table: "square n (map (\<lambda>i. map (f i) [0..<n]) [0..<n])"
  by (simp add: square_def list_all_iff)

lemma isInstantaneous_diagonal: "isInstantaneous env x x = Inr b \<Longrightarrow> \<not> b"
  by (auto simp: isInstantaneous_def isInstantaneous_base_def isInstantaneous_codon_def
      ndiffs_same Let_def split: klass.splits if_splits)

lemma init_instantaneous_shape:
  assumes "init_instantaneous args = Inr (inst, f, w)"
  shows "square (length (arg_alphabet args)) inst"
    and "square (length (arg_alphabet args)) f"
    and "f = map (map real_of_int) inst \<or> arg_rate_matrix args = Some f"
    and "i < length (arg_alphabet args) \<Longrightarrow> j < length (arg_alphabet args) \<Longrightarrow>
           (inst ! i ! j \<noteq> 0) = (f ! i ! j \<noteq> 0)"
    and "i < length (arg_alphabet args) \<Longrightarrow> f ! i ! i = 0"
proof -
  let ?M = "length (arg_alphabet args)"
  show "square ?M inst" "square ?M f"
    "f = map (map real_of_int) inst \<or> arg_rate_matrix args = Some f"
    using assms predicate2matrix_None_Inr(1) [of "arg_alphabet args" "isInstantaneous (args_env args)"]
    by (auto simp: init_instantaneous_def Let_def square_def list_all_iff
        split: option.splits if_splits sum.splits)
  show "(inst ! i ! j \<noteq> 0) = (f ! i ! j \<noteq> 0)" if "i < ?M" "j < ?M"
  proof (cases "arg_rate_matrix args")
    case None
    then obtain inst' where p: "predicate2matrix (arg_alphabet args) (isInstantaneous (args_env args)) None = Inr inst'"
      and e: "inst = inst'" "f = map (map real_of_int) inst'"
      using assms by (auto simp: init_instantaneous_def Let_def split: sum.splits)
    from predicate2matrix_None_Inr(1) [OF p] that show ?thesis
      by (simp add: e square_def list_all_length)
  next
    case (Some rm)
    then show ?thesis using assms that
      by (auto simp: init_instantaneous_def Let_def list_all_length split: if_splits)
  qed
  show "f ! i ! i = 0" if "i < ?M"
  proof (cases "arg_rate_matrix args")
    case None
    then obtain inst' where p: "predicate2matrix (arg_alphabet args) (isInstantaneous (args_env args)) None = Inr inst'"
      and e: "inst = inst'" "f = map (map real_of_int) inst'"
      using assms by (auto simp: init_instantaneous_def Let_def split: sum.splits)
    from predicate2matrix_None_Inr(2) [OF p that that]
    obtain b where "isInstantaneous (args_env args) (arg_alphabet args ! i) (arg_alphabet args ! i) = Inr b"
      and "inst' ! i ! i = of_bool b"
      by (cases "isInstantaneous (args_env args) (arg_alphabet args ! i) (arg_alphabet args ! i)") auto
    then have "inst' ! i ! i = 0" using isInstantaneous_diagonal by fastforce
    with predicate2matrix_None_Inr(1) [OF p] that show ?thesis
      by (simp add: e square_def list_all_length)
  next
    case (Some rm)
    then show ?thesis using assms that
      by (auto simp: init_instantaneous_def Let_def list_all_length split: if_splits)
  qed
qed

lemma adaptPredicate_square:
  assumes "square (length a) inst"
  shows "adaptPredicate a inst p key = Inr (rule_label (key, p), masked_table a inst p)"
proof -
  have e: "predicate2matrix_entry a (\<lambda>x y. Inr (pred_func p x y)) (Some inst) i j
      = Inr (if inst ! i ! j \<noteq> 0 then of_bool (pred_func p (a ! i) (a ! j)) else 0)"
    if "i < length a" "j < length a" for i j
    using that assms by (simp add: predicate2matrix_entry_def get2_def squareD square_length)
  have "predicate2matrix a (\<lambda>x y. Inr (pred_func p x y)) (Some inst) = Inr (masked_table a inst p)"
    unfolding predicate2matrix_def Let_def masked_table_def
    by (rule traverse_total, rule traverse_total) (simp add: e)
  then show ?thesis
    by (simp add: adaptPredicate_def rule_label_def Let_def split: option.splits)
qed

lemma adaptPredicates_loop_distinct:
  assumes "square (length a) inst"
  shows "distinct (map fst acc @ map rule_label items) \<Longrightarrow>
    adaptPredicates_loop a inst items acc
      = Inr (acc @ map (\<lambda>it. (rule_label it, masked_table a inst (snd it))) items)"
proof (induction items arbitrary: acc)
  case Nil
  then show ?case by simp
next
  case (Cons it items)
  obtain key p where it: "it = (key, p)" by (cases it)
  have "distinct (map fst (acc @ [(rule_label it, masked_table a inst p)]) @ map rule_label items)"
    using Cons.prems by auto
  from Cons.IH [OF this] Cons.prems show ?case
    by (simp add: it adaptPredicate_square [OF assms])
qed

lemma adaptPredicates_loop_duplicate:
  assumes "square (length a) inst"
  shows "distinct (map fst acc) \<Longrightarrow> \<not> distinct (map fst acc @ map rule_label items) \<Longrightarrow>
    \<exists>l. adaptPredicates_loop a inst items acc = Inl (DuplicatePredicateName l) \<and>
        l \<in> set (map rule_label items)"
proof (induction items arbitrary: acc)
  case Nil
  then show ?case by simp
next
  case (Cons it items)
  obtain key p where it: "it = (key, p)" by (cases it)
  show ?case
  proof (cases "rule_label it \<in> set (map fst acc)")
    case True
    then show ?thesis by (simp add: it adaptPredicate_square [OF assms])
  next
    case False
    let ?acc = "acc @ [(rule_label it, masked_table a inst p)]"
    have d: "distinct (map fst ?acc)" using False Cons.prems(1) by simp
    have n: "\<not> distinct (map fst ?acc @ map rule_label items)" using Cons.prems(2) by simp
    from Cons.IH [OF d n] False show ?thesis
      by (auto simp: it adaptPredicate_square [OF assms])
  qed
qed

lemma adaptPredicates_items:
  "adaptPredicates a inst rs = adaptPredicates_loop a inst (rule_items rs) []"
  by (simp add: adaptPredicates_def rule_items_def)

section \<open>Duplicate predicate names\<close>

text \<open>
  Claim C10. \<^verbatim>\<open>_adaptPredicates\<close> resolves each rule to a label (its name, or the
  \<^verbatim>\<open>repr\<close> of the predicate when it has none). When two rules resolve to one label it
  raises the duplicate-name error, for a label of the rules, and otherwise returns one
  mask for each rule; a construction that reaches the adaptation of such rules ends with
  that error whatever the masks are, since \<^verbatim>\<open>checkPredicateMasks\<close> comes after.
\<close>

theorem adaptPredicates_duplicate_label:
  fixes rs :: rules and a :: "motif list" and inst :: "int matrix"
  defines "labels \<equiv> map rule_label (rule_items rs)"
  shows
    "(square (length a) inst \<longrightarrow>
        (distinct labels \<longrightarrow>
           adaptPredicates a inst rs
             = Inr (map (\<lambda>it. (rule_label it, masked_table a inst (snd it))) (rule_items rs))) \<and>
        (\<not> distinct labels \<longrightarrow>
           (\<exists>l. l \<in> set labels \<and> adaptPredicates a inst rs = Inl (DuplicatePredicateName l)))) \<and>
     (\<forall>svd args f w.
        init_instantaneous args = Inr (inst, f, w) \<and> arg_alphabet args = a \<and>
        rules_or_empty (arg_predicates args) = rs \<and> \<not> distinct labels \<longrightarrow>
        (\<exists>l. l \<in> set labels \<and> SubstitutionModel_init svd args = Inl (DuplicatePredicateName l)))"
proof (intro conjI impI allI)
  assume "square (length a) inst" "distinct labels"
  then show "adaptPredicates a inst rs
      = Inr (map (\<lambda>it. (rule_label it, masked_table a inst (snd it))) (rule_items rs))"
    using adaptPredicates_loop_distinct [of a inst "[]" "rule_items rs"]
    by (simp add: adaptPredicates_items labels_def)
next
  assume "square (length a) inst" "\<not> distinct labels"
  then show "\<exists>l. l \<in> set labels \<and> adaptPredicates a inst rs = Inl (DuplicatePredicateName l)"
    using adaptPredicates_loop_duplicate [of a inst "[]" "rule_items rs"]
    by (auto simp: adaptPredicates_items labels_def)
next
  fix svd args f w
  assume h: "init_instantaneous args = Inr (inst, f, w) \<and> arg_alphabet args = a \<and>
        rules_or_empty (arg_predicates args) = rs \<and> \<not> distinct labels"
  then have "square (length a) inst" using init_instantaneous_shape(1) by blast
  then obtain l where "l \<in> set labels" "adaptPredicates a inst rs = Inl (DuplicatePredicateName l)"
    using h adaptPredicates_loop_duplicate [of a inst "[]" "rule_items rs"]
    by (auto simp: adaptPredicates_items labels_def)
  then show "\<exists>l. l \<in> set labels \<and> SubstitutionModel_init svd args = Inl (DuplicatePredicateName l)"
    using h by (auto simp: SubstitutionModel_init_def)
qed

theorem adaptPredicates_duplicate_label_witness:
  "\<not> distinct (map rule_label (rule_items (RulesList [pred_never, pred_never]))) \<and>
   SubstitutionModel_init svd_two_rows
       (two_state_args (Some (RulesList [pred_never, pred_never])) True)
     = Inl (DuplicatePredicateName ''never'') \<and>
   square (length [''a'', ''b'']) ([[0, 1], [1, 0]] :: int matrix) \<and>
   adaptPredicates [''a'', ''b''] [[0, 1], [1, 0]]
       (RulesDict [([], pred_never), (''never'', pred_always)])
     = Inl (DuplicatePredicateName ''never'') \<and>
   adaptPredicates [''a'', ''b''] [[0, 1], [1, 0]]
       (RulesDict [(''p'', pred_always), (''q'', pred_never)])
     = Inr [(''p'', [[0, 1], [1, 0]]), (''q'', [[0, 0], [0, 0]])]"
proof -
  let ?I = "[[0, 1], [1, 0]] :: int matrix"
  let ?rs = "RulesList [pred_never, pred_never]"
  have sq: "square (length [''a'', ''b'']) ?I" by (simp add: square_def)
  have nd: "\<not> distinct (map rule_label (rule_items ?rs))"
    by (simp add: rule_items_def rule_label_def)
  have r: "rules_or_empty (arg_predicates (two_state_args (Some ?rs) True)) = ?rs"
    by (simp add: two_state_fields rules_or_empty_def)
  from adaptPredicates_duplicate_label [of "[''a'', ''b'']" ?I ?rs] nd r
    two_state_inst [of "Some ?rs" True]
  have "\<exists>l. l \<in> set (map rule_label (rule_items ?rs)) \<and>
      SubstitutionModel_init svd_two_rows (two_state_args (Some ?rs) True)
        = Inl (DuplicatePredicateName l)"
    by (simp add: two_state_fields)
  then have i: "SubstitutionModel_init svd_two_rows (two_state_args (Some ?rs) True)
        = Inl (DuplicatePredicateName ''never'')"
    by (auto simp: rule_items_def rule_label_def pred_never_def)
  let ?rd = "RulesDict [([], pred_never), (''never'', pred_always)]"
  from adaptPredicates_duplicate_label [of "[''a'', ''b'']" ?I ?rd] sq
  have "\<exists>l. l \<in> set (map rule_label (rule_items ?rd)) \<and>
      adaptPredicates [''a'', ''b''] ?I ?rd = Inl (DuplicatePredicateName l)"
    by (simp add: rule_items_def rule_label_def pred_never_def)
  then have d: "adaptPredicates [''a'', ''b''] ?I ?rd = Inl (DuplicatePredicateName ''never'')"
    by (auto simp: rule_items_def rule_label_def pred_never_def)
  let ?ro = "RulesDict [(''p'', pred_always), (''q'', pred_never)]"
  from adaptPredicates_duplicate_label [of "[''a'', ''b'']" ?I ?ro] sq
  have o: "adaptPredicates [''a'', ''b''] ?I ?ro
      = Inr [(''p'', [[0, 1], [1, 0]]), (''q'', [[0, 0], [0, 0]])]"
    by (simp add: rule_items_def rule_label_def masked_table_def pred_always_def pred_never_def
        upt_conv_Cons)
  show ?thesis using nd i sq d o by blast
qed

lemma list_ex_inter: "list_ex (\<lambda>p. p \<in> set ys) xs \<longleftrightarrow> set xs \<inter> set ys \<noteq> {}"
  by (auto simp: list_ex_iff)

lemma init_bins_no_ordered:
  "param_tuple ordered = [] \<Longrightarrow> param_tuple partitioned \<noteq> [] \<Longrightarrow>
   init_bins ordered partitioned wr names = Inl AssertionError"
  by (simp add: init_bins_def Let_def)

lemma init_bins_Inr:
  assumes "init_bins ordered partitioned wr names = Inr (wr', op, pp)"
  shows "op = param_tuple ordered"
    and "wr' = (wr \<or> ''rate'' \<in> set op)"
    and "op \<noteq> [] \<Longrightarrow> set pp = set op \<union> set (param_tuple partitioned) \<and> distinct pp"
    and "pp \<noteq> [] \<Longrightarrow> op \<noteq> [] \<and> set pp \<inter> set (''rate'' # names) \<noteq> {}"
  using assms
  by (auto simp: init_bins_def Let_def list_ex_iff split: if_splits)

section \<open>Partitioned and ordered parameters\<close>

text \<open>
  Claim C9. With a non-empty \<^verbatim>\<open>partitioned_params\<close> and no \<^verbatim>\<open>ordered_param\<close> the
  BINS section fails its assertion, and so does every construction with such arguments.
  With an ordered parameter, the section fails when no partitioned or ordered name is
  \<^verbatim>\<open>rate\<close> or a rate parameter of the model; otherwise the partitioned set it stores is
  the ordered names together with the partitioned ones. A constructed model has the
  ordered names among its partitioned ones, and a non-empty partitioned set of it meets
  the rate parameters plus \<^verbatim>\<open>rate\<close>.
\<close>

theorem init_bins_partitioned_needs_ordered:
  fixes ordered partitioned :: param_arg and wr :: bool and names :: "string list"
  defines "op \<equiv> param_tuple ordered" and "pa \<equiv> param_tuple partitioned"
  shows
    "(op = [] \<and> pa \<noteq> [] \<longrightarrow> init_bins ordered partitioned wr names = Inl AssertionError) \<and>
     (\<forall>svd args.
        param_tuple (arg_ordered_param args) = [] \<and>
        param_tuple (arg_partitioned_params args) \<noteq> [] \<longrightarrow>
        (\<exists>e. SubstitutionModel_init svd args = Inl e)) \<and>
     (op \<noteq> [] \<and> (set op \<union> set pa) \<inter> set (''rate'' # names) = {} \<longrightarrow>
        init_bins ordered partitioned wr names = Inl AssertionError) \<and>
     (op \<noteq> [] \<and> (set op \<union> set pa) \<inter> set (''rate'' # names) \<noteq> {} \<longrightarrow>
        (\<exists>pp. init_bins ordered partitioned wr names = Inr (wr \<or> ''rate'' \<in> set op, op, pp) \<and>
              set pp = set op \<union> set pa \<and> distinct pp)) \<and>
     (\<forall>svd args m ws.
        SubstitutionModel_init svd args = Inr (m, ws) \<longrightarrow>
        ordered_param m = param_tuple (arg_ordered_param args) \<and>
        (ordered_param m \<noteq> [] \<longrightarrow>
           set (partitioned_params m)
             = set (ordered_param m) \<union> set (param_tuple (arg_partitioned_params args))) \<and>
        (partitioned_params m \<noteq> [] \<longrightarrow>
           ordered_param m \<noteq> [] \<and>
           set (partitioned_params m) \<inter> set (''rate'' # parameter_order m) \<noteq> {}))"
proof (intro conjI allI impI)
  assume "op = [] \<and> pa \<noteq> []"
  then show "init_bins ordered partitioned wr names = Inl AssertionError"
    by (simp add: init_bins_no_ordered op_def pa_def)
next
  fix svd :: svd_routine and args :: init_args
  assume "param_tuple (arg_ordered_param args) = [] \<and>
        param_tuple (arg_partitioned_params args) \<noteq> []"
  then have "init_bins (arg_ordered_param args) (arg_partitioned_params args) (arg_with_rate args) ns
      = Inl AssertionError" for ns
    by (simp add: init_bins_no_ordered)
  then show "\<exists>e. SubstitutionModel_init svd args = Inl e"
    unfolding SubstitutionModel_init_def
    by (simp split: sum.splits prod.splits option.splits)
next
  assume "op \<noteq> [] \<and> (set op \<union> set pa) \<inter> set (''rate'' # names) = {}"
  then show "init_bins ordered partitioned wr names = Inl AssertionError"
    by (auto simp: init_bins_def Let_def list_ex_iff op_def pa_def)
next
  assume a: "op \<noteq> [] \<and> (set op \<union> set pa) \<inter> set (''rate'' # names) \<noteq> {}"
  then have "init_bins ordered partitioned wr names
      = Inr (wr \<or> ''rate'' \<in> set op, op, remdups (op @ pa))"
    unfolding init_bins_def Let_def op_def [symmetric] pa_def [symmetric] list_ex_inter
    by auto
  then show "\<exists>pp. init_bins ordered partitioned wr names = Inr (wr \<or> ''rate'' \<in> set op, op, pp) \<and>
              set pp = set op \<union> set pa \<and> distinct pp"
    by simp
next
  fix svd :: svd_routine and args :: init_args and m :: model and ws :: "warning list"
  assume "SubstitutionModel_init svd args = Inr (m, ws)"
  from SubstitutionModel_init_InrD [OF this] have
    b: "init_bins (arg_ordered_param args) (arg_partitioned_params args) (arg_with_rate args)
        (parameter_order m) = Inr (with_rate m, ordered_param m, partitioned_params m)"
    by blast
  show "ordered_param m = param_tuple (arg_ordered_param args)"
    using init_bins_Inr(1) [OF b] .
  show "set (partitioned_params m)
      = set (ordered_param m) \<union> set (param_tuple (arg_partitioned_params args))"
    if "ordered_param m \<noteq> []"
    using init_bins_Inr(3) [OF b that] by simp
  show "ordered_param m \<noteq> []" if "partitioned_params m \<noteq> []"
    using init_bins_Inr(4) [OF b that] by simp
  show "set (partitioned_params m) \<inter> set (''rate'' # parameter_order m) \<noteq> {}"
    if "partitioned_params m \<noteq> []"
    using init_bins_Inr(4) [OF b that] by simp
qed

theorem init_bins_partitioned_needs_ordered_witness:
  "init_bins PNone (PSeq [''kappa'']) False [''kappa''] = Inl AssertionError \<and>
   init_bins (PSeq []) (PStr ''kappa'') False [''kappa''] = Inl AssertionError \<and>
   (\<exists>e. SubstitutionModel_init svd_two_rows
          ((two_state_args None True) \<lparr> arg_partitioned_params := PSeq [''kappa''] \<rparr>) = Inl e) \<and>
   init_bins (PStr ''omega'') (PSeq [''beta'']) False [''kappa''] = Inl AssertionError \<and>
   (\<exists>pp. init_bins (PStr ''kappa'') (PSeq [''rate'']) False [''kappa'']
           = Inr (False, [''kappa''], pp) \<and> set pp = {''kappa'', ''rate''} \<and> distinct pp)"
proof -
  note t = init_bins_partitioned_needs_ordered
  have "init_bins PNone (PSeq [''kappa'']) False [''kappa''] = Inl AssertionError"
    using t [of PNone "PSeq [''kappa'']" False "[''kappa'']"] by (simp add: param_tuple_def)
  moreover have "init_bins (PSeq []) (PStr ''kappa'') False [''kappa''] = Inl AssertionError"
    using t [of "PSeq []" "PStr ''kappa''" False "[''kappa'']"] by (simp add: param_tuple_def)
  moreover have "\<exists>e. SubstitutionModel_init svd_two_rows
          ((two_state_args None True) \<lparr> arg_partitioned_params := PSeq [''kappa''] \<rparr>) = Inl e"
    using t [of PNone PNone False "[]"]
    by (simp add: param_tuple_def two_state_args_def)
  moreover have "init_bins (PStr ''omega'') (PSeq [''beta'']) False [''kappa''] = Inl AssertionError"
    using t [of "PStr ''omega''" "PSeq [''beta'']" False "[''kappa'']"]
    by (simp add: param_tuple_def)
  moreover have "\<exists>pp. init_bins (PStr ''kappa'') (PSeq [''rate'']) False [''kappa'']
           = Inr (False, [''kappa''], pp) \<and> set pp = {''kappa'', ''rate''} \<and> distinct pp"
    using t [of "PStr ''kappa''" "PSeq [''rate'']" False "[''kappa'']"]
    by (simp add: param_tuple_def insert_commute)
  ultimately show ?thesis by blast
qed

lemma init_indices_loop_Inr:
  "init_indices_loop pm s0 n0 i0 = Inr (s, ns, inds) \<Longrightarrow>
   s = (s0 \<and> list_all (\<lambda>(n, mk). isSymmetrical mk) pm) \<and>
   ns = n0 @ map fst pm \<and>
   inds = i0 @ map (\<lambda>(n, mk). nonzero (ravel mk)) pm \<and>
   list_all (\<lambda>(n, mk). list_all (\<lambda>k. ravel mk ! k = 1) (nonzero (ravel mk))) pm"
proof (induction pm arbitrary: s0 n0 i0)
  case Nil
  then show ?case by simp
next
  case (Cons p pm)
  obtain n mk where p: "p = (n, mk)" by (cases p)
  from Cons.prems have ok: "list_all (\<lambda>k. ravel mk ! k = 1) (nonzero (ravel mk))"
    and r: "init_indices_loop pm (if \<not> isSymmetrical mk then False else s0) (n0 @ [n])
              (i0 @ [nonzero (ravel mk)]) = Inr (s, ns, inds)"
    by (auto simp: p Let_def split: if_splits)
  from Cons.IH [OF r] ok show ?case by (auto simp: p)
qed

lemma isSymmetrical_square:
  "square n mt \<Longrightarrow> isSymmetrical mt = (\<forall>i<n. \<forall>j<n. mt ! i ! j = mt ! j ! i)"
  by (auto simp: isSymmetrical_def np_transpose_def square_def list_all_iff)

lemma sqrt_5_le: "sqrt 5 \<le> 5 / 2"
  by (rule real_le_lsqrt) (simp_all add: power2_eq_square)

lemma sqrt_quarter: "sqrt (1 / 4) = 1 / 2"
  by (simp add: real_sqrt_divide)

lemma above_tolerance: "1 / 2 \<le> x \<Longrightarrow> 1 < \<bar>x\<bar> * (100000000 :: real)"
  by arith

lemma redundancy_forward_plus:
  "redundancyInPredicateMasks svd_two_rows [(k, [[0, 1], [0, 0]]), (k', [[0, 1], [1, 0]])] = 0"
proof -
  have "1 / 4 \<le> (3 - sqrt 5) / 2" using sqrt_5_le by simp
  then have "sqrt (1 / 4) \<le> sqrt ((3 - sqrt 5) / 2)"
    by (rule real_sqrt_le_mono)
  then have "1 / 2 \<le> sqrt ((3 - sqrt 5) / 2)"
    unfolding sqrt_quarter .
  then have lo: "1 < \<bar>sqrt ((3 - sqrt 5) / 2)\<bar> * 100000000"
    by (rule above_tolerance)
  have "1 / 4 \<le> (3 + sqrt 5) / 2" using real_sqrt_ge_zero [of 5] by simp
  then have "sqrt (1 / 4) \<le> sqrt ((3 + sqrt 5) / 2)"
    by (rule real_sqrt_le_mono)
  then have "1 / 2 \<le> sqrt ((3 + sqrt 5) / 2)"
    unfolding sqrt_quarter .
  then have hi: "1 < \<bar>sqrt ((3 + sqrt 5) / 2)\<bar> * 100000000"
    by (rule above_tolerance)
  show ?thesis using lo hi
    by (simp add: redundancyInPredicateMasks_def mask_equations_def ravel_def svd_two_rows_def
        dot_def Let_def)
qed

lemma redundancy_one_forward_mask:
  "redundancyInPredicateMasks svd_two_rows [(k, [[0, 1], [0, 0]])] = 0"
  by (simp add: redundancyInPredicateMasks_def mask_equations_def ravel_def svd_two_rows_def
      dot_def)

lemma two_state_forward_init:
  "\<exists>m. SubstitutionModel_init svd_two_rows
         (two_state_args (Some (RulesDict [(''f'', pred_forward)])) True)
       = Inr (m, [ModelNotReversible]) \<and> \<not> symmetric m \<and>
       instantaneous_mask_f m = [[0, 1], [1, 0]] \<and>
       predicate_masks m = [(''f'', [[0, 1], [0, 0]])]"
proof -
  let ?args = "two_state_args (Some (RulesDict [(''f'', pred_forward)])) True"
  let ?I = "[[0, 1], [1, 0]] :: int matrix"
  let ?F = "[[0, 1], [0, 0]] :: int matrix"
  have r: "adaptPredicates (arg_alphabet ?args) ?I (rules_or_empty (arg_predicates ?args))
      = Inr [(''f'', ?F)]"
    by (simp add: rules_or_empty_def two_state_fields adaptPredicates_def adaptPredicate_def
        predicate2matrix_def predicate2matrix_entry_def get2_def pred_forward_def
        upt_conv_Cons Let_def)
  have c: "checkPredicateMasks svd_two_rows (arg_do_scaling ?args) ?I [(''f'', ?F)] = Inr []"
    by (simp add: checkPredicateMasks_def all_zero_def all_equal_def ravel_def
        redundancy_one_forward_mask redundancy_forward_plus two_state_fields)
  have l: "init_indices_loop [(''f'', ?F)] (isSymmetrical [[0, 1], [1, 0 :: real]]) [] []
      = Inr (False, [''f''], [[1]])"
    by (simp add: isSymmetrical_def np_transpose_def nonzero_def ravel_def upt_conv_Cons)
  have s: "adaptPredicates (arg_alphabet ?args) ?I (rules_or_empty (arg_scales ?args)) = Inr []"
    by (simp add: two_state_fields adaptPredicates_no_rules)
  have m: "init_monomer_indices ?args [[0, 1], [1, 0]] = Inr (None, None)"
    by (simp add: init_monomer_indices_unused two_state_fields)
  have b: "init_bins (arg_ordered_param ?args) (arg_partitioned_params ?args)
      (arg_with_rate ?args) [''f''] = Inr (False, [], [])"
    by (simp add: two_state_fields init_bins_none)
  have d: "init_distribution (arg_distribution ?args) = Inr MonotonicDefn"
    by (simp add: two_state_fields init_distribution_def)
  show ?thesis
    using SubstitutionModel_init_InrI [OF two_state_inst r c l s m _ b d]
    by (simp add: two_state_fields)
qed

lemma two_state_plain_init:
  "\<exists>m. SubstitutionModel_init svd_two_rows (two_state_args None True) = Inr (m, []) \<and>
       symmetric m \<and> instantaneous_mask_f m = [[0, 1], [1, 0]] \<and> predicate_masks m = []"
proof -
  let ?args = "two_state_args None True"
  let ?I = "[[0, 1], [1, 0]] :: int matrix"
  have r: "adaptPredicates (arg_alphabet ?args) ?I (rules_or_empty (arg_predicates ?args)) = Inr []"
    by (simp add: two_state_fields adaptPredicates_no_rules)
  have c: "checkPredicateMasks svd_two_rows (arg_do_scaling ?args) ?I [] = Inr []"
    by (simp add: checkPredicateMasks_def redundancy_one_full_mask two_state_fields)
       (simp add: redundancyInPredicateMasks_def)
  have l: "init_indices_loop [] (isSymmetrical [[0, 1], [1, 0 :: real]]) [] [] = Inr (True, [], [])"
    by (simp add: isSymmetrical_def np_transpose_def upt_conv_Cons)
  have s: "adaptPredicates (arg_alphabet ?args) ?I (rules_or_empty (arg_scales ?args)) = Inr []"
    by (simp add: two_state_fields adaptPredicates_no_rules)
  have m: "init_monomer_indices ?args [[0, 1], [1, 0]] = Inr (None, None)"
    by (simp add: init_monomer_indices_unused two_state_fields)
  have b: "init_bins (arg_ordered_param ?args) (arg_partitioned_params ?args)
      (arg_with_rate ?args) [] = Inr (False, [], [])"
    by (simp add: two_state_fields init_bins_none)
  have d: "init_distribution (arg_distribution ?args) = Inr MonotonicDefn"
    by (simp add: two_state_fields init_distribution_def)
  show ?thesis
    using SubstitutionModel_init_InrI [OF two_state_inst r c l s m _ b d]
    by (simp add: two_state_fields)
qed

lemma init_predicate_masks_square:
  assumes "SubstitutionModel_init svd args = Inr (m, ws)"
  shows "square (length (alphabet m)) (instantaneous_mask m)"
    and "square (length (alphabet m)) (instantaneous_mask_f m)"
    and "predicate_masks m
           = map (\<lambda>it. (rule_label it, masked_table (alphabet m) (instantaneous_mask m) (snd it)))
               (rule_items (rules_or_empty (arg_predicates args)))"
    and "distinct (map fst (predicate_masks m))"
proof -
  from SubstitutionModel_init_InrD [OF assms] obtain w1 where
    i: "init_instantaneous args = Inr (instantaneous_mask m, instantaneous_mask_f m, w1)"
    and a: "adaptPredicates (arg_alphabet args) (instantaneous_mask m)
        (rules_or_empty (arg_predicates args)) = Inr (predicate_masks m)"
    and al: "alphabet m = arg_alphabet args"
    by blast
  show sq: "square (length (alphabet m)) (instantaneous_mask m)"
    and "square (length (alphabet m)) (instantaneous_mask_f m)"
    using init_instantaneous_shape(1,2) [OF i] by (simp_all add: al)
  let ?items = "rule_items (rules_or_empty (arg_predicates args))"
  have d: "distinct (map rule_label ?items)"
  proof (rule ccontr)
    assume "\<not> distinct (map rule_label ?items)"
    from adaptPredicates_loop_duplicate [OF sq [unfolded al], of "[]" ?items] this a
    show False by (simp add: adaptPredicates_items)
  qed
  from adaptPredicates_loop_distinct [OF sq [unfolded al], of "[]" ?items] d a
  show p: "predicate_masks m
      = map (\<lambda>it. (rule_label it, masked_table (alphabet m) (instantaneous_mask m) (snd it))) ?items"
    by (simp add: adaptPredicates_items al)
  show "distinct (map fst (predicate_masks m))"
    using d by (simp add: p comp_def)
qed

lemma empirical_fields:
  "arg_class empirical_args = SubstitutionModel"
  "arg_alphabet empirical_args = [''a'', ''b'']"
  "arg_motif_alphabet empirical_args = [''a'', ''b'']"
  "arg_use_monomer_probs empirical_args = False"
  "arg_predicates empirical_args = None"
  "arg_scales empirical_args = None"
  "arg_rate_matrix empirical_args = Some [[0, 2], [3, 0]]"
  "arg_do_scaling empirical_args = True"
  "arg_motif_probs_error empirical_args = None"
  "arg_with_rate empirical_args = False"
  "arg_ordered_param empirical_args = PNone"
  "arg_partitioned_params empirical_args = PNone"
  "arg_distribution empirical_args = DistNone"
  "arg_position_specific_mprobs empirical_args = False"
  "args_env empirical_args = \<lparr> model_class = SubstitutionModel, gapmotif = Some ''-'',
                    long_indels_are_instantaneous = True \<rparr>"
  by (simp_all add: empirical_args_def two_state_args_def args_env_def)

lemma empirical_init:
  "SubstitutionModel_init svd_two_rows empirical_args = Inr (empirical_model, [ModelNotReversible])"
proof -
  let ?args = "empirical_args"
  let ?I = "[[0, 1], [1, 0]] :: int matrix"
  have i: "init_instantaneous ?args = Inr (?I, [[0, 2], [3, 0]], [])"
    by (simp add: init_instantaneous_def empirical_fields rules_truthy_def upt_conv_Cons)
  have r: "adaptPredicates (arg_alphabet ?args) ?I (rules_or_empty (arg_predicates ?args)) = Inr []"
    by (simp add: empirical_fields adaptPredicates_no_rules)
  have c: "checkPredicateMasks svd_two_rows (arg_do_scaling ?args) ?I [] = Inr []"
    by (simp add: checkPredicateMasks_def redundancy_one_full_mask empirical_fields)
       (simp add: redundancyInPredicateMasks_def)
  have l: "init_indices_loop [] (isSymmetrical [[0, 2], [3, 0 :: real]]) [] [] = Inr (False, [], [])"
    by (simp add: isSymmetrical_def np_transpose_def upt_conv_Cons)
  have s: "adaptPredicates (arg_alphabet ?args) ?I (rules_or_empty (arg_scales ?args)) = Inr []"
    by (simp add: empirical_fields adaptPredicates_no_rules)
  have m: "init_monomer_indices ?args [[0, 2], [3, 0]] = Inr (None, None)"
    by (simp add: init_monomer_indices_unused empirical_fields)
  have b: "init_bins (arg_ordered_param ?args) (arg_partitioned_params ?args)
      (arg_with_rate ?args) [] = Inr (False, [], [])"
    by (simp add: empirical_fields init_bins_none)
  have d: "init_distribution (arg_distribution ?args) = Inr MonotonicDefn"
    by (simp add: empirical_fields init_distribution_def)
  show ?thesis
    using SubstitutionModel_init_InrI [OF i r c l s m _ b d]
    by (simp add: empirical_fields empirical_model_def np_identity_def upt_conv_Cons)
qed

lemma isSymmetrical_of_int:
  assumes "square n inst"
  shows "isSymmetrical (map (map real_of_int) inst) = isSymmetrical inst"
proof -
  have sq: "square n (map (map real_of_int) inst)"
    using assms by (simp add: square_def list_all_length)
  have e: "map (map real_of_int) inst ! i ! j = real_of_int (inst ! i ! j)"
    if "i < n" "j < n" for i j
    using assms that by (simp add: square_def list_all_length)
  show ?thesis
    unfolding isSymmetrical_square [OF sq] isSymmetrical_square [OF assms]
    by (simp add: e)
qed

lemma init_instantaneous_sources:
  assumes "init_instantaneous args = Inr (inst, f, w)"
  shows "arg_rate_matrix args = None \<Longrightarrow> f = map (map real_of_int) inst"
    and "arg_rate_matrix args = Some r \<Longrightarrow>
           f = r \<and> inst = map (map (\<lambda>v. if v \<noteq> 0 then 1 else 0)) r"
  using assms by (auto simp: init_instantaneous_def Let_def split: sum.splits if_splits)

section \<open>The symmetry flag\<close>

text \<open>
  Claim C8, amended. The flag \<^verbatim>\<open>symmetric\<close> of a constructed model is true exactly when
  the float instantaneous matrix and every predicate mask equal their transposes. The
  float instantaneous matrix is the 0/1 instantaneous mask as floats when the model is
  built from its predicate, and then it is symmetric exactly when the instantaneous mask
  is; it is the rate matrix itself when the model is empirical, the instantaneous mask
  being the pattern of its non-zero entries. The construction warns that the model is
  not reversible exactly when the flag is false, and still returns the model; one
  asymmetric predicate mask in the set makes the flag false.
\<close>

theorem symmetric_flag_of_constructed_model:
  assumes "SubstitutionModel_init svd args = Inr (m, ws)"
  shows "symmetric m
           = (isSymmetrical (instantaneous_mask_f m) \<and>
              list_all (\<lambda>(n, mk). isSymmetrical mk) (predicate_masks m)) \<and>
         isSymmetrical (instantaneous_mask_f m)
           = (\<forall>i<length (alphabet m). \<forall>j<length (alphabet m).
                instantaneous_mask_f m ! i ! j = instantaneous_mask_f m ! j ! i) \<and>
         (arg_rate_matrix args = None \<longrightarrow>
            instantaneous_mask_f m = map (map real_of_int) (instantaneous_mask m) \<and>
            symmetric m
              = (isSymmetrical (instantaneous_mask m) \<and>
                 list_all (\<lambda>(n, mk). isSymmetrical mk) (predicate_masks m))) \<and>
         (\<forall>r. arg_rate_matrix args = Some r \<longrightarrow>
            instantaneous_mask_f m = r \<and>
            instantaneous_mask m = map (map (\<lambda>v. if v \<noteq> 0 then 1 else 0)) r \<and>
            symmetric m
              = (isSymmetrical r \<and>
                 list_all (\<lambda>(n, mk). isSymmetrical mk) (predicate_masks m))) \<and>
         (ModelNotReversible \<in> set ws) = (\<not> symmetric m) \<and>
         (list_ex (\<lambda>(n, mk). \<not> isSymmetrical mk) (predicate_masks m)
           \<longrightarrow> \<not> symmetric m \<and> ModelNotReversible \<in> set ws)"
proof -
  from SubstitutionModel_init_InrD [OF assms] obtain w1 w2 where
    i: "init_instantaneous args = Inr (instantaneous_mask m, instantaneous_mask_f m, w1)"
    and c: "checkPredicateMasks svd (arg_do_scaling args) (instantaneous_mask m)
        (predicate_masks m) = Inr w2"
    and l: "init_indices_loop (predicate_masks m) (isSymmetrical (instantaneous_mask_f m)) [] []
        = Inr (symmetric m, parameter_order m, predicate_indices m)"
    and ws: "ws = w1 @ w2 @ (if \<not> symmetric m then [ModelNotReversible] else [])"
    by blast
  have s: "symmetric m
           = (isSymmetrical (instantaneous_mask_f m) \<and>
              list_all (\<lambda>(n, mk). isSymmetrical mk) (predicate_masks m))"
    using init_indices_loop_Inr [OF l] by simp
  have t: "isSymmetrical (instantaneous_mask_f m)
           = (\<forall>i<length (alphabet m). \<forall>j<length (alphabet m).
                instantaneous_mask_f m ! i ! j = instantaneous_mask_f m ! j ! i)"
    using isSymmetrical_square [OF init_predicate_masks_square(2) [OF assms]] .
  have n: "instantaneous_mask_f m = map (map real_of_int) (instantaneous_mask m) \<and>
      symmetric m
        = (isSymmetrical (instantaneous_mask m) \<and>
           list_all (\<lambda>(n, mk). isSymmetrical mk) (predicate_masks m))"
    if "arg_rate_matrix args = None"
  proof -
    have f: "instantaneous_mask_f m = map (map real_of_int) (instantaneous_mask m)"
      using init_instantaneous_sources(1) [OF i that] .
    show ?thesis
      using s f isSymmetrical_of_int [OF init_predicate_masks_square(1) [OF assms]] by simp
  qed
  have e: "instantaneous_mask_f m = r \<and>
      instantaneous_mask m = map (map (\<lambda>v. if v \<noteq> 0 then 1 else 0)) r \<and>
      symmetric m
        = (isSymmetrical r \<and> list_all (\<lambda>(n, mk). isSymmetrical mk) (predicate_masks m))"
    if "arg_rate_matrix args = Some r" for r
    using init_instantaneous_sources(2) [OF i that] s by simp
  have w: "(ModelNotReversible \<in> set ws) = (\<not> symmetric m)"
    using init_instantaneous_warnings [OF i] checkPredicateMasks_warnings [OF c]
    unfolding ws by auto
  have x: "list_ex (\<lambda>(n, mk). \<not> isSymmetrical mk) (predicate_masks m)
           \<longrightarrow> \<not> symmetric m \<and> ModelNotReversible \<in> set ws"
    unfolding w s by (auto simp: list_ex_iff list_all_iff)
  from s t n e w x show ?thesis by (intro conjI impI allI) blast+
qed

theorem symmetric_flag_of_constructed_model_witness:
  "(\<exists>m. SubstitutionModel_init svd_two_rows
          (two_state_args (Some (RulesDict [(''f'', pred_forward)])) True)
        = Inr (m, [ModelNotReversible]) \<and> \<not> symmetric m \<and>
        list_ex (\<lambda>(n, mk). \<not> isSymmetrical mk) (predicate_masks m)) \<and>
   (\<exists>m. SubstitutionModel_init svd_two_rows (two_state_args None True) = Inr (m, []) \<and>
        arg_rate_matrix (two_state_args None True) = None \<and>
        symmetric m \<and> isSymmetrical (instantaneous_mask_f m) \<and>
        isSymmetrical (instantaneous_mask m)) \<and>
   SubstitutionModel_init svd_two_rows empirical_args
     = Inr (empirical_model, [ModelNotReversible]) \<and>
   arg_rate_matrix empirical_args = Some [[0, 2], [3, 0]] \<and>
   instantaneous_mask_f empirical_model = [[0, 2], [3, 0]] \<and>
   instantaneous_mask empirical_model = [[0, 1], [1, 0]] \<and>
   \<not> isSymmetrical [[0, 2], [3, 0 :: real]] \<and>
   \<not> symmetric empirical_model"
proof -
  obtain m where m: "SubstitutionModel_init svd_two_rows
          (two_state_args (Some (RulesDict [(''f'', pred_forward)])) True)
        = Inr (m, [ModelNotReversible])"
    and pm: "predicate_masks m = [(''f'', [[0, 1], [0, 0]])]"
    using two_state_forward_init by blast
  have ex: "list_ex (\<lambda>(n, mk). \<not> isSymmetrical mk) (predicate_masks m)"
    by (simp add: pm isSymmetrical_def np_transpose_def upt_conv_Cons)
  from symmetric_flag_of_constructed_model [OF m] ex have "\<not> symmetric m" by blast
  with m ex have a: "\<exists>m. SubstitutionModel_init svd_two_rows
          (two_state_args (Some (RulesDict [(''f'', pred_forward)])) True)
        = Inr (m, [ModelNotReversible]) \<and> \<not> symmetric m \<and>
        list_ex (\<lambda>(n, mk). \<not> isSymmetrical mk) (predicate_masks m)"
    by blast
  obtain m' where m': "SubstitutionModel_init svd_two_rows (two_state_args None True) = Inr (m', [])"
    using two_state_plain_init by blast
  have none: "arg_rate_matrix (two_state_args None True) = None"
    by (simp add: two_state_fields)
  note t = symmetric_flag_of_constructed_model [OF m']
  from t have s: "symmetric m'" by (elim conjE) simp
  with t have f: "isSymmetrical (instantaneous_mask_f m')" by blast
  from t none s have g: "isSymmetrical (instantaneous_mask m')" by blast
  from m' none s f g have b: "\<exists>m. SubstitutionModel_init svd_two_rows (two_state_args None True)
        = Inr (m, []) \<and>
        arg_rate_matrix (two_state_args None True) = None \<and>
        symmetric m \<and> isSymmetrical (instantaneous_mask_f m) \<and>
        isSymmetrical (instantaneous_mask m)"
    by blast
  have r: "arg_rate_matrix empirical_args = Some [[0, 2], [3, 0]]"
    by (simp add: empirical_fields)
  have ns: "\<not> isSymmetrical [[0, 2], [3, 0 :: real]]"
    by (simp add: isSymmetrical_def np_transpose_def upt_conv_Cons)
  note u = symmetric_flag_of_constructed_model [OF empirical_init]
  from u r have c: "instantaneous_mask_f empirical_model = [[0, 2], [3, 0]] \<and>
      instantaneous_mask empirical_model = [[0, 1], [1, 0]]" by simp
  from u r ns have d: "\<not> symmetric empirical_model" by blast
  show ?thesis using a b empirical_init r c ns d by blast
qed

theorem asymmetric_rate_matrix_counterexample:
  "SubstitutionModel_init svd_two_rows empirical_args
     = Inr (empirical_model, [ModelNotReversible]) \<and>
   instantaneous_mask empirical_model = [[0, 1], [1, 0]] \<and>
   np_transpose 2 (instantaneous_mask empirical_model) = instantaneous_mask empirical_model \<and>
   isSymmetrical (instantaneous_mask empirical_model) \<and>
   predicate_masks empirical_model = [] \<and>
   \<not> symmetric empirical_model"
  using empirical_init
  by (simp add: empirical_model_def isSymmetrical_def np_transpose_def upt_conv_Cons)

lemma concat_square_length:
  "\<forall>r \<in> set rows. length r = n \<Longrightarrow> length (concat rows) = length rows * n"
  by (induction rows) auto

lemma concat_square_nth:
  "\<forall>r \<in> set rows. length r = n \<Longrightarrow> i < length rows \<Longrightarrow> j < n \<Longrightarrow>
   concat rows ! (i * n + j) = rows ! i ! j"
proof (induction rows arbitrary: i)
  case Nil
  then show ?case by simp
next
  case (Cons r rows)
  show ?case
  proof (cases i)
    case 0
    then show ?thesis using Cons.prems by (simp add: nth_append)
  next
    case (Suc i')
    then have "concat rows ! (i' * n + j) = rows ! i' ! j"
      using Cons.IH [of i'] Cons.prems by simp
    then show ?thesis using Suc Cons.prems by (simp add: nth_append)
  qed
qed

lemma ravel_square_length: "square n a \<Longrightarrow> length (ravel a) = n * n"
  using concat_square_length [of a n] by (simp add: ravel_def square_def list_all_iff)

lemma ravel_square_nth:
  "square n a \<Longrightarrow> i < n \<Longrightarrow> j < n \<Longrightarrow> ravel a ! (i * n + j) = a ! i ! j"
  using concat_square_nth [of a n i j] by (simp add: ravel_def square_def list_all_iff)

lemma ncols_square: "square n a \<Longrightarrow> ncols a = n"
  by (cases a) (auto simp: ncols_def square_def)

lemma flat_index:
  fixes n :: nat
  assumes "k < n * n"
  shows "k div n < n" and "k mod n < n" and "k div n * n + k mod n = k"
proof -
  have n: "0 < n" using assms by (cases n) auto
  show "k mod n < n" using n by simp
  show "k div n < n" using assms n by (simp add: less_mult_imp_div_less)
  show "k div n * n + k mod n = k" by simp
qed

lemma flat_index_unique:
  fixes n :: nat
  assumes "i < n" "j < n"
  shows "(i * n + j) div n = i" and "(i * n + j) mod n = j"
  using assms by simp_all

lemma nonzero_iff: "k \<in> set (nonzero a) \<longleftrightarrow> k < length a \<and> a ! k \<noteq> 0"
  by (auto simp: nonzero_def)

lemma np_put_square:
  assumes "square n a" and "\<forall>k \<in> set ks. k < n * n"
  shows "\<exists>b. np_put a ks v = Inr b \<and> square n b \<and>
    (\<forall>i<n. \<forall>j<n. b ! i ! j = (if i * n + j \<in> set ks then v else a ! i ! j))"
  using assms
proof (induction ks arbitrary: a)
  case Nil
  then show ?case by simp
next
  case (Cons k ks)
  let ?a = "a[k div n := (a ! (k div n))[k mod n := v]]"
  have k: "k < n * n" using Cons.prems(2) by simp
  note fi = flat_index [OF k]
  have sq: "square n ?a"
    using Cons.prems(1) fi(1) by (auto simp: square_def list_all_length nth_list_update)
  have e: "?a ! i ! j = (if i * n + j = k then v else a ! i ! j)" if "i < n" "j < n" for i j
  proof (cases "i * n + j = k")
    case True
    then have "i = k div n" "j = k mod n" using flat_index_unique [OF that] by auto
    then show ?thesis using True that Cons.prems(1)
      by (simp add: square_def list_all_length)
  next
    case False
    then have ne: "\<not> (i = k div n \<and> j = k mod n)" using fi(3) by auto
    have la: "length a = n" using Cons.prems(1) by (simp add: square_def)
    show ?thesis
    proof (cases "i = k div n")
      case True
      then have "j \<noteq> k mod n" using ne by simp
      then show ?thesis using True False that la by simp
    next
      case f: False
      then show ?thesis using False by simp
    qed
  qed
  from Cons.IH [OF sq] Cons.prems(2) obtain b where
    b: "np_put ?a ks v = Inr b" "square n b"
    "\<forall>i<n. \<forall>j<n. b ! i ! j = (if i * n + j \<in> set ks then v else ?a ! i ! j)"
    by auto
  have "np_put a (k # ks) v = Inr b"
    using b(1) k Cons.prems(1) by (simp add: ravel_square_length ncols_square)
  moreover have "\<forall>i<n. \<forall>j<n. b ! i ! j = (if i * n + j \<in> set (k # ks) then v else a ! i ! j)"
    using b(3) e by auto
  ultimately show ?case using b(2) by blast
qed

lemma flat_index_bound:
  fixes n :: nat
  assumes "i < n" "j < n"
  shows "i * n + j < n * n"
proof -
  have "i * n + j < i * n + n" using assms by simp
  also have "\<dots> = Suc i * n" by simp
  also have "\<dots> \<le> n * n" using assms(1) by (simp only: mult_le_mono1 Suc_leI)
  finally show ?thesis .
qed

lemma np_put_nonzero:
  assumes "square n work" and "square n mk"
  shows "\<exists>b. np_put work (nonzero (ravel mk)) par = Inr b \<and> square n b \<and>
    (\<forall>i<n. \<forall>j<n. b ! i ! j = (if mk ! i ! j \<noteq> 0 then par else work ! i ! j))"
proof -
  have r: "\<forall>k \<in> set (nonzero (ravel mk)). k < n * n"
    using assms(2) by (simp add: nonzero_iff ravel_square_length)
  have m: "(i * n + j \<in> set (nonzero (ravel mk))) = (mk ! i ! j \<noteq> 0)" if "i < n" "j < n" for i j
    using that assms(2) flat_index_bound [OF that]
    by (simp add: nonzero_iff ravel_square_length ravel_square_nth)
  from np_put_square [OF assms(1) r, of par] m show ?thesis by auto
qed

lemma np_mult_square:
  assumes "square n a" and "square n b"
  shows "square n (np_mult a b)"
    and "i < n \<Longrightarrow> j < n \<Longrightarrow> np_mult a b ! i ! j = a ! i ! j * b ! i ! j"
  using assms by (auto simp: np_mult_def square_def list_all_length)

lemma np_ones_square:
  assumes "square n a"
  shows "square n (np_ones a)" and "i < n \<Longrightarrow> j < n \<Longrightarrow> np_ones a ! i ! j = 1"
  using assms by (auto simp: np_ones_def square_def list_all_length)

lemma calcRateMatrix_loop_product:
  assumes "list_all (\<lambda>(mk, par). square n mk) mps"
  shows "square n F \<Longrightarrow> square n work \<Longrightarrow> (\<forall>i<n. \<forall>j<n. work ! i ! j = 1) \<Longrightarrow>
    \<exists>F'. calcRateMatrix_loop (map (\<lambda>(mk, par). (nonzero (ravel mk), par)) mps) F work = Inr F' \<and>
      square n F' \<and>
      (\<forall>i<n. \<forall>j<n. F' ! i ! j
          = F ! i ! j * prod_list (map (\<lambda>(mk, par). if mk ! i ! j \<noteq> 0 then par else 1) mps))"
  using assms
proof (induction mps arbitrary: F work)
  case Nil
  then show ?case by simp
next
  case (Cons mp mps)
  obtain mk par where mp: "mp = (mk, par)" by (cases mp)
  have sq: "square n mk" and rest: "list_all (\<lambda>(mk, par). square n mk) mps"
    using Cons.prems(4) by (simp_all add: mp)
  from np_put_nonzero [OF Cons.prems(2) sq, of par] obtain b where
    b: "np_put work (nonzero (ravel mk)) par = Inr b" "square n b"
    "\<forall>i<n. \<forall>j<n. b ! i ! j = (if mk ! i ! j \<noteq> 0 then par else work ! i ! j)"
    by blast
  note mu = np_mult_square [OF Cons.prems(1) b(2)]
  note on = np_ones_square [OF b(2)]
  from Cons.IH [OF mu(1) on(1) _ rest] on(2) obtain F' where
    f: "calcRateMatrix_loop (map (\<lambda>(mk, par). (nonzero (ravel mk), par)) mps)
          (np_mult F b) (np_ones b) = Inr F'" "square n F'"
    "\<forall>i<n. \<forall>j<n. F' ! i ! j
        = np_mult F b ! i ! j * prod_list (map (\<lambda>(mk, par). if mk ! i ! j \<noteq> 0 then par else 1) mps)"
    by blast
  have "calcRateMatrix_loop (map (\<lambda>(mk, par). (nonzero (ravel mk), par)) (mp # mps)) F work = Inr F'"
    using b(1) f(1) by (simp add: mp)
  moreover have "\<forall>i<n. \<forall>j<n. F' ! i ! j
      = F ! i ! j * prod_list (map (\<lambda>(mk, par). if mk ! i ! j \<noteq> 0 then par else 1) (mp # mps))"
    using f(3) mu(2) b(3) Cons.prems(3) by (simp add: mp)
  ultimately show ?case using f(2) by blast
qed

lemma prod_list_identity_filter:
  "prod_list (map (\<lambda>(x, par). if P x then par else (1::real)) xs)
     = prod_list (map snd (filter (\<lambda>(x, par). P x) xs))"
  by (induction xs) auto

lemma masked_table_square: "square (length a) (masked_table a inst p)"
  unfolding masked_table_def by (rule square_table)

lemma init_model_tables:
  assumes "SubstitutionModel_init svd args = Inr (m, ws)"
  shows "list_all (\<lambda>(n, mk). square (length (alphabet m)) mk) (predicate_masks m)"
    and "predicate_indices m = map (\<lambda>(n, mk). nonzero (ravel mk)) (predicate_masks m)"
    and "parameter_order m = map fst (predicate_masks m)"
    and "i < length (alphabet m) \<Longrightarrow> instantaneous_mask_f m ! i ! i = 0"
proof -
  from SubstitutionModel_init_InrD [OF assms] obtain w1 where
    i: "init_instantaneous args = Inr (instantaneous_mask m, instantaneous_mask_f m, w1)"
    and l: "init_indices_loop (predicate_masks m) (isSymmetrical (instantaneous_mask_f m)) [] []
        = Inr (symmetric m, parameter_order m, predicate_indices m)"
    and al: "alphabet m = arg_alphabet args"
    by blast
  show "list_all (\<lambda>(n, mk). square (length (alphabet m)) mk) (predicate_masks m)"
    unfolding init_predicate_masks_square(3) [OF assms]
    by (simp add: list_all_iff masked_table_square)
  show "predicate_indices m = map (\<lambda>(n, mk). nonzero (ravel mk)) (predicate_masks m)"
    and "parameter_order m = map fst (predicate_masks m)"
    using init_indices_loop_Inr [OF l] by simp_all
  show "instantaneous_mask_f m ! i ! i = 0" if "i < length (alphabet m)"
    using init_instantaneous_shape(5) [OF i] that by (simp add: al)
qed

lemma calcRateMatrix_constructed:
  assumes init: "SubstitutionModel_init svd args = Inr (m, ws)"
    and len: "length params = length (predicate_masks m)"
  shows "\<exists>R. calcRateMatrix m params = Inr R \<and>
      square (length (alphabet m)) (rm_F R) \<and>
      rm_scaled R = do_scaling m \<and> rm_symmetric R = symmetric m \<and> rm_ident R = ident m \<and>
      (\<forall>i<length (alphabet m). \<forall>j<length (alphabet m).
         rm_F R ! i ! j
           = instantaneous_mask_f m ! i ! j *
             prod_list (map (\<lambda>((n, mk), par). if mk ! i ! j \<noteq> 0 then par else 1)
                          (zip (predicate_masks m) params)))"
proof -
  let ?M = "length (alphabet m)"
  let ?mps = "zip (map snd (predicate_masks m)) params"
  note tb = init_model_tables [OF init]
  have z: "zip (predicate_indices m) params = map (\<lambda>(mk, par). (nonzero (ravel mk), par)) ?mps"
    unfolding tb(2) by (simp add: zip_map1 zip_map_map case_prod_unfold comp_def)
  have sq: "list_all (\<lambda>(mk, par). square ?M mk) ?mps"
    using tb(1) by (fastforce simp: list_all_iff dest!: set_zip_leftD)
  have sf: "square ?M (instantaneous_mask_f m)"
    using init_predicate_masks_square(2) [OF init] .
  note on = np_ones_square [OF sf]
  from calcRateMatrix_loop_product [OF sq sf on(1)] on(2) obtain F' where
    f: "calcRateMatrix_loop (map (\<lambda>(mk, par). (nonzero (ravel mk), par)) ?mps)
          (instantaneous_mask_f m) (np_ones (instantaneous_mask_f m)) = Inr F'"
    "square ?M F'"
    "\<forall>i<?M. \<forall>j<?M. F' ! i ! j = instantaneous_mask_f m ! i ! j *
        prod_list (map (\<lambda>(mk, par). if mk ! i ! j \<noteq> 0 then par else 1) ?mps)"
    by blast
  have p: "map (\<lambda>(mk, par). if mk ! i ! j \<noteq> 0 then par else 1) ?mps
      = map (\<lambda>((n, mk), par). if mk ! i ! j \<noteq> 0 then par else (1::real))
          (zip (predicate_masks m) params)" for i j
    by (simp add: zip_map1 case_prod_unfold comp_def)
  have "calcRateMatrix m params
      = Inr \<lparr> rm_scaled = do_scaling m, rm_F = F', rm_ident = ident m,
              rm_symmetric = symmetric m \<rparr>"
    using len f(1) by (simp add: calcRateMatrix_def tb(2) z [unfolded tb(2)] Let_def)
  then show ?thesis using f(2,3) unfolding p by simp
qed

lemma nucleotide_fields:
  "arg_class nucleotide_args = SubstitutionModel"
  "arg_alphabet nucleotide_args = [''T'', ''C'', ''A'', ''G'']"
  "arg_motif_alphabet nucleotide_args = [''T'', ''C'', ''A'', ''G'']"
  "arg_use_monomer_probs nucleotide_args = False"
  "arg_predicates nucleotide_args = Some (RulesDict [(''transition'', pred_transition)])"
  "arg_scales nucleotide_args = None"
  "arg_rate_matrix nucleotide_args = None"
  "arg_do_scaling nucleotide_args = True"
  "arg_motif_probs_error nucleotide_args = None"
  "arg_with_rate nucleotide_args = False"
  "arg_ordered_param nucleotide_args = PNone"
  "arg_partitioned_params nucleotide_args = PNone"
  "arg_distribution nucleotide_args = DistNone"
  by (simp_all add: nucleotide_args_def two_state_args_def)

lemma nucleotide_inst:
  "init_instantaneous nucleotide_args
     = Inr ([[0, 1, 1, 1], [1, 0, 1, 1], [1, 1, 0, 1], [1, 1, 1, 0]],
            [[0, 1, 1, 1], [1, 0, 1, 1], [1, 1, 0, 1], [1, 1, 1, 0]], [])"
  by (simp add: init_instantaneous_def nucleotide_args_def two_state_args_def predicate2matrix_def
      predicate2matrix_entry_def isInstantaneous_def args_env_def isInstantaneous_base_def
      ndiffs_def upt_conv_Cons Let_def)

lemma nucleotide_transition:
  "adaptPredicates [''T'', ''C'', ''A'', ''G'']
       [[0, 1, 1, 1], [1, 0, 1, 1], [1, 1, 0, 1], [1, 1, 1, 0]]
       (RulesDict [(''transition'', pred_transition)])
     = Inr [(''transition'', [[0, 1, 0, 0], [1, 0, 0, 0], [0, 0, 0, 1], [0, 0, 1, 0]])]"
  by (simp add: adaptPredicates_def adaptPredicate_def predicate2matrix_def
      predicate2matrix_entry_def get2_def pred_transition_def upt_conv_Cons Let_def)

lemma nucleotide_model:
  assumes "SubstitutionModel_init svd nucleotide_args = Inr (m, ws)"
  shows "instantaneous_mask_f m = [[0, 1, 1, 1], [1, 0, 1, 1], [1, 1, 0, 1], [1, 1, 1, 0]]"
    and "predicate_masks m = [(''transition'', [[0, 1, 0, 0], [1, 0, 0, 0], [0, 0, 0, 1], [0, 0, 1, 0]])]"
    and "predicate_indices m = [[1, 4, 11, 14]]"
proof -
  from SubstitutionModel_init_InrD [OF assms] obtain w1 where
    i: "init_instantaneous nucleotide_args = Inr (instantaneous_mask m, instantaneous_mask_f m, w1)"
    and a: "adaptPredicates (arg_alphabet nucleotide_args) (instantaneous_mask m)
        (rules_or_empty (arg_predicates nucleotide_args)) = Inr (predicate_masks m)"
    by blast
  from i show f: "instantaneous_mask_f m = [[0, 1, 1, 1], [1, 0, 1, 1], [1, 1, 0, 1], [1, 1, 1, 0]]"
    by (simp add: nucleotide_inst)
  from i have im: "instantaneous_mask m = [[0, 1, 1, 1], [1, 0, 1, 1], [1, 1, 0, 1], [1, 1, 1, 0]]"
    by (simp add: nucleotide_inst)
  from a show p: "predicate_masks m
      = [(''transition'', [[0, 1, 0, 0], [1, 0, 0, 0], [0, 0, 0, 1], [0, 0, 1, 0]])]"
    by (simp add: im nucleotide_fields rules_or_empty_def nucleotide_transition)
  show "predicate_indices m = [[1, 4, 11, 14]]"
    unfolding init_model_tables(2) [OF assms] p
    by (simp add: nonzero_def ravel_def upt_conv_Cons)
qed

lemma nucleotide_rate_matrix:
  assumes "SubstitutionModel_init svd nucleotide_args = Inr (m, ws)"
  shows "\<exists>S. calcRateMatrix m [2] = Inr S \<and>
      rm_F S = [[0, 2, 1, 1], [2, 0, 1, 1], [1, 1, 0, 2], [1, 1, 2, 0]]"
  by (simp add: calcRateMatrix_def nucleotide_model [OF assms] np_ones_def np_mult_def
      ravel_def ncols_def Let_def)

lemma factors_update_outside:
  assumes "k < length ps" and "length ps = length pm" and "snd (pm ! k) ! i ! j = 0"
  shows "map (\<lambda>((n, mk), par). if mk ! i ! j \<noteq> 0 then par else (1::real)) (zip pm (ps[k := v]))
       = map (\<lambda>((n, mk), par). if mk ! i ! j \<noteq> 0 then par else 1) (zip pm ps)"
proof (rule nth_equalityI)
  show "length (map (\<lambda>((n, mk), par). if mk ! i ! j \<noteq> 0 then par else (1::real)) (zip pm (ps[k := v])))
      = length (map (\<lambda>((n, mk), par). if mk ! i ! j \<noteq> 0 then par else (1::real)) (zip pm ps))"
    by simp
next
  fix l
  assume "l < length (map (\<lambda>((n, mk), par). if mk ! i ! j \<noteq> 0 then par else (1::real))
      (zip pm (ps[k := v])))"
  then have l: "l < length pm" "l < length ps" by simp_all
  show "map (\<lambda>((n, mk), par). if mk ! i ! j \<noteq> 0 then par else (1::real)) (zip pm (ps[k := v])) ! l
      = map (\<lambda>((n, mk), par). if mk ! i ! j \<noteq> 0 then par else 1) (zip pm ps) ! l"
    using l assms(3) by (cases "l = k") (simp_all add: case_prod_unfold)
qed

lemma sqrt_128_le: "sqrt 128 \<le> 12"
  by (rule real_le_lsqrt) (simp_all add: power2_eq_square)

lemma redundancy_transition:
  "redundancyInPredicateMasks svd_two_rows
     [(k, [[0, 1, 0, 0], [1, 0, 0, 0], [0, 0, 0, 1], [0, 0, 1, 0]])] = 0"
  by (simp add: redundancyInPredicateMasks_def mask_equations_def ravel_def svd_two_rows_def
      dot_def)

lemma redundancy_transition_plus:
  "redundancyInPredicateMasks svd_two_rows
     [(k, [[0, 1, 0, 0], [1, 0, 0, 0], [0, 0, 0, 1], [0, 0, 1, 0]]),
      (k', [[0, 1, 1, 1], [1, 0, 1, 1], [1, 1, 0, 1], [1, 1, 1, 0]])] = 0"
proof -
  have "1 / 4 \<le> (16 - sqrt 128) / 2" using sqrt_128_le by simp
  then have "sqrt (1 / 4) \<le> sqrt ((16 - sqrt 128) / 2)"
    by (rule real_sqrt_le_mono)
  then have "1 / 2 \<le> sqrt ((16 - sqrt 128) / 2)"
    unfolding sqrt_quarter .
  then have lo: "1 < \<bar>sqrt ((16 - sqrt 128) / 2)\<bar> * 100000000"
    by (rule above_tolerance)
  have "1 / 4 \<le> (16 + sqrt 128) / 2" using real_sqrt_ge_zero [of 128] by simp
  then have "sqrt (1 / 4) \<le> sqrt ((16 + sqrt 128) / 2)"
    by (rule real_sqrt_le_mono)
  then have "1 / 2 \<le> sqrt ((16 + sqrt 128) / 2)"
    unfolding sqrt_quarter .
  then have hi: "1 < \<bar>sqrt ((16 + sqrt 128) / 2)\<bar> * 100000000"
    by (rule above_tolerance)
  show ?thesis using lo hi
    by (simp add: redundancyInPredicateMasks_def mask_equations_def ravel_def svd_two_rows_def
        dot_def Let_def)
qed

lemma nucleotide_init:
  "\<exists>m. SubstitutionModel_init svd_two_rows nucleotide_args = Inr (m, [])"
proof -
  let ?args = nucleotide_args
  let ?I = "[[0, 1, 1, 1], [1, 0, 1, 1], [1, 1, 0, 1], [1, 1, 1, 0]] :: int matrix"
  let ?T = "[[0, 1, 0, 0], [1, 0, 0, 0], [0, 0, 0, 1], [0, 0, 1, 0]] :: int matrix"
  have r: "adaptPredicates (arg_alphabet ?args) ?I (rules_or_empty (arg_predicates ?args))
      = Inr [(''transition'', ?T)]"
    by (simp add: rules_or_empty_def nucleotide_fields nucleotide_transition)
  have c: "checkPredicateMasks svd_two_rows (arg_do_scaling ?args) ?I [(''transition'', ?T)] = Inr []"
    by (simp add: checkPredicateMasks_def all_zero_def all_equal_def ravel_def
        redundancy_transition redundancy_transition_plus nucleotide_fields)
  have l: "init_indices_loop [(''transition'', ?T)]
      (isSymmetrical [[0, 1, 1, 1], [1, 0, 1, 1], [1, 1, 0, 1], [1, 1, 1, 0 :: real]]) [] []
      = Inr (True, [''transition''], [[1, 4, 11, 14]])"
    by (simp add: isSymmetrical_def np_transpose_def nonzero_def ravel_def upt_conv_Cons)
  have s: "adaptPredicates (arg_alphabet ?args) ?I (rules_or_empty (arg_scales ?args)) = Inr []"
    by (simp add: nucleotide_fields adaptPredicates_no_rules)
  have m: "init_monomer_indices ?args [[0, 1, 1, 1], [1, 0, 1, 1], [1, 1, 0, 1], [1, 1, 1, 0]]
      = Inr (None, None)"
    by (simp add: init_monomer_indices_unused nucleotide_fields)
  have b: "init_bins (arg_ordered_param ?args) (arg_partitioned_params ?args)
      (arg_with_rate ?args) [''transition''] = Inr (False, [], [])"
    by (simp add: nucleotide_fields init_bins_none)
  have d: "init_distribution (arg_distribution ?args) = Inr MonotonicDefn"
    by (simp add: nucleotide_fields init_distribution_def)
  show ?thesis
    using SubstitutionModel_init_InrI [OF nucleotide_inst r c l s m _ b d]
    by (simp add: nucleotide_fields)
qed

section \<open>The rate matrix of a constructed model\<close>

text \<open>
  Claim C1. For a constructed model and as many parameter values as it has predicate
  masks, \<^verbatim>\<open>calcRateMatrix\<close> returns a matrix whose entry \<open>(i, j)\<close> is the float
  instantaneous mask at \<open>(i, j)\<close> times the product of the values of the parameters whose
  mask is set there, a parameter whose mask is unset contributing the factor 1. The
  diagonal is 0, and changing the value of a parameter leaves every entry outside its
  mask as it was. With another number of values the assertion fails. In the nucleotide
  scenario with \<^verbatim>\<open>transition\<close> at 2, four entries are 2 and eight are 1.
\<close>

theorem calcRateMatrix_product_of_parameters:
  assumes init: "SubstitutionModel_init svd args = Inr (m, ws)"
    and len: "length params = length (predicate_masks m)"
  shows "\<exists>R. calcRateMatrix m params = Inr R \<and>
      square (length (alphabet m)) (rm_F R) \<and>
      (\<forall>i<length (alphabet m). \<forall>j<length (alphabet m).
         rm_F R ! i ! j
           = instantaneous_mask_f m ! i ! j *
             prod_list (map snd (filter (\<lambda>((n, mk), par). mk ! i ! j \<noteq> 0)
                                   (zip (predicate_masks m) params))) \<and>
         rm_F R ! i ! j
           = instantaneous_mask_f m ! i ! j *
             prod_list (map (\<lambda>((n, mk), par). if mk ! i ! j \<noteq> 0 then par else 1)
                          (zip (predicate_masks m) params))) \<and>
      (\<forall>i<length (alphabet m). rm_F R ! i ! i = 0) \<and>
      (\<forall>k<length params. \<forall>v. \<exists>R'.
         calcRateMatrix m (params[k := v]) = Inr R' \<and>
         (\<forall>i<length (alphabet m). \<forall>j<length (alphabet m).
            snd (predicate_masks m ! k) ! i ! j = 0 \<longrightarrow> rm_F R' ! i ! j = rm_F R ! i ! j)) \<and>
      (\<forall>ps. length ps \<noteq> length (predicate_masks m) \<longrightarrow>
         calcRateMatrix m ps = Inl AssertionError) \<and>
      (\<forall>svd' m' ws'.
         SubstitutionModel_init svd' nucleotide_args = Inr (m', ws') \<longrightarrow>
         (\<exists>S. calcRateMatrix m' [2] = Inr S \<and>
            count_list (ravel (rm_F S)) 2 = 4 \<and> count_list (ravel (rm_F S)) 1 = 8))"
proof -
  let ?M = "length (alphabet m)"
  let ?f = "\<lambda>i j. (\<lambda>((n, mk), par). if mk ! i ! j \<noteq> 0 then par else (1::real))"
  from calcRateMatrix_constructed [OF init len] obtain R where
    R: "calcRateMatrix m params = Inr R" "square ?M (rm_F R)"
    "\<forall>i<?M. \<forall>j<?M. rm_F R ! i ! j
        = instantaneous_mask_f m ! i ! j * prod_list (map (?f i j) (zip (predicate_masks m) params))"
    by blast
  have flt: "prod_list (map (?f i j) (zip (predicate_masks m) params))
      = prod_list (map snd (filter (\<lambda>((n, mk), par). mk ! i ! j \<noteq> 0)
                              (zip (predicate_masks m) params)))" for i j
    using prod_list_identity_filter [of "\<lambda>(n, mk). mk ! i ! j \<noteq> 0" "zip (predicate_masks m) params"]
    by (simp add: case_prod_unfold)
  have entries: "\<forall>i<?M. \<forall>j<?M.
         rm_F R ! i ! j
           = instantaneous_mask_f m ! i ! j *
             prod_list (map snd (filter (\<lambda>((n, mk), par). mk ! i ! j \<noteq> 0)
                                   (zip (predicate_masks m) params))) \<and>
         rm_F R ! i ! j
           = instantaneous_mask_f m ! i ! j *
             prod_list (map (?f i j) (zip (predicate_masks m) params))"
    using R(3) flt by simp
  have diag: "\<forall>i<?M. rm_F R ! i ! i = 0"
    using R(3) init_model_tables(4) [OF init] by simp
  have outside: "\<forall>k<length params. \<forall>v. \<exists>R'.
         calcRateMatrix m (params[k := v]) = Inr R' \<and>
         (\<forall>i<?M. \<forall>j<?M.
            snd (predicate_masks m ! k) ! i ! j = 0 \<longrightarrow> rm_F R' ! i ! j = rm_F R ! i ! j)"
  proof (intro allI impI)
    fix k v
    assume k: "k < length params"
    have len': "length (params[k := v]) = length (predicate_masks m)" using len by simp
    from calcRateMatrix_constructed [OF init len'] obtain R' where
      R': "calcRateMatrix m (params[k := v]) = Inr R'"
      "\<forall>i<?M. \<forall>j<?M. rm_F R' ! i ! j
          = instantaneous_mask_f m ! i ! j *
            prod_list (map (?f i j) (zip (predicate_masks m) (params[k := v])))"
      by blast
    have "rm_F R' ! i ! j = rm_F R ! i ! j"
      if "i < ?M" "j < ?M" "snd (predicate_masks m ! k) ! i ! j = 0" for i j
      using R'(2) R(3) that factors_update_outside [OF k len that(3), of v] by simp
    with R'(1) show "\<exists>R'. calcRateMatrix m (params[k := v]) = Inr R' \<and>
         (\<forall>i<?M. \<forall>j<?M.
            snd (predicate_masks m ! k) ! i ! j = 0 \<longrightarrow> rm_F R' ! i ! j = rm_F R ! i ! j)"
      by blast
  qed
  have wrong: "\<forall>ps. length ps \<noteq> length (predicate_masks m) \<longrightarrow>
         calcRateMatrix m ps = Inl AssertionError"
    by (simp add: calcRateMatrix_def init_model_tables(2) [OF init])
  have scenario: "\<forall>svd' m' ws'.
         SubstitutionModel_init svd' nucleotide_args = Inr (m', ws') \<longrightarrow>
         (\<exists>S. calcRateMatrix m' [2] = Inr S \<and>
            count_list (ravel (rm_F S)) 2 = 4 \<and> count_list (ravel (rm_F S)) 1 = 8)"
  proof (intro allI impI)
    fix svd' :: svd_routine and m' :: model and ws' :: "warning list"
    assume "SubstitutionModel_init svd' nucleotide_args = Inr (m', ws')"
    from nucleotide_rate_matrix [OF this] obtain S where
      "calcRateMatrix m' [2] = Inr S"
      "rm_F S = [[0, 2, 1, 1], [2, 0, 1, 1], [1, 1, 0, 2], [1, 1, 2, 0]]"
      by blast
    then show "\<exists>S. calcRateMatrix m' [2] = Inr S \<and>
            count_list (ravel (rm_F S)) 2 = 4 \<and> count_list (ravel (rm_F S)) 1 = 8"
      by (simp add: ravel_def)
  qed
  show ?thesis using R(1,2) entries diag outside wrong scenario by blast
qed

theorem calcRateMatrix_product_of_parameters_witness:
  "\<exists>m. SubstitutionModel_init svd_two_rows nucleotide_args = Inr (m, []) \<and>
       length [2 :: real] = length (predicate_masks m) \<and>
       (\<exists>R. calcRateMatrix m [2] = Inr R \<and>
          rm_F R ! 0 ! 1 = 2 \<and> rm_F R ! 0 ! 2 = 1 \<and> rm_F R ! 0 ! 0 = 0 \<and>
          count_list (ravel (rm_F R)) 2 = 4 \<and> count_list (ravel (rm_F R)) 1 = 8)"
proof -
  obtain m where m: "SubstitutionModel_init svd_two_rows nucleotide_args = Inr (m, [])"
    using nucleotide_init by blast
  note nm = nucleotide_model [OF m]
  have len: "length [2 :: real] = length (predicate_masks m)" by (simp add: nm)
  have al: "length (alphabet m) = 4"
    using SubstitutionModel_init_InrD [OF m] by (auto simp: nucleotide_fields)
  from calcRateMatrix_product_of_parameters [OF m len] show ?thesis
  proof (elim exE conjE)
    fix R
    assume R: "calcRateMatrix m [2] = Inr R"
      and en: "\<forall>i<length (alphabet m). \<forall>j<length (alphabet m).
         rm_F R ! i ! j
           = instantaneous_mask_f m ! i ! j *
             prod_list (map snd (filter (\<lambda>((n, mk), par). mk ! i ! j \<noteq> 0)
                                   (zip (predicate_masks m) [2]))) \<and>
         rm_F R ! i ! j
           = instantaneous_mask_f m ! i ! j *
             prod_list (map (\<lambda>((n, mk), par). if mk ! i ! j \<noteq> 0 then par else 1)
                          (zip (predicate_masks m) [2]))"
      and sc: "\<forall>svd' m' ws'.
         SubstitutionModel_init svd' nucleotide_args = Inr (m', ws') \<longrightarrow>
         (\<exists>S. calcRateMatrix m' [2] = Inr S \<and>
            count_list (ravel (rm_F S)) 2 = 4 \<and> count_list (ravel (rm_F S)) 1 = 8)"
    from en have e: "rm_F R ! 0 ! 1 = 2" "rm_F R ! 0 ! 2 = 1" "rm_F R ! 0 ! 0 = 0"
      by (simp_all add: al nm)
    from sc m R have "count_list (ravel (rm_F R)) 2 = 4 \<and> count_list (ravel (rm_F R)) 1 = 8"
      by fastforce
    with m len R e show ?thesis by blast
  qed
qed

lemma sum_delta_lessThan:
  assumes "l' < (n :: nat)"
  shows "(\<Sum>l<n. f l * (if l = l' then 1 else 0)) = (f l' :: real)"
proof -
  have "(\<Sum>l<n. f l * (if l = l' then 1 else 0)) = (\<Sum>l\<in>{..<n}. if l = l' then f l else 0)"
    by (rule sum.cong) auto
  also have "\<dots> = f l'" using sum.delta [of "{..<n}" l' f] assms by simp
  finally show ?thesis .
qed

lemma equal_rows_zero_singular_value:
  assumes U: "orthogonal n U" and V: "orthogonal m V" and nm: "n \<le> m"
    and A: "\<And>i j. i < n \<Longrightarrow> j < m \<Longrightarrow> A ! i ! j = (\<Sum>l<n. U i l * s ! l * V j l)"
    and ab: "a < n" "b < n" "a \<noteq> b"
    and eq: "A ! a = A ! b"
  shows "\<exists>l<n. s ! l = 0"
proof (rule ccontr)
  assume "\<not> (\<exists>l<n. s ! l = 0)"
  then have nz: "\<And>l. l < n \<Longrightarrow> s ! l \<noteq> 0" by blast
  define c where "c l = U a l - U b l" for l
  have row: "(\<Sum>l<n. c l * s ! l * V j l) = 0" if "j < m" for j
  proof -
    have "(\<Sum>l<n. c l * s ! l * V j l)
        = (\<Sum>l<n. U a l * s ! l * V j l) - (\<Sum>l<n. U b l * s ! l * V j l)"
      by (simp add: c_def sum_subtractf left_diff_distrib)
    also have "\<dots> = A ! a ! j - A ! b ! j" using A [OF ab(1) that] A [OF ab(2) that] by simp
    also have "\<dots> = 0" by (simp add: eq)
    finally show ?thesis .
  qed
  have cols: "(\<Sum>j<m. V j l * V j l') = (if l = l' then 1 else 0)" if "l < n" "l' < n" for l l'
    using V that nm by (simp add: orthogonal_def)
  have zero: "c l' = 0" if "l' < n" for l'
  proof -
    have "0 = (\<Sum>j<m. (\<Sum>l<n. c l * s ! l * V j l) * V j l')"
      using row by simp
    also have "\<dots> = (\<Sum>j<m. \<Sum>l<n. c l * s ! l * (V j l * V j l'))"
      by (simp add: sum_distrib_right mult.assoc)
    also have "\<dots> = (\<Sum>l<n. \<Sum>j<m. c l * s ! l * (V j l * V j l'))"
      by (rule sum.swap)
    also have "\<dots> = (\<Sum>l<n. c l * s ! l * (\<Sum>j<m. V j l * V j l'))"
      by (simp add: sum_distrib_left)
    also have "\<dots> = (\<Sum>l<n. c l * s ! l * (if l = l' then 1 else 0))"
      by (rule sum.cong) (simp_all add: cols that)
    also have "\<dots> = c l' * s ! l'"
      by (rule sum_delta_lessThan [OF that])
    finally show ?thesis using nz [OF that] by simp
  qed
  have same: "U a l = U b l" if "l < n" for l
    using zero [OF that] by (simp add: c_def)
  have "(\<Sum>l<n. U a l * U b l) = (\<Sum>l<n. U a l * U a l)"
    by (rule sum.cong) (simp_all add: same)
  moreover have "(\<Sum>l<n. U a l * U b l) = 0"
    using U ab by (simp add: orthogonal_def)
  moreover have "(\<Sum>l<n. U a l * U a l) = 1"
    using U ab by (simp add: orthogonal_def)
  ultimately show False by simp
qed

lemma singular_values_length:
  "singular_values A s \<Longrightarrow> length s = min (length A) (ncols A)"
  by (simp add: singular_values_def Let_def)

lemma singular_values_equal_rows:
  assumes sv: "singular_values A s" and ab: "a < length A" "b < length A" "a \<noteq> b"
    and eq: "A ! a = A ! b" and tol: "0 \<le> tol"
  shows "length (filter (\<lambda>v. tol < \<bar>v\<bar>) s) < length A"
proof (cases "length A \<le> ncols A")
  case True
  from sv obtain U V where len: "length s = length A"
    and U: "orthogonal (length A) U" and V: "orthogonal (ncols A) V"
    and A: "\<And>i j. i < length A \<Longrightarrow> j < ncols A \<Longrightarrow>
              A ! i ! j = (\<Sum>l<length A. U i l * s ! l * V j l)"
    using True by (auto simp: singular_values_def Let_def min_def)
  from equal_rows_zero_singular_value [OF U V True A ab eq]
  obtain l where l: "l < length A" "s ! l = 0" by blast
  from l(1) len have "s ! l \<in> set s" by (intro nth_mem) simp
  moreover have "\<not> tol < \<bar>s ! l\<bar>" using l(2) tol by simp
  ultimately have "length (filter (\<lambda>v. tol < \<bar>v\<bar>) s) < length s"
    by (rule length_filter_less)
  then show ?thesis by (simp add: len)
next
  case False
  have "length (filter (\<lambda>v. tol < \<bar>v\<bar>) s) \<le> length s" by simp
  then show ?thesis using singular_values_length [OF sv] False by simp
qed

lemma mask_equations_rows:
  "mask_equations (map snd preds) = map (\<lambda>(n, mk). map real_of_int (concat mk)) preds"
  by (simp add: mask_equations_def ravel_def case_prod_unfold comp_def)

lemma redundancy_count:
  "preds \<noteq> [] \<Longrightarrow>
   redundancyInPredicateMasks svd preds
     = int (length preds)
       - int (length (filter (\<lambda>sv. 1 / 10 ^ 8 < \<bar>sv\<bar>)
                (svd (map (\<lambda>(n, mk). map real_of_int (concat mk)) preds))))"
  by (simp add: redundancyInPredicateMasks_def Let_def mask_equations_rows)

lemma duplicate_masks_redundant:
  fixes preds :: "('k \<times> int matrix) list"
  assumes dup: "\<not> distinct (map snd preds)"
    and sv: "singular_values (map (\<lambda>(n, mk). map real_of_int (concat mk)) preds)
               (svd (map (\<lambda>(n, mk). map real_of_int (concat mk)) preds))"
  shows "redundancyInPredicateMasks svd preds > 0"
proof -
  let ?A = "map (\<lambda>(n, mk). map real_of_int (concat mk)) preds"
  from dup obtain a b where ab: "a < length preds" "b < length preds" "a \<noteq> b"
    and eq: "snd (preds ! a) = snd (preds ! b)"
    by (auto simp: distinct_conv_nth)
  have rows: "?A ! a = ?A ! b" using ab eq by (simp add: case_prod_unfold)
  have ne: "preds \<noteq> []" using ab by auto
  have "length (filter (\<lambda>v. 1 / 10 ^ 8 < \<bar>v\<bar>) (svd ?A)) < length ?A"
    by (rule singular_values_equal_rows [OF sv _ _ ab(3) rows]) (simp_all add: ab)
  then show ?thesis unfolding redundancy_count [OF ne] by simp
qed

lemma find_SomeD: "find P xs = Some a \<Longrightarrow> a \<in> set xs \<and> P a"
  by (induction xs) (auto split: if_splits)

lemma checkPredicateMasks_of_redundant:
  assumes "redundancyInPredicateMasks svd pm \<noteq> 0"
  shows "\<exists>e. checkPredicateMasks svd scaling inst pm = Inl e \<and>
      (e = RedundancyInPredicates \<or>
       (\<exists>n. e = PredicateAlwaysFalse n \<and> list_ex (\<lambda>(n, mk). all_zero mk) pm) \<or>
       (\<exists>n. e = PredicateAlwaysTrue n \<and> scaling \<and>
            list_ex (\<lambda>(n, mk). all_equal mk inst) pm)) \<and>
      (\<not> list_ex (\<lambda>(n, mk). all_zero mk) pm \<and>
       (scaling \<longrightarrow> \<not> list_ex (\<lambda>(n, mk). all_equal mk inst) pm) \<longrightarrow>
       e = RedundancyInPredicates)"
proof (cases "find (\<lambda>(n, mk). all_zero mk) pm")
  case (Some a)
  obtain n mk where a: "a = (n, mk)" by (cases a)
  from find_SomeD [OF Some] have "a \<in> set pm" "(\<lambda>(n, mk). all_zero mk) a"
    by simp_all
  then have ex: "list_ex (\<lambda>(n, mk). all_zero mk) pm" by (auto simp: list_ex_iff)
  have "checkPredicateMasks svd scaling inst pm = Inl (PredicateAlwaysFalse n)"
    by (simp add: checkPredicateMasks_def Some a)
  then show ?thesis using ex by simp
next
  case None
  then have nz: "\<not> list_ex (\<lambda>(n, mk). all_zero mk) pm"
    by (auto simp: find_None_iff list_ex_iff)
  show ?thesis
  proof (cases "scaling \<and> find (\<lambda>(n, mk). all_equal mk inst) pm \<noteq> None")
    case True
    then obtain a where f: "find (\<lambda>(n, mk). all_equal mk inst) pm = Some a" by auto
    obtain n mk where a: "a = (n, mk)" by (cases a)
    from find_SomeD [OF f] have "a \<in> set pm" "(\<lambda>(n, mk). all_equal mk inst) a"
      by simp_all
    then have ex: "list_ex (\<lambda>(n, mk). all_equal mk inst) pm" by (auto simp: list_ex_iff)
    have "checkPredicateMasks svd scaling inst pm = Inl (PredicateAlwaysTrue n)"
      using True by (simp add: checkPredicateMasks_def None f a)
    then show ?thesis using ex True by simp
  next
    case False
    then have "scaling \<Longrightarrow> find (\<lambda>(n, mk). all_equal mk inst) pm = None" by blast
    then have "checkPredicateMasks svd scaling inst pm = Inl RedundancyInPredicates"
      using assms by (simp add: checkPredicateMasks_def None Let_def)
    then show ?thesis by simp
  qed
qed

section \<open>Redundancy of the predicate masks\<close>

text \<open>
  Claim C2, amended. For a non-empty collection of masks \<^verbatim>\<open>redundancyInPredicateMasks\<close>
  flattens each mask to a row, stacks the rows, and returns the number of masks minus the
  number of singular values of absolute value above \<open>1e-8\<close> that the SVD routine returns
  for the stacked rows; for an empty collection it returns 0. When what the routine
  returns are the singular values of the stacked rows, the result is not negative, and
  it is not zero when the collection holds one mask twice. Then \<^verbatim>\<open>checkPredicateMasks\<close>,
  and with it the construction, raises an error: the redundancy error, unless a mask is
  all zero or, with scaling, equal to the instantaneous mask, which raise the errors of
  a predicate that is always false or always true first.
\<close>

theorem redundancyInPredicateMasks_nullity:
  fixes svd :: svd_routine and preds :: "(string \<times> int matrix) list"
  defines "eqns \<equiv> map (\<lambda>(n, mk). map real_of_int (concat mk)) preds"
  shows
    "redundancyInPredicateMasks svd ([] :: (string \<times> int matrix) list) = 0 \<and>
     (preds \<noteq> [] \<longrightarrow>
        redundancyInPredicateMasks svd preds
          = int (length preds) - int (length (filter (\<lambda>sv. 1 / 10 ^ 8 < \<bar>sv\<bar>) (svd eqns)))) \<and>
     (singular_values eqns (svd eqns) \<longrightarrow>
        0 \<le> redundancyInPredicateMasks svd preds \<and>
        int (length preds) - int (ncols eqns) \<le> redundancyInPredicateMasks svd preds) \<and>
     (\<not> distinct (map snd preds) \<and> singular_values eqns (svd eqns) \<longrightarrow>
        redundancyInPredicateMasks svd preds > 0 \<and>
        (\<forall>scaling inst. \<exists>e.
           checkPredicateMasks svd scaling inst preds = Inl e \<and>
           (e = RedundancyInPredicates \<or>
            (\<exists>n. e = PredicateAlwaysFalse n \<and> list_ex (\<lambda>(n, mk). all_zero mk) preds) \<or>
            (\<exists>n. e = PredicateAlwaysTrue n \<and> scaling \<and>
                 list_ex (\<lambda>(n, mk). all_equal mk inst) preds)) \<and>
           (\<not> list_ex (\<lambda>(n, mk). all_zero mk) preds \<and>
            (scaling \<longrightarrow> \<not> list_ex (\<lambda>(n, mk). all_equal mk inst) preds) \<longrightarrow>
            e = RedundancyInPredicates) \<and>
           (\<forall>args f w.
              init_instantaneous args = Inr (inst, f, w) \<and>
              adaptPredicates (arg_alphabet args) inst (rules_or_empty (arg_predicates args))
                = Inr preds \<and>
              arg_do_scaling args = scaling \<longrightarrow>
              SubstitutionModel_init svd args = Inl e)))"
proof -
  have empty: "redundancyInPredicateMasks svd ([] :: (string \<times> int matrix) list) = 0"
    by (simp add: redundancyInPredicateMasks_def)
  have count: "redundancyInPredicateMasks svd preds
          = int (length preds) - int (length (filter (\<lambda>sv. 1 / 10 ^ 8 < \<bar>sv\<bar>) (svd eqns)))"
    if "preds \<noteq> []"
    unfolding eqns_def by (rule redundancy_count [OF that])
  have bounds: "0 \<le> redundancyInPredicateMasks svd preds \<and>
        int (length preds) - int (ncols eqns) \<le> redundancyInPredicateMasks svd preds"
    if sv: "singular_values eqns (svd eqns)"
  proof (cases "preds = []")
    case True
    then show ?thesis by (simp add: redundancyInPredicateMasks_def eqns_def ncols_def)
  next
    case False
    have "length (filter (\<lambda>sv. 1 / 10 ^ 8 < \<bar>sv\<bar>) (svd eqns)) \<le> length (svd eqns)"
      by simp
    also have "\<dots> = min (length preds) (ncols eqns)"
      using singular_values_length [OF sv] by (simp add: eqns_def)
    finally show ?thesis unfolding count [OF False] by simp
  qed
  have dup: "redundancyInPredicateMasks svd preds > 0 \<and>
        (\<forall>scaling inst. \<exists>e.
           checkPredicateMasks svd scaling inst preds = Inl e \<and>
           (e = RedundancyInPredicates \<or>
            (\<exists>n. e = PredicateAlwaysFalse n \<and> list_ex (\<lambda>(n, mk). all_zero mk) preds) \<or>
            (\<exists>n. e = PredicateAlwaysTrue n \<and> scaling \<and>
                 list_ex (\<lambda>(n, mk). all_equal mk inst) preds)) \<and>
           (\<not> list_ex (\<lambda>(n, mk). all_zero mk) preds \<and>
            (scaling \<longrightarrow> \<not> list_ex (\<lambda>(n, mk). all_equal mk inst) preds) \<longrightarrow>
            e = RedundancyInPredicates) \<and>
           (\<forall>args f w.
              init_instantaneous args = Inr (inst, f, w) \<and>
              adaptPredicates (arg_alphabet args) inst (rules_or_empty (arg_predicates args))
                = Inr preds \<and>
              arg_do_scaling args = scaling \<longrightarrow>
              SubstitutionModel_init svd args = Inl e))"
    if d: "\<not> distinct (map snd preds)" and sv: "singular_values eqns (svd eqns)"
  proof -
    have pos: "redundancyInPredicateMasks svd preds > 0"
      using d sv unfolding eqns_def by (rule duplicate_masks_redundant)
    then have nz: "redundancyInPredicateMasks svd preds \<noteq> 0" by simp
    have "\<exists>e. checkPredicateMasks svd scaling inst preds = Inl e \<and>
           (e = RedundancyInPredicates \<or>
            (\<exists>n. e = PredicateAlwaysFalse n \<and> list_ex (\<lambda>(n, mk). all_zero mk) preds) \<or>
            (\<exists>n. e = PredicateAlwaysTrue n \<and> scaling \<and>
                 list_ex (\<lambda>(n, mk). all_equal mk inst) preds)) \<and>
           (\<not> list_ex (\<lambda>(n, mk). all_zero mk) preds \<and>
            (scaling \<longrightarrow> \<not> list_ex (\<lambda>(n, mk). all_equal mk inst) preds) \<longrightarrow>
            e = RedundancyInPredicates) \<and>
           (\<forall>args f w.
              init_instantaneous args = Inr (inst, f, w) \<and>
              adaptPredicates (arg_alphabet args) inst (rules_or_empty (arg_predicates args))
                = Inr preds \<and>
              arg_do_scaling args = scaling \<longrightarrow>
              SubstitutionModel_init svd args = Inl e)" for scaling inst
    proof -
      from checkPredicateMasks_of_redundant [OF nz, of scaling inst] obtain e where
        c: "checkPredicateMasks svd scaling inst preds = Inl e"
        and k: "e = RedundancyInPredicates \<or>
            (\<exists>n. e = PredicateAlwaysFalse n \<and> list_ex (\<lambda>(n, mk). all_zero mk) preds) \<or>
            (\<exists>n. e = PredicateAlwaysTrue n \<and> scaling \<and>
                 list_ex (\<lambda>(n, mk). all_equal mk inst) preds)"
        and r: "\<not> list_ex (\<lambda>(n, mk). all_zero mk) preds \<and>
            (scaling \<longrightarrow> \<not> list_ex (\<lambda>(n, mk). all_equal mk inst) preds) \<longrightarrow>
            e = RedundancyInPredicates"
        by blast
      have i: "SubstitutionModel_init svd args = Inl e"
        if "init_instantaneous args = Inr (inst, f, w) \<and>
              adaptPredicates (arg_alphabet args) inst (rules_or_empty (arg_predicates args))
                = Inr preds \<and>
              arg_do_scaling args = scaling" for args :: init_args and f w
        using that c by (simp add: SubstitutionModel_init_def)
      from c k r i show ?thesis by blast
    qed
    with pos show ?thesis by blast
  qed
  from empty count bounds dup show ?thesis by blast
qed

lemma two_state_two_forward:
  "adaptPredicates [''a'', ''b''] [[0, 1], [1, 0]]
       (RulesDict [(''p'', pred_forward), (''q'', pred_forward)])
     = Inr [(''p'', [[0, 1], [0, 0]]), (''q'', [[0, 1], [0, 0]])]"
  by (simp add: adaptPredicates_def adaptPredicate_def predicate2matrix_def
      predicate2matrix_entry_def get2_def pred_forward_def upt_conv_Cons Let_def)

lemma two_state_two_never:
  "adaptPredicates [''a'', ''b''] [[0, 1], [1, 0]]
       (RulesDict [(''p'', pred_never), (''q'', pred_never)])
     = Inr [(''p'', [[0, 0], [0, 0]]), (''q'', [[0, 0], [0, 0]])]"
  by (simp add: adaptPredicates_def adaptPredicate_def predicate2matrix_def
      predicate2matrix_entry_def get2_def pred_never_def upt_conv_Cons Let_def)

lemma sqrt_4: "sqrt 4 = 2"
  using real_sqrt_abs [of 2] by simp

lemma two_forward_svd: "svd_two_rows [[0, 1, 0, 0], [0, 1, 0, 0]] = [sqrt 2, 0]"
  by (simp add: svd_two_rows_def dot_def sqrt_4)

lemma half_turn_orthogonal: "orthogonal 2 half_turn"
  by (simp add: orthogonal_def half_turn_def eval_nat_numeral less_Suc_eq)

lemma swap_first_orthogonal: "orthogonal 4 swap_first"
  by (simp add: orthogonal_def swap_first_def eval_nat_numeral less_Suc_eq)

lemma two_forward_singular_values:
  "singular_values [[0, 1, 0, 0], [0, 1, 0, 0]] [sqrt 2, 0]"
proof -
  let ?A = "[[0, 1, 0, 0], [0, 1, 0, 0 :: real]]"
  have n: "length ?A = 2" and m: "ncols ?A = 4" and k: "min 2 (4 :: nat) = 2"
    by (simp_all add: ncols_def)
  have e: "\<forall>i<2. \<forall>j<4. ?A ! i ! j
      = (\<Sum>l<2. half_turn i l * [sqrt 2, 0] ! l * swap_first j l)"
    by (simp add: half_turn_def swap_first_def eval_nat_numeral less_Suc_eq)
  have s: "length [sqrt 2, 0 :: real] = 2 \<and> list_all (\<lambda>v. 0 \<le> v) [sqrt 2, 0 :: real] \<and>
      sorted (rev [sqrt 2, 0 :: real])"
    by simp
  show ?thesis
    unfolding singular_values_def Let_def n m k
    using s e half_turn_orthogonal swap_first_orthogonal by blast
qed

theorem redundancyInPredicateMasks_nullity_witness:
  "\<not> distinct (map snd [(''p'', [[0, 1], [0, 0 :: int]]), (''q'', [[0, 1], [0, 0]])]) \<and>
   map (\<lambda>(n, mk). map real_of_int (concat mk))
       [(''p'', [[0, 1], [0, 0 :: int]]), (''q'', [[0, 1], [0, 0]])]
     = [[0, 1, 0, 0], [0, 1, 0, 0]] \<and>
   svd_two_rows [[0, 1, 0, 0], [0, 1, 0, 0]] = [sqrt 2, 0] \<and>
   singular_values [[0, 1, 0, 0], [0, 1, 0, 0]] [sqrt 2, 0] \<and>
   redundancyInPredicateMasks svd_two_rows
       [(''p'', [[0, 1], [0, 0]]), (''q'', [[0, 1], [0, 0]])] > 0 \<and>
   checkPredicateMasks svd_two_rows True [[0, 1], [1, 0]]
       [(''p'', [[0, 1], [0, 0]]), (''q'', [[0, 1], [0, 0]])] = Inl RedundancyInPredicates \<and>
   SubstitutionModel_init svd_two_rows
       (two_state_args (Some (RulesDict [(''p'', pred_forward), (''q'', pred_forward)])) True)
     = Inl RedundancyInPredicates"
proof -
  let ?pm = "[(''p'', [[0, 1], [0, 0 :: int]]), (''q'', [[0, 1], [0, 0]])]"
  let ?A = "[[0, 1, 0, 0], [0, 1, 0, 0 :: real]]"
  let ?I = "[[0, 1], [1, 0]] :: int matrix"
  let ?args = "two_state_args (Some (RulesDict [(''p'', pred_forward), (''q'', pred_forward)])) True"
  have d: "\<not> distinct (map snd ?pm)" by simp
  have q: "map (\<lambda>(n, mk). map real_of_int (concat mk)) ?pm = ?A" by simp
  have sv: "singular_values (map (\<lambda>(n, mk). map real_of_int (concat mk)) ?pm)
      (svd_two_rows (map (\<lambda>(n, mk). map real_of_int (concat mk)) ?pm))"
    unfolding q two_forward_svd by (rule two_forward_singular_values)
  have z: "\<not> list_ex (\<lambda>(n, mk). all_zero mk) ?pm"
    by (simp add: all_zero_def ravel_def)
  have e: "True \<longrightarrow> \<not> list_ex (\<lambda>(n, mk). all_equal mk ?I) ?pm"
    by (simp add: all_equal_def ravel_def)
  have a: "init_instantaneous ?args = Inr (?I, [[0, 1], [1, 0]], []) \<and>
      adaptPredicates (arg_alphabet ?args) ?I (rules_or_empty (arg_predicates ?args)) = Inr ?pm \<and>
      arg_do_scaling ?args = True"
    by (simp add: two_state_fields rules_or_empty_def two_state_two_forward two_state_inst)
  note t = redundancyInPredicateMasks_nullity [where preds = ?pm and svd = svd_two_rows]
  note dup = t [THEN conjunct2, THEN conjunct2, THEN conjunct2, rule_format, OF conjI, OF d sv]
  from dup have p: "redundancyInPredicateMasks svd_two_rows ?pm > 0" by (rule conjunct1)
  from dup [THEN conjunct2, rule_format, of True ?I] obtain err where
    c: "checkPredicateMasks svd_two_rows True ?I ?pm = Inl err"
    and r: "\<not> list_ex (\<lambda>(n, mk). all_zero mk) ?pm \<and>
            (True \<longrightarrow> \<not> list_ex (\<lambda>(n, mk). all_equal mk ?I) ?pm) \<longrightarrow>
            err = RedundancyInPredicates"
    and i: "\<And>args f w. init_instantaneous args = Inr (?I, f, w) \<and>
              adaptPredicates (arg_alphabet args) ?I (rules_or_empty (arg_predicates args))
                = Inr ?pm \<and>
              arg_do_scaling args = True \<Longrightarrow>
              SubstitutionModel_init svd_two_rows args = Inl err"
    by blast
  from r z e have err: "err = RedundancyInPredicates" by blast
  show ?thesis
    apply (intro conjI)
    subgoal by (rule d)
    subgoal by (rule q)
    subgoal by (rule two_forward_svd)
    subgoal by (rule two_forward_singular_values)
    subgoal by (rule p)
    subgoal using c err by simp
    subgoal using i [OF a] err by simp
    done
qed

theorem duplicate_never_true_masks_counterexample:
  "adaptPredicates [''a'', ''b''] [[0, 1], [1, 0]]
       (RulesDict [(''p'', pred_never), (''q'', pred_never)])
     = Inr [(''p'', [[0, 0], [0, 0]]), (''q'', [[0, 0], [0, 0]])] \<and>
   SubstitutionModel_init svd_two_rows
       (two_state_args (Some (RulesDict [(''p'', pred_never), (''q'', pred_never)])) True)
     = Inl (PredicateAlwaysFalse ''p'') \<and>
   SubstitutionModel_init svd_two_rows
       (two_state_args (Some (RulesDict [(''p'', pred_never), (''q'', pred_never)])) True)
     \<noteq> Inl RedundancyInPredicates"
proof -
  let ?args = "two_state_args (Some (RulesDict [(''p'', pred_never), (''q'', pred_never)])) True"
  have c: "checkPredicateMasks svd_two_rows True [[0, 1], [1, 0]]
      [(''p'', [[0, 0], [0, 0]]), (''q'', [[0, 0], [0, 0]])] = Inl (PredicateAlwaysFalse ''p'')"
    by (simp add: checkPredicateMasks_def all_zero_def ravel_def)
  have "SubstitutionModel_init svd_two_rows ?args = Inl (PredicateAlwaysFalse ''p'')"
    by (simp add: SubstitutionModel_init_def two_state_inst two_state_fields rules_or_empty_def
        two_state_two_never c)
  then show ?thesis using two_state_two_never by simp
qed

lemma py_index_Inr:
  "py_index xs c = Inr k \<Longrightarrow> k < length xs \<and> xs ! k = c"
  by (auto simp: py_index_def find_Some_iff split: option.splits)

lemma py_index_Inl:
  "py_index xs c = Inl e \<Longrightarrow> e = NotInSequence \<and> c \<notin> set xs"
  by (auto simp: py_index_def find_None_iff in_set_conv_nth split: option.splits)

lemma py_index_member:
  "c \<in> set xs \<Longrightarrow> \<exists>k. py_index xs c = Inr k"
  using py_index_Inl [of xs c] by (cases "py_index xs c") auto

lemma calc_monomer_tuple_indices_Inr:
  assumes "calc_monomer_tuple_indices words L monomers = Inr ti"
  shows "length (m2w ti) = length words" and "m2w_shape1 ti = L"
    and "w < length words \<Longrightarrow> length (m2w ti ! w) = L"
    and "w < length words \<Longrightarrow> j < L \<Longrightarrow>
           j < length (words ! w) \<and> m2w ti ! w ! j < length monomers \<and>
           monomers ! (m2w ti ! w ! j) = [words ! w ! j]"
proof -
  let ?f = "\<lambda>i j. case char_at (words ! i) j of Inl e \<Rightarrow> Inl e | Inr c \<Rightarrow> py_index monomers c"
  from assms obtain t where
    t: "traverse (\<lambda>i. traverse (?f i) [0..<L]) [0..<length words] = Inr t"
    and ti: "m2w ti = t" "m2w_shape1 ti = L"
    by (auto simp: calc_monomer_tuple_indices_def Let_def split: sum.splits)
  from t have len: "length t = length words"
    and rows: "\<And>i. i < length words \<Longrightarrow> traverse (?f i) [0..<L] = Inr (t ! i)"
    by (simp_all add: traverse_Inr_iff)
  show "length (m2w ti) = length words" "m2w_shape1 ti = L"
    using len ti by simp_all
  show "length (m2w ti ! w) = L" if "w < length words"
    using rows [OF that] by (simp add: traverse_Inr_iff ti)
  show "j < length (words ! w) \<and> m2w ti ! w ! j < length monomers \<and>
           monomers ! (m2w ti ! w ! j) = [words ! w ! j]"
    if "w < length words" "j < L"
  proof -
    from rows [OF that(1)] that(2) have "?f w j = Inr (t ! w ! j)"
      by (simp add: traverse_Inr_iff)
    then show ?thesis using py_index_Inr [of monomers "[words ! w ! j]" "t ! w ! j"]
      by (auto simp: char_at_def ti split: if_splits)
  qed
qed

lemma np_take_total:
  "\<forall>k \<in> set ks. k < length a \<Longrightarrow> np_take a ks = Inr (map (\<lambda>k. a ! k) ks)"
  unfolding np_take_def by (rule traverse_total) simp

lemma map_by_index: "map f xs = map (\<lambda>w. f (xs ! w)) [0..<length xs]"
  by (rule nth_equalityI) simp_all

lemma calcWordProbs_products:
  assumes ti: "calc_monomer_tuple_indices words L monomers = Inr ti"
    and mi: "monomer_indices m = Some ti"
    and shape: "length ps = 1 \<or> length ps = L"
    and lens: "\<forall>p \<in> set ps. length monomers \<le> length p"
  shows "calcWordProbs m ps = normalise (word_products ti ps)"
proof -
  note tb = calc_monomer_tuple_indices_Inr [OF ti]
  let ?N = "length words"
  have entry: "m2w ti ! w ! j < length monomers" if "w < ?N" "j < L" for w j
    using tb(4) [OF that] by simp
  show ?thesis
  proof (cases "length ps = 1")
    case True
    then have p0: "length monomers \<le> length (ps ! 0)"
      using lens by (cases ps) auto
    have rows: "\<forall>k \<in> set row. k < length (ps ! 0)" if "row \<in> set (m2w ti)" for row
    proof -
      from that obtain w where w: "w < ?N" "row = m2w ti ! w"
        using tb(1) by (auto simp: in_set_conv_nth)
      then have "length row = L" using tb(3) by simp
      then show ?thesis using entry [OF w(1)] p0 w(2)
        by (fastforce simp: in_set_conv_nth)
    qed
    have tk: "traverse (\<lambda>row. np_take (ps ! 0) row) (m2w ti)
        = Inr (map (\<lambda>row. map (\<lambda>k. ps ! 0 ! k) row) (m2w ti))"
      by (rule traverse_total) (simp add: np_take_total rows)
    have "map prod_list (map (\<lambda>row. map (\<lambda>k. ps ! 0 ! k) row) (m2w ti)) = word_products ti ps"
      unfolding word_products_def map_map comp_def
    proof (rule map_cong [OF refl])
      fix row assume "row \<in> set (m2w ti)"
      then obtain w where w: "w < ?N" "row = m2w ti ! w"
        using tb(1) by (auto simp: in_set_conv_nth)
      then have l: "length row = L" using tb(3) by simp
      have "map (\<lambda>k. ps ! 0 ! k) row = map (\<lambda>j. ps ! 0 ! (row ! j)) [0..<L]"
        using map_by_index [of "\<lambda>k. ps ! 0 ! k" row] l by simp
      then show "prod_list (map (\<lambda>k. ps ! 0 ! k) row)
          = prod_list (map (\<lambda>j. (if length ps = 1 then ps ! 0 else ps ! j) ! (row ! j))
                         [0..<m2w_shape1 ti])"
        using True tb(2) by simp
    qed
    then show ?thesis using True by (simp add: calcWordProbs_def mi tk)
  next
    case False
    then have lp: "length ps = L" using shape by simp
    have col: "np_take (ps ! i) (map (\<lambda>row. row ! i) (m2w ti))
        = Inr (map (\<lambda>row. ps ! i ! (row ! i)) (m2w ti))" if "i < L" for i
    proof -
      have "length monomers \<le> length (ps ! i)" using lens that lp by simp
      moreover have "row ! i < length monomers" if r: "row \<in> set (m2w ti)" for row
      proof -
        from r obtain w where "w < ?N" "row = m2w ti ! w"
          using tb(1) by (auto simp: in_set_conv_nth)
        then show ?thesis using entry [OF _ \<open>i < L\<close>] by simp
      qed
      ultimately have "\<forall>k \<in> set (map (\<lambda>row. row ! i) (m2w ti)). k < length (ps ! i)"
        by fastforce
      from np_take_total [OF this] show ?thesis by (simp add: comp_def)
    qed
    have tk: "traverse (\<lambda>i. np_take (ps ! i) (map (\<lambda>row. row ! i) (m2w ti))) [0..<length ps]
        = Inr (map (\<lambda>i. map (\<lambda>row. ps ! i ! (row ! i)) (m2w ti)) [0..<length ps])"
      by (rule traverse_total) (simp add: col lp)
    have eq: "map (\<lambda>w. prod_list (map (\<lambda>col. col ! w)
              (map (\<lambda>i. map (\<lambda>row. ps ! i ! (row ! i)) (m2w ti)) [0..<length ps])))
            [0..<length (m2w ti)]
        = word_products ti ps"
    proof (rule nth_equalityI)
      show "length (map (\<lambda>w. prod_list (map (\<lambda>col. col ! w)
              (map (\<lambda>i. map (\<lambda>row. ps ! i ! (row ! i)) (m2w ti)) [0..<length ps])))
            [0..<length (m2w ti)]) = length (word_products ti ps)"
        by (simp add: word_products_def)
    next
      fix w
      assume "w < length (map (\<lambda>w. prod_list (map (\<lambda>col. col ! w)
              (map (\<lambda>i. map (\<lambda>row. ps ! i ! (row ! i)) (m2w ti)) [0..<length ps])))
            [0..<length (m2w ti)])"
      then have w: "w < length (m2w ti)" by simp
      have "map (\<lambda>col. col ! w)
              (map (\<lambda>i. map (\<lambda>row. ps ! i ! (row ! i)) (m2w ti)) [0..<length ps])
          = map (\<lambda>j. (if length ps = 1 then ps ! 0 else ps ! j) ! (m2w ti ! w ! j))
              [0..<m2w_shape1 ti]"
        using w False lp tb(2) by (simp add: comp_def)
      then show "map (\<lambda>w. prod_list (map (\<lambda>col. col ! w)
              (map (\<lambda>i. map (\<lambda>row. ps ! i ! (row ! i)) (m2w ti)) [0..<length ps])))
            [0..<length (m2w ti)] ! w = word_products ti ps ! w"
        using w by (simp add: word_products_def)
    qed
    have c: "calcWordProbs m ps =
        (case traverse (\<lambda>i. np_take (ps ! i) (map (\<lambda>row. row ! i) (m2w ti))) [0..<length ps] of
           Inl e \<Rightarrow> Inl e
         | Inr taken \<Rightarrow>
             normalise (map (\<lambda>w. prod_list (map (\<lambda>col. col ! w) taken))
                          [0..<length (m2w ti)]))"
      using False lp by (simp add: calcWordProbs_def mi tb(2))
    show ?thesis unfolding c tk by (simp only: sum.case eq)
  qed
qed

lemma init_monomer_tables:
  assumes "SubstitutionModel_init svd args = Inr (m, ws)" and "arg_use_monomer_probs args"
  shows "\<exists>ti mmi. monomer_indices m = Some ti \<and>
      calc_monomer_tuple_indices (alphabet m) (arg_motif_len args) (mprobs_alphabet m) = Inr ti \<and>
      monomer_matrix_indices m = Some mmi \<and>
      calc_monomer_matrix_indices (alphabet m) (mprobs_alphabet m) (instantaneous_mask_f m)
        = Inr mmi"
proof -
  from SubstitutionModel_init_InrD [OF assms(1)] have
    mi: "init_monomer_indices args (instantaneous_mask_f m)
        = Inr (monomer_indices m, monomer_matrix_indices m)"
    and al: "alphabet m = arg_alphabet args" "mprobs_alphabet m = arg_motif_alphabet args"
    by blast+
  from mi assms(2) show ?thesis
    by (auto simp: init_monomer_indices_def al split: if_splits sum.splits)
qed

lemma normalise_sum:
  assumes "sum_list r \<noteq> 0"
  shows "normalise r = Inr (map (\<lambda>v. v / sum_list r) r)"
    and "sum_list (map (\<lambda>v. v / sum_list r) r) = 1"
proof -
  show "normalise r = Inr (map (\<lambda>v. v / sum_list r) r)"
    using assms by (simp add: normalise_def)
  have "sum_list (map (\<lambda>v. v * inverse (sum_list r)) r) = sum_list r * inverse (sum_list r)"
    by (simp add: sum_list_mult_const)
  then show "sum_list (map (\<lambda>v. v / sum_list r) r) = 1"
    using assms by (simp add: divide_inverse)
qed

lemma normalise_constant:
  fixes c :: real
  assumes "c \<noteq> 0" and "0 < n"
  shows "normalise (replicate n c) = Inr (replicate n (1 / real n))"
proof -
  have s: "sum_list (replicate n c) = real n * c" by (simp add: sum_list_replicate)
  then have "sum_list (replicate n c) \<noteq> 0" using assms by simp
  then show ?thesis using assms by (simp add: normalise_def s map_replicate)
qed

lemma word_products_uniform:
  assumes ti: "calc_monomer_tuple_indices words L monomers = Inr ti"
    and shape: "length ps = 1 \<or> length ps = L"
    and unif: "\<forall>p \<in> set ps. p = replicate (length monomers) c"
  shows "word_products ti ps = replicate (length words) (c ^ L)"
proof -
  note tb = calc_monomer_tuple_indices_Inr [OF ti]
  have factor: "(if length ps = 1 then ps ! 0 else ps ! j) ! (m2w ti ! w ! j) = c"
    if "w < length words" "j < L" for w j
  proof -
    have "(if length ps = 1 then ps ! 0 else ps ! j) \<in> set ps"
      using shape that(2) by (cases "length ps = 1") auto
    then have "(if length ps = 1 then ps ! 0 else ps ! j) = replicate (length monomers) c"
      using unif by blast
    then show ?thesis using tb(4) [OF that] by simp
  qed
  show ?thesis
  proof (rule nth_equalityI)
    show "length (word_products ti ps) = length (replicate (length words) (c ^ L))"
      by (simp add: word_products_def tb(1))
  next
    fix w assume "w < length (word_products ti ps)"
    then have w: "w < length words" by (simp add: word_products_def tb(1))
    have "map (\<lambda>j. (if length ps = 1 then ps ! 0 else ps ! j) ! (m2w ti ! w ! j)) [0..<L]
        = replicate L c"
      by (rule nth_equalityI) (use factor [OF w] in \<open>auto split: if_splits\<close>)
    then show "word_products ti ps ! w = replicate (length words) (c ^ L) ! w"
      using w by (simp add: word_products_def tb(1,2) prod_list_replicate)
  qed
qed

lemma word_fields:
  "arg_class (word_args words) = SubstitutionModel"
  "arg_alphabet (word_args words) = words"
  "arg_motif_alphabet (word_args words) = [''a'', ''b'']"
  "arg_motif_len (word_args words) = 2"
  "arg_use_monomer_probs (word_args words) = True"
  "arg_model_gaps (word_args words) = False"
  "arg_position_specific_mprobs (word_args words) = False"
  "arg_predicates (word_args words) = None"
  "arg_scales (word_args words) = None"
  "arg_rate_matrix (word_args words) = None"
  "arg_do_scaling (word_args words) = True"
  "arg_motif_probs_error (word_args words) = None"
  "arg_with_rate (word_args words) = False"
  "arg_ordered_param (word_args words) = PNone"
  "arg_partitioned_params (word_args words) = PNone"
  "arg_distribution (word_args words) = DistNone"
  "args_env (word_args words) = \<lparr> model_class = SubstitutionModel, gapmotif = Some ''--'',
                    long_indels_are_instantaneous = True \<rparr>"
  by (simp_all add: word_args_def two_state_args_def args_env_def)

lemma sub_word_inst:
  "init_instantaneous (word_args [''aa'', ''ab'', ''ba''])
     = Inr ([[0, 1, 1], [1, 0, 0], [1, 0, 0]], [[0, 1, 1], [1, 0, 0], [1, 0, 0]], [])"
  by (simp add: init_instantaneous_def word_fields predicate2matrix_def
      predicate2matrix_entry_def isInstantaneous_def isInstantaneous_base_def isAnyIndel_def
      gapmotif_at_def ndiffs_def enumerate_eq_zip upt_conv_Cons Let_def)

lemma sub_word_tables:
  "init_monomer_indices (word_args [''aa'', ''ab'', ''ba'']) [[0, 1, 1], [1, 0, 0], [1, 0, 0]]
     = Inr (Some \<lparr> m2w = [[0, 0], [0, 1], [1, 0]], m2w_shape1 = 2,
                   w2m = [[[1, 0], [1, 0], [0, 1]], [[1, 0], [0, 1], [1, 0]]] \<rparr>,
            Some ([[0, 1, 0], [1, 0, 0], [0, 0, 0]],
                  [[0, 1, 1], [0, 0, 0], [0, 0, 0]],
                  [[0, 1, 1], [1, 0, 0], [1, 0, 0]]))"
  by (simp add: init_monomer_indices_def word_fields calc_monomer_tuple_indices_def
      calc_monomer_matrix_indices_def monomer_matrix_entry_def diff_pos_def char_at_def
      py_index_def get2_def upt_conv_Cons Let_def)

lemma redundancy_sub_word:
  "redundancyInPredicateMasks svd_two_rows [(k, [[0, 1, 1], [1, 0, 0], [1, 0, 0]])] = 0"
  by (simp add: redundancyInPredicateMasks_def mask_equations_def ravel_def svd_two_rows_def
      dot_def)

lemma sub_word_init:
  "SubstitutionModel_init svd_two_rows (word_args [''aa'', ''ab'', ''ba''])
     = Inr (sub_word_model, [])"
proof -
  let ?args = "word_args [''aa'', ''ab'', ''ba'']"
  let ?I = "[[0, 1, 1], [1, 0, 0], [1, 0, 0]] :: int matrix"
  have r: "adaptPredicates (arg_alphabet ?args) ?I (rules_or_empty (arg_predicates ?args)) = Inr []"
    by (simp add: word_fields adaptPredicates_no_rules)
  have c: "checkPredicateMasks svd_two_rows (arg_do_scaling ?args) ?I [] = Inr []"
    by (simp add: checkPredicateMasks_def redundancy_sub_word word_fields)
       (simp add: redundancyInPredicateMasks_def)
  have l: "init_indices_loop [] (isSymmetrical [[0, 1, 1], [1, 0, 0], [1, 0, 0 :: real]]) [] []
      = Inr (True, [], [])"
    by (simp add: isSymmetrical_def np_transpose_def upt_conv_Cons)
  have s: "adaptPredicates (arg_alphabet ?args) ?I (rules_or_empty (arg_scales ?args)) = Inr []"
    by (simp add: word_fields adaptPredicates_no_rules)
  have b: "init_bins (arg_ordered_param ?args) (arg_partitioned_params ?args)
      (arg_with_rate ?args) [] = Inr (False, [], [])"
    by (simp add: word_fields init_bins_none)
  have d: "init_distribution (arg_distribution ?args) = Inr MonotonicDefn"
    by (simp add: word_fields init_distribution_def)
  show ?thesis
    using SubstitutionModel_init_InrI [OF sub_word_inst r c l s sub_word_tables _ b d]
    by (simp add: word_fields sub_word_model_def np_identity_def upt_conv_Cons)
qed

section \<open>Word probabilities\<close>

text \<open>
  Claim C5, amended. For a constructed model that uses monomer probabilities, and one
  shared probability vector or one vector for each position of the words,
  \<^verbatim>\<open>calcWordProbs\<close> takes for each word the product over its positions of the
  probability of the monomer there and divides by the sum over the words: when that sum
  is not zero the result sums to 1, and when it is zero the result is not a number. With
  uniform monomer probabilities every word has probability one over the number of words,
  which is \<open>1 / M ^ L\<close> when the alphabet has all \<open>M ^ L\<close> words.
\<close>

theorem calcWordProbs_normalised_products:
  assumes init: "SubstitutionModel_init svd args = Inr (m, ws)"
    and use: "arg_use_monomer_probs args"
    and shape: "length ps = 1 \<or> length ps = arg_motif_len args"
    and lens: "list_all (\<lambda>p. length p = length (mprobs_alphabet m)) ps"
  shows "\<exists>ti. monomer_indices m = Some ti \<and> length (m2w ti) = length (alphabet m) \<and>
      m2w_shape1 ti = arg_motif_len args \<and>
      (\<forall>w<length (alphabet m). \<forall>j<arg_motif_len args.
         m2w ti ! w ! j < length (mprobs_alphabet m) \<and>
         mprobs_alphabet m ! (m2w ti ! w ! j) = [alphabet m ! w ! j]) \<and>
      calcWordProbs m ps = normalise (word_products ti ps) \<and>
      (sum_list (word_products ti ps) \<noteq> 0 \<longrightarrow>
         (\<exists>r. calcWordProbs m ps = Inr r \<and> length r = length (alphabet m) \<and> sum_list r = 1 \<and>
            (\<forall>w<length (alphabet m).
               r ! w = word_products ti ps ! w / sum_list (word_products ti ps)))) \<and>
      (sum_list (word_products ti ps) = 0 \<and> alphabet m \<noteq> [] \<longrightarrow>
         calcWordProbs m ps = Inl DivisionByZero) \<and>
      (alphabet m \<noteq> [] \<and> mprobs_alphabet m \<noteq> [] \<and>
       list_all (\<lambda>p. p = replicate (length (mprobs_alphabet m))
                            (1 / real (length (mprobs_alphabet m)))) ps \<longrightarrow>
         calcWordProbs m ps
           = Inr (replicate (length (alphabet m)) (1 / real (length (alphabet m)))) \<and>
         (length (alphabet m) = length (mprobs_alphabet m) ^ arg_motif_len args \<longrightarrow>
            calcWordProbs m ps
              = Inr (replicate (length (alphabet m))
                       (1 / real (length (mprobs_alphabet m)) ^ arg_motif_len args))))"
proof -
  let ?N = "length (alphabet m)" and ?M = "length (mprobs_alphabet m)"
    and ?L = "arg_motif_len args"
  from init_monomer_tables [OF init use] obtain ti where
    mi: "monomer_indices m = Some ti"
    and ti: "calc_monomer_tuple_indices (alphabet m) ?L (mprobs_alphabet m) = Inr ti"
    by blast
  note tb = calc_monomer_tuple_indices_Inr [OF ti]
  have lens': "\<forall>p \<in> set ps. length (mprobs_alphabet m) \<le> length p"
    using lens by (simp add: list_all_iff)
  have cw: "calcWordProbs m ps = normalise (word_products ti ps)"
    using calcWordProbs_products [OF ti mi shape lens'] .
  have lw: "length (word_products ti ps) = ?N"
    by (simp add: word_products_def tb(1))
  have nz: "sum_list (word_products ti ps) \<noteq> 0 \<longrightarrow>
         (\<exists>r. calcWordProbs m ps = Inr r \<and> length r = ?N \<and> sum_list r = 1 \<and>
            (\<forall>w<?N. r ! w = word_products ti ps ! w / sum_list (word_products ti ps)))"
  proof
    assume s: "sum_list (word_products ti ps) \<noteq> 0"
    let ?r = "map (\<lambda>v. v / sum_list (word_products ti ps)) (word_products ti ps)"
    have "calcWordProbs m ps = Inr ?r" "sum_list ?r = 1"
      using normalise_sum [OF s] cw by simp_all
    moreover have "length ?r = ?N" using lw by simp
    moreover have "\<forall>w<?N. ?r ! w = word_products ti ps ! w / sum_list (word_products ti ps)"
      using lw by simp
    ultimately show "\<exists>r. calcWordProbs m ps = Inr r \<and> length r = ?N \<and> sum_list r = 1 \<and>
            (\<forall>w<?N. r ! w = word_products ti ps ! w / sum_list (word_products ti ps))"
      by blast
  qed
  have zero: "sum_list (word_products ti ps) = 0 \<and> alphabet m \<noteq> [] \<longrightarrow>
         calcWordProbs m ps = Inl DivisionByZero"
    using lw by (auto simp: cw normalise_def)
  have unif: "alphabet m \<noteq> [] \<and> mprobs_alphabet m \<noteq> [] \<and>
       list_all (\<lambda>p. p = replicate ?M (1 / real ?M)) ps \<longrightarrow>
         calcWordProbs m ps = Inr (replicate ?N (1 / real ?N)) \<and>
         (?N = ?M ^ ?L \<longrightarrow>
            calcWordProbs m ps = Inr (replicate ?N (1 / real ?M ^ ?L)))"
  proof
    assume a: "alphabet m \<noteq> [] \<and> mprobs_alphabet m \<noteq> [] \<and>
       list_all (\<lambda>p. p = replicate ?M (1 / real ?M)) ps"
    then have u: "\<forall>p \<in> set ps. p = replicate ?M (1 / real ?M)"
      by (simp add: list_all_iff)
    have wp: "word_products ti ps = replicate ?N ((1 / real ?M) ^ ?L)"
      using word_products_uniform [OF ti shape u] .
    have c: "(1 / real ?M) ^ ?L \<noteq> 0" using a by simp
    have n: "0 < ?N" using a by simp
    have r: "calcWordProbs m ps = Inr (replicate ?N (1 / real ?N))"
      unfolding cw wp using normalise_constant [OF c n] .
    moreover have "calcWordProbs m ps = Inr (replicate ?N (1 / real ?M ^ ?L))" if "?N = ?M ^ ?L"
      using r that by (simp add: power_one_over)
    ultimately show "calcWordProbs m ps = Inr (replicate ?N (1 / real ?N)) \<and>
         (?N = ?M ^ ?L \<longrightarrow>
            calcWordProbs m ps = Inr (replicate ?N (1 / real ?M ^ ?L)))"
      by blast
  qed
  show ?thesis using mi tb(1,2) tb(4) cw nz zero unif by blast
qed

lemma sqrt_8_above: "1 / 2 \<le> sqrt 8"
proof -
  have "sqrt (1 / 4) \<le> sqrt 8" by (rule real_sqrt_le_mono) simp
  then show ?thesis unfolding sqrt_quarter .
qed

lemma redundancy_full_word:
  "redundancyInPredicateMasks svd_two_rows
     [(k, [[0, 1, 1, 0], [1, 0, 0, 1], [1, 0, 0, 1], [0, 1, 1, 0]])] = 0"
  using above_tolerance [OF sqrt_8_above]
  by (simp add: redundancyInPredicateMasks_def mask_equations_def ravel_def svd_two_rows_def
      dot_def)

lemma full_word_inst:
  "init_instantaneous (word_args [''aa'', ''ab'', ''ba'', ''bb''])
     = Inr ([[0, 1, 1, 0], [1, 0, 0, 1], [1, 0, 0, 1], [0, 1, 1, 0]],
            [[0, 1, 1, 0], [1, 0, 0, 1], [1, 0, 0, 1], [0, 1, 1, 0]], [])"
  by (simp add: init_instantaneous_def word_fields predicate2matrix_def
      predicate2matrix_entry_def isInstantaneous_def isInstantaneous_base_def isAnyIndel_def
      gapmotif_at_def ndiffs_def enumerate_eq_zip upt_conv_Cons Let_def)

lemma full_word_tables:
  "init_monomer_indices (word_args [''aa'', ''ab'', ''ba'', ''bb''])
       [[0, 1, 1, 0], [1, 0, 0, 1], [1, 0, 0, 1], [0, 1, 1, 0]]
     = Inr (Some \<lparr> m2w = [[0, 0], [0, 1], [1, 0], [1, 1]], m2w_shape1 = 2,
                   w2m = [[[1, 0], [1, 0], [0, 1], [0, 1]],
                          [[1, 0], [0, 1], [1, 0], [0, 1]]] \<rparr>,
            Some ([[0, 1, 0, 0], [1, 0, 0, 0], [0, 0, 0, 1], [0, 0, 1, 0]],
                  [[0, 1, 1, 0], [0, 0, 0, 1], [0, 0, 0, 1], [0, 0, 0, 0]],
                  [[0, 1, 1, 0], [1, 0, 0, 1], [1, 0, 0, 1], [0, 1, 1, 0]]))"
  by (simp add: init_monomer_indices_def word_fields calc_monomer_tuple_indices_def
      calc_monomer_matrix_indices_def monomer_matrix_entry_def diff_pos_def char_at_def
      py_index_def get2_def upt_conv_Cons Let_def)

lemma full_word_init:
  "\<exists>m. SubstitutionModel_init svd_two_rows (word_args [''aa'', ''ab'', ''ba'', ''bb''])
         = Inr (m, []) \<and>
       alphabet m = [''aa'', ''ab'', ''ba'', ''bb''] \<and> mprobs_alphabet m = [''a'', ''b''] \<and>
       instantaneous_mask_f m = [[0, 1, 1, 0], [1, 0, 0, 1], [1, 0, 0, 1], [0, 1, 1, 0]] \<and>
       monomer_matrix_indices m
         = Some ([[0, 1, 0, 0], [1, 0, 0, 0], [0, 0, 0, 1], [0, 0, 1, 0]],
                 [[0, 1, 1, 0], [0, 0, 0, 1], [0, 0, 0, 1], [0, 0, 0, 0]],
                 [[0, 1, 1, 0], [1, 0, 0, 1], [1, 0, 0, 1], [0, 1, 1, 0]])"
proof -
  let ?args = "word_args [''aa'', ''ab'', ''ba'', ''bb'']"
  let ?I = "[[0, 1, 1, 0], [1, 0, 0, 1], [1, 0, 0, 1], [0, 1, 1, 0]] :: int matrix"
  have r: "adaptPredicates (arg_alphabet ?args) ?I (rules_or_empty (arg_predicates ?args)) = Inr []"
    by (simp add: word_fields adaptPredicates_no_rules)
  have c: "checkPredicateMasks svd_two_rows (arg_do_scaling ?args) ?I [] = Inr []"
    by (simp add: checkPredicateMasks_def redundancy_full_word word_fields)
       (simp add: redundancyInPredicateMasks_def)
  have l: "init_indices_loop []
      (isSymmetrical [[0, 1, 1, 0], [1, 0, 0, 1], [1, 0, 0, 1], [0, 1, 1, 0 :: real]]) [] []
      = Inr (True, [], [])"
    by (simp add: isSymmetrical_def np_transpose_def upt_conv_Cons)
  have s: "adaptPredicates (arg_alphabet ?args) ?I (rules_or_empty (arg_scales ?args)) = Inr []"
    by (simp add: word_fields adaptPredicates_no_rules)
  have b: "init_bins (arg_ordered_param ?args) (arg_partitioned_params ?args)
      (arg_with_rate ?args) [] = Inr (False, [], [])"
    by (simp add: word_fields init_bins_none)
  have d: "init_distribution (arg_distribution ?args) = Inr MonotonicDefn"
    by (simp add: word_fields init_distribution_def)
  show ?thesis
    using SubstitutionModel_init_InrI [OF full_word_inst r c l s full_word_tables _ b d]
    by (simp add: word_fields)
qed

theorem calcWordProbs_normalised_products_witness:
  "SubstitutionModel_init svd_two_rows (word_args [''aa'', ''ab'', ''ba''])
     = Inr (sub_word_model, []) \<and>
   arg_use_monomer_probs (word_args [''aa'', ''ab'', ''ba'']) \<and>
   length [[1 / 4, 3 / 4 :: real]] = 1 \<and>
   list_all (\<lambda>p. length p = length (mprobs_alphabet sub_word_model)) [[1 / 4, 3 / 4 :: real]] \<and>
   calcWordProbs sub_word_model [[1 / 4, 3 / 4]] = Inr [1 / 7, 3 / 7, 3 / 7] \<and>
   calcWordProbs sub_word_model [[1 / 4, 3 / 4], [1 / 2, 1 / 2]] = Inr [1 / 5, 1 / 5, 3 / 5] \<and>
   calcWordProbs sub_word_model [[1 / 2, 1 / 2]] = Inr [1 / 3, 1 / 3, 1 / 3] \<and>
   (\<exists>m. SubstitutionModel_init svd_two_rows (word_args [''aa'', ''ab'', ''ba'', ''bb''])
          = Inr (m, []) \<and>
        calcWordProbs m [[1 / 2, 1 / 2]] = Inr [1 / 2 ^ 2, 1 / 2 ^ 2, 1 / 2 ^ 2, 1 / 2 ^ 2])"
proof -
  let ?args = "word_args [''aa'', ''ab'', ''ba'']"
  note i = sub_word_init
  have u: "arg_use_monomer_probs ?args" by (simp add: word_fields)
  have mi: "monomer_indices sub_word_model
      = Some \<lparr> m2w = [[0, 0], [0, 1], [1, 0]], m2w_shape1 = 2,
               w2m = [[[1, 0], [1, 0], [0, 1]], [[1, 0], [0, 1], [1, 0]]] \<rparr>"
    and ma: "mprobs_alphabet sub_word_model = [''a'', ''b'']"
    and al: "alphabet sub_word_model = [''aa'', ''ab'', ''ba'']"
    by (simp_all add: sub_word_model_def)
  have l1: "list_all (\<lambda>p. length p = length (mprobs_alphabet sub_word_model)) [[1 / 4, 3 / 4 :: real]]"
    by (simp add: ma)
  have a: "calcWordProbs sub_word_model [[1 / 4, 3 / 4]] = Inr [1 / 7, 3 / 7, 3 / 7]"
    using calcWordProbs_normalised_products [OF i u _ l1]
    by (auto simp: mi word_fields word_products_def normalise_def upt_conv_Cons)
  have l2: "list_all (\<lambda>p. length p = length (mprobs_alphabet sub_word_model))
      [[1 / 4, 3 / 4 :: real], [1 / 2, 1 / 2]]"
    by (simp add: ma)
  have b: "calcWordProbs sub_word_model [[1 / 4, 3 / 4], [1 / 2, 1 / 2]] = Inr [1 / 5, 1 / 5, 3 / 5]"
    using calcWordProbs_normalised_products [OF i u _ l2]
    by (auto simp: mi word_fields word_products_def normalise_def upt_conv_Cons)
  have l3: "list_all (\<lambda>p. length p = length (mprobs_alphabet sub_word_model)) [[1 / 2, 1 / 2 :: real]]"
    by (simp add: ma)
  have c: "calcWordProbs sub_word_model [[1 / 2, 1 / 2]] = Inr [1 / 3, 1 / 3, 1 / 3]"
    using calcWordProbs_normalised_products [OF i u _ l3]
    by (auto simp: mi ma al word_fields numeral_eq_Suc)
  obtain m where m: "SubstitutionModel_init svd_two_rows
      (word_args [''aa'', ''ab'', ''ba'', ''bb'']) = Inr (m, [])"
    and fa: "alphabet m = [''aa'', ''ab'', ''ba'', ''bb'']" "mprobs_alphabet m = [''a'', ''b'']"
    using full_word_init by blast
  have uf: "arg_use_monomer_probs (word_args [''aa'', ''ab'', ''ba'', ''bb''])"
    by (simp add: word_fields)
  have l4: "list_all (\<lambda>p. length p = length (mprobs_alphabet m)) [[1 / 2, 1 / 2 :: real]]"
    by (simp add: fa)
  have d: "calcWordProbs m [[1 / 2, 1 / 2]] = Inr [1 / 2 ^ 2, 1 / 2 ^ 2, 1 / 2 ^ 2, 1 / 2 ^ 2]"
    using calcWordProbs_normalised_products [OF m uf _ l4]
    by (auto simp: fa word_fields numeral_eq_Suc)
  show ?thesis using i u l1 a b c m d by auto
qed

theorem uniform_word_probability_counterexample:
  "SubstitutionModel_init svd_two_rows (word_args [''aa'', ''ab'', ''ba''])
     = Inr (sub_word_model, []) \<and>
   alphabet sub_word_model = [''aa'', ''ab'', ''ba''] \<and>
   mprobs_alphabet sub_word_model = [''a'', ''b''] \<and>
   calcWordProbs sub_word_model [[1 / 2, 1 / 2]] = Inr [1 / 3, 1 / 3, 1 / 3] \<and>
   (1 / 3 :: real) \<noteq> 1 / 2 ^ 2"
proof -
  have "calcWordProbs sub_word_model [[1 / 2, 1 / 2]] = Inr [1 / 3, 1 / 3, 1 / 3]"
    by (simp add: calcWordProbs_def sub_word_model_def np_take_def normalise_def)
  then show ?thesis using sub_word_init by (simp add: sub_word_model_def)
qed

lemma diff_pos_Inr:
  "diff_pos x y = Inr ds \<Longrightarrow> length x \<le> length y \<and> ds = filter (\<lambda>i. x ! i \<noteq> y ! i) [0..<length x]"
  by (auto simp: diff_pos_def split: if_splits)

lemma diff_pos_single:
  assumes "diff_pos x y = Inr [p]"
  shows "p < length x" and "p < length y" and "x ! p \<noteq> y ! p"
proof -
  from diff_pos_Inr [OF assms] have l: "length x \<le> length y"
    and f: "[p] = filter (\<lambda>i. x ! i \<noteq> y ! i) [0..<length x]" by simp_all
  have "p \<in> set (filter (\<lambda>i. x ! i \<noteq> y ! i) [0..<length x])"
    unfolding f [symmetric] by simp
  then show "p < length x" "x ! p \<noteq> y ! p" by simp_all
  then show "p < length y" using l by simp
qed

lemma monomer_matrix_entry_Inr:
  assumes "monomer_matrix_entry words monomers mk i j = Inr (p, k)"
    and "i < length mk" and "j < length (mk ! i)"
  shows "mk ! i ! j = 0 \<Longrightarrow> p = 0 \<and> k = 0"
    and "mk ! i ! j \<noteq> 0 \<Longrightarrow>
           mk ! i ! j = 1 \<and> diff_pos (words ! i) (words ! j) = Inr [p] \<and>
           k < length monomers \<and> monomers ! k = [words ! j ! p]"
proof -
  show "p = 0 \<and> k = 0" if "mk ! i ! j = 0"
    using assms that by (simp add: monomer_matrix_entry_def get2_def Let_def)
  show "mk ! i ! j = 1 \<and> diff_pos (words ! i) (words ! j) = Inr [p] \<and>
           k < length monomers \<and> monomers ! k = [words ! j ! p]"
    if nz: "mk ! i ! j \<noteq> 0"
  proof -
    from assms nz have one: "mk ! i ! j = 1"
      by (auto simp: monomer_matrix_entry_def get2_def Let_def split: if_splits)
    from assms nz one obtain ds where ds: "diff_pos (words ! i) (words ! j) = Inr ds"
      "length ds = 1"
      and rest: "(case char_at (words ! j) (ds ! 0) of
                    Inl e \<Rightarrow> Inl e
                  | Inr c \<Rightarrow> (case py_index monomers c of
                                Inl e \<Rightarrow> Inl e | Inr k' \<Rightarrow> Inr (ds ! 0, k'))) = Inr (p, k)"
      by (auto simp: monomer_matrix_entry_def get2_def Let_def split: if_splits sum.splits)
    from ds(2) obtain q where q: "ds = [q]" by (cases ds) auto
    from rest obtain c where c: "char_at (words ! j) q = Inr c" "py_index monomers c = Inr k"
      "p = q"
      by (auto simp: q split: sum.splits)
    from c(1) have "c = [words ! j ! q]" by (auto simp: char_at_def split: if_splits)
    with py_index_Inr [OF c(2)] one ds(1) q c(3) show ?thesis by simp
  qed
qed

lemma calc_monomer_matrix_indices_Inr:
  assumes "calc_monomer_matrix_indices words monomers mk = Inr (posn, motif, mk')"
  shows "mk' = mk" and "square (length words) posn" and "square (length words) motif"
    and "i < length words \<Longrightarrow> j < length words \<Longrightarrow>
           monomer_matrix_entry words monomers mk i j = Inr (posn ! i ! j, motif ! i ! j)"
proof -
  let ?N = "length words"
  from assms obtain t where
    t: "traverse (\<lambda>i. traverse (\<lambda>j. monomer_matrix_entry words monomers mk i j) [0..<?N])
          [0..<?N] = Inr t"
    and r: "posn = map (map fst) t" "motif = map (map snd) t" "mk' = mk"
    by (auto simp: calc_monomer_matrix_indices_def Let_def split: sum.splits)
  from t have len: "length t = ?N"
    and rows: "\<And>i. i < ?N \<Longrightarrow>
      traverse (\<lambda>j. monomer_matrix_entry words monomers mk i j) [0..<?N] = Inr (t ! i)"
    by (simp_all add: traverse_Inr_iff)
  have row: "length (t ! i) = ?N \<and>
      (\<forall>j<?N. monomer_matrix_entry words monomers mk i j = Inr (t ! i ! j))" if "i < ?N" for i
    using rows [OF that] by (simp add: traverse_Inr_iff)
  show "mk' = mk" by (rule r(3))
  show "square ?N posn" "square ?N motif"
    using len row by (simp_all add: square_def list_all_length r)
  show "monomer_matrix_entry words monomers mk i j = Inr (posn ! i ! j, motif ! i ! j)"
    if "i < ?N" "j < ?N"
    using row [OF that(1)] that len by (simp add: r)
qed

lemma singleton_list: "length xs = 1 \<Longrightarrow> \<exists>q. xs = [q]"
  by (cases xs) simp_all

lemma monomer_matrix_entry_Inl:
  assumes "monomer_matrix_entry words monomers mk i j = Inl e"
    and "i < length mk" and "j < length (mk ! i)"
    and "length (words ! i) = length (words ! j)"
    and "\<forall>c \<in> set (words ! j). [c] \<in> set monomers"
  shows "e = AssertionError"
proof -
  define ds where "ds = filter (\<lambda>q. words ! i ! q \<noteq> words ! j ! q) [0..<length (words ! i)]"
  have dp: "diff_pos (words ! i) (words ! j) = Inr ds"
    using assms(4) by (simp add: diff_pos_def ds_def)
  have g: "get2 mk i j = Inr (mk ! i ! j)"
    using assms(2,3) by (simp add: get2_def)
  have u: "monomer_matrix_entry words monomers mk i j =
      (if mk ! i ! j \<noteq> 0 then
         if mk ! i ! j \<noteq> 1 then Inl AssertionError
         else if length ds \<noteq> 1 then Inl AssertionError
         else (case char_at (words ! j) (ds ! 0) of
                 Inl e \<Rightarrow> Inl e
               | Inr c \<Rightarrow> (case py_index monomers c of
                             Inl e \<Rightarrow> Inl e | Inr k \<Rightarrow> Inr (ds ! 0, k)))
       else Inr (0, 0))"
    unfolding monomer_matrix_entry_def Let_def g dp by simp
  show ?thesis
  proof (cases "mk ! i ! j \<noteq> 0 \<and> mk ! i ! j = 1 \<and> length ds = 1")
    case True
    then obtain q where q: "ds = [q]" using singleton_list by blast
    from diff_pos_single(2) [OF dp [unfolded q]] have ql: "q < length (words ! j)" .
    then have "[words ! j ! q] \<in> set monomers" using assms(5) by simp
    from py_index_member [OF this] obtain k where k: "py_index monomers [words ! j ! q] = Inr k" ..
    have c: "char_at (words ! j) q = Inr [words ! j ! q]"
      using ql by (simp add: char_at_def)
    have "monomer_matrix_entry words monomers mk i j = Inr (q, k)"
      unfolding u q using True by (simp add: c k)
    then show ?thesis using assms(1) by simp
  next
    case False
    then have "monomer_matrix_entry words monomers mk i j = Inl AssertionError \<or>
        monomer_matrix_entry words monomers mk i j = Inr (0, 0)"
      unfolding u by (cases "mk ! i ! j = 0") simp_all
    then show ?thesis using assms(1) by auto
  qed
qed

lemma calc_monomer_matrix_indices_Inl:
  assumes "calc_monomer_matrix_indices words monomers mk = Inl e"
    and "square (length words) mk"
    and "\<forall>w \<in> set words. length w = L"
    and "\<forall>w \<in> set words. \<forall>c \<in> set w. [c] \<in> set monomers"
  shows "e = AssertionError"
proof -
  let ?N = "length words"
  from assms(1) have "traverse (\<lambda>i. traverse (\<lambda>j.
      monomer_matrix_entry words monomers mk i j) [0..<?N]) [0..<?N] = Inl e"
    by (auto simp: calc_monomer_matrix_indices_def Let_def split: sum.splits)
  from traverse_Inl [OF this] obtain i where i: "i < ?N"
    and "traverse (\<lambda>j. monomer_matrix_entry words monomers mk i j) [0..<?N] = Inl e"
    by auto
  from traverse_Inl [OF this(2)] obtain j where j: "j < ?N"
    and en: "monomer_matrix_entry words monomers mk i j = Inl e"
    by auto
  have "i < length mk" "j < length (mk ! i)"
    using assms(2) i j by (simp_all add: square_length squareD)
  moreover have "length (words ! i) = length (words ! j)"
    using assms(3) i j by simp
  moreover have "\<forall>c \<in> set (words ! j). [c] \<in> set monomers"
    using assms(4) j nth_mem by blast
  ultimately show ?thesis using monomer_matrix_entry_Inl [OF en] by blast
qed

section \<open>The monomer matrix indices\<close>

text \<open>
  Claim C7. When \<^verbatim>\<open>_calc_monomer_matrix_indices\<close> returns, every pair the mask flags
  has the value 1 in the mask and differs in exactly one position, which is recorded with
  the index of the monomer the new word has there; every other pair has 0 in both tables.
  So the entries of the two tables are in range for the gathers on the monomer
  probabilities. When a flagged pair differs in no or in several positions the function
  raises, and the exception is the failed assertion when the words have one length and
  all their characters are monomers. A constructed model that uses monomer
  probabilities has tables that the function returned for its float instantaneous mask.
\<close>

theorem calc_monomer_matrix_indices_single_difference:
  assumes sq: "square (length words) mk"
  shows
    "(\<forall>posn motif mk'.
        calc_monomer_matrix_indices words monomers mk = Inr (posn, motif, mk') \<longrightarrow>
        mk' = mk \<and> square (length words) posn \<and> square (length words) motif \<and>
        (\<forall>i<length words. \<forall>j<length words.
           (mk ! i ! j = 0 \<longrightarrow> posn ! i ! j = 0 \<and> motif ! i ! j = 0) \<and>
           (mk ! i ! j \<noteq> 0 \<longrightarrow>
              mk ! i ! j = 1 \<and>
              diff_pos (words ! i) (words ! j) = Inr [posn ! i ! j] \<and>
              monomers ! (motif ! i ! j) = [words ! j ! (posn ! i ! j)]) \<and>
           (monomers \<noteq> [] \<longrightarrow> motif ! i ! j < length monomers) \<and>
           (words ! i \<noteq> [] \<longrightarrow> posn ! i ! j < length (words ! i)))) \<and>
     ((\<exists>i<length words. \<exists>j<length words.
          mk ! i ! j \<noteq> 0 \<and> (\<forall>p. diff_pos (words ! i) (words ! j) \<noteq> Inr [p])) \<longrightarrow>
        (\<exists>e. calc_monomer_matrix_indices words monomers mk = Inl e) \<and>
        ((\<exists>L. list_all (\<lambda>w. length w = L) words) \<and>
         list_all (\<lambda>w. list_all (\<lambda>c. [c] \<in> set monomers) w) words \<longrightarrow>
           calc_monomer_matrix_indices words monomers mk = Inl AssertionError)) \<and>
     (\<forall>svd args m ws.
        SubstitutionModel_init svd args = Inr (m, ws) \<and> arg_use_monomer_probs args \<longrightarrow>
        (\<exists>posn motif.
           monomer_matrix_indices m = Some (posn, motif, instantaneous_mask_f m) \<and>
           calc_monomer_matrix_indices (alphabet m) (mprobs_alphabet m) (instantaneous_mask_f m)
             = Inr (posn, motif, instantaneous_mask_f m)))"
proof -
  let ?N = "length words"
  have ok: "\<forall>posn motif mk'.
        calc_monomer_matrix_indices words monomers mk = Inr (posn, motif, mk') \<longrightarrow>
        mk' = mk \<and> square ?N posn \<and> square ?N motif \<and>
        (\<forall>i<?N. \<forall>j<?N.
           (mk ! i ! j = 0 \<longrightarrow> posn ! i ! j = 0 \<and> motif ! i ! j = 0) \<and>
           (mk ! i ! j \<noteq> 0 \<longrightarrow>
              mk ! i ! j = 1 \<and>
              diff_pos (words ! i) (words ! j) = Inr [posn ! i ! j] \<and>
              monomers ! (motif ! i ! j) = [words ! j ! (posn ! i ! j)]) \<and>
           (monomers \<noteq> [] \<longrightarrow> motif ! i ! j < length monomers) \<and>
           (words ! i \<noteq> [] \<longrightarrow> posn ! i ! j < length (words ! i)))"
  proof (intro allI impI)
    fix posn motif mk'
    assume c: "calc_monomer_matrix_indices words monomers mk = Inr (posn, motif, mk')"
    note r = calc_monomer_matrix_indices_Inr [OF c]
    have e: "(mk ! i ! j = 0 \<longrightarrow> posn ! i ! j = 0 \<and> motif ! i ! j = 0) \<and>
           (mk ! i ! j \<noteq> 0 \<longrightarrow>
              mk ! i ! j = 1 \<and>
              diff_pos (words ! i) (words ! j) = Inr [posn ! i ! j] \<and>
              monomers ! (motif ! i ! j) = [words ! j ! (posn ! i ! j)]) \<and>
           (monomers \<noteq> [] \<longrightarrow> motif ! i ! j < length monomers) \<and>
           (words ! i \<noteq> [] \<longrightarrow> posn ! i ! j < length (words ! i))"
      if ij: "i < ?N" "j < ?N" for i j
    proof -
      have b: "i < length mk" "j < length (mk ! i)"
        using sq ij by (simp_all add: square_length squareD)
      note en = monomer_matrix_entry_Inr [OF r(4) [OF ij] b]
      show ?thesis
      proof (cases "mk ! i ! j = 0")
        case True
        then show ?thesis using en(1) by simp
      next
        case False
        from en(2) [OF False] diff_pos_single(1) [of "words ! i" "words ! j" "posn ! i ! j"]
        show ?thesis using False by simp
      qed
    qed
    show "mk' = mk \<and> square ?N posn \<and> square ?N motif \<and>
        (\<forall>i<?N. \<forall>j<?N.
           (mk ! i ! j = 0 \<longrightarrow> posn ! i ! j = 0 \<and> motif ! i ! j = 0) \<and>
           (mk ! i ! j \<noteq> 0 \<longrightarrow>
              mk ! i ! j = 1 \<and>
              diff_pos (words ! i) (words ! j) = Inr [posn ! i ! j] \<and>
              monomers ! (motif ! i ! j) = [words ! j ! (posn ! i ! j)]) \<and>
           (monomers \<noteq> [] \<longrightarrow> motif ! i ! j < length monomers) \<and>
           (words ! i \<noteq> [] \<longrightarrow> posn ! i ! j < length (words ! i)))"
      using r(1-3) e by (intro conjI allI impI) simp_all
  qed
  have abort: "(\<exists>i<?N. \<exists>j<?N.
          mk ! i ! j \<noteq> 0 \<and> (\<forall>p. diff_pos (words ! i) (words ! j) \<noteq> Inr [p])) \<longrightarrow>
        (\<exists>e. calc_monomer_matrix_indices words monomers mk = Inl e) \<and>
        ((\<exists>L. list_all (\<lambda>w. length w = L) words) \<and>
         list_all (\<lambda>w. list_all (\<lambda>c. [c] \<in> set monomers) w) words \<longrightarrow>
           calc_monomer_matrix_indices words monomers mk = Inl AssertionError)"
  proof
    assume bad: "\<exists>i<?N. \<exists>j<?N.
          mk ! i ! j \<noteq> 0 \<and> (\<forall>p. diff_pos (words ! i) (words ! j) \<noteq> Inr [p])"
    have "calc_monomer_matrix_indices words monomers mk \<noteq> Inr t" for t
    proof
      assume "calc_monomer_matrix_indices words monomers mk = Inr t"
      then obtain posn motif mk' where
        "calc_monomer_matrix_indices words monomers mk = Inr (posn, motif, mk')"
        by (cases t) auto
      with ok have "\<forall>i<?N. \<forall>j<?N. mk ! i ! j \<noteq> 0 \<longrightarrow>
          diff_pos (words ! i) (words ! j) = Inr [posn ! i ! j]"
        by simp
      with bad show False by blast
    qed
    then obtain e where e: "calc_monomer_matrix_indices words monomers mk = Inl e"
      by (cases "calc_monomer_matrix_indices words monomers mk") auto
    have "e = AssertionError"
      if "(\<exists>L. list_all (\<lambda>w. length w = L) words) \<and>
         list_all (\<lambda>w. list_all (\<lambda>c. [c] \<in> set monomers) w) words"
    proof -
      from that obtain L where "\<forall>w \<in> set words. length w = L"
        and "\<forall>w \<in> set words. \<forall>c \<in> set w. [c] \<in> set monomers"
        by (auto simp: list_all_iff)
      from calc_monomer_matrix_indices_Inl [OF e sq this] show ?thesis .
    qed
    with e show "(\<exists>e. calc_monomer_matrix_indices words monomers mk = Inl e) \<and>
        ((\<exists>L. list_all (\<lambda>w. length w = L) words) \<and>
         list_all (\<lambda>w. list_all (\<lambda>c. [c] \<in> set monomers) w) words \<longrightarrow>
           calc_monomer_matrix_indices words monomers mk = Inl AssertionError)"
      by blast
  qed
  have built: "\<forall>svd args m ws.
        SubstitutionModel_init svd args = Inr (m, ws) \<and> arg_use_monomer_probs args \<longrightarrow>
        (\<exists>posn motif.
           monomer_matrix_indices m = Some (posn, motif, instantaneous_mask_f m) \<and>
           calc_monomer_matrix_indices (alphabet m) (mprobs_alphabet m) (instantaneous_mask_f m)
             = Inr (posn, motif, instantaneous_mask_f m))"
  proof (intro allI impI)
    fix svd :: svd_routine and args :: init_args and m :: model and ws :: "warning list"
    assume that: "SubstitutionModel_init svd args = Inr (m, ws) \<and> arg_use_monomer_probs args"
    from that init_monomer_tables [of svd args m ws] obtain mmi where
      mmi: "monomer_matrix_indices m = Some mmi"
      "calc_monomer_matrix_indices (alphabet m) (mprobs_alphabet m) (instantaneous_mask_f m)
        = Inr mmi"
      by blast
    obtain posn motif mk' where p: "mmi = (posn, motif, mk')" by (cases mmi) auto
    from calc_monomer_matrix_indices_Inr(1) [OF mmi(2) [unfolded p]] mmi p
    show "\<exists>posn motif.
           monomer_matrix_indices m = Some (posn, motif, instantaneous_mask_f m) \<and>
           calc_monomer_matrix_indices (alphabet m) (mprobs_alphabet m) (instantaneous_mask_f m)
             = Inr (posn, motif, instantaneous_mask_f m)"
      by simp
  qed
  from ok abort built show ?thesis by (intro conjI)
qed

lemma sub_word_matrix_indices:
  "calc_monomer_matrix_indices [''aa'', ''ab'', ''ba''] [''a'', ''b'']
       [[0, 1, 1], [1, 0, 0], [1, 0, 0]]
     = Inr ([[0, 1, 0], [1, 0, 0], [0, 0, 0]],
            [[0, 1, 1], [0, 0, 0], [0, 0, 0]],
            [[0, 1, 1], [1, 0, 0], [1, 0, 0]])"
  by (simp add: calc_monomer_matrix_indices_def monomer_matrix_entry_def diff_pos_def
      char_at_def py_index_def get2_def upt_conv_Cons Let_def)

theorem calc_monomer_matrix_indices_single_difference_witness:
  "square (length [''aa'', ''ab'', ''ba'']) [[0, 1, 1], [1, 0, 0], [1, 0, 0 :: real]] \<and>
   calc_monomer_matrix_indices [''aa'', ''ab'', ''ba''] [''a'', ''b'']
       [[0, 1, 1], [1, 0, 0], [1, 0, 0]]
     = Inr ([[0, 1, 0], [1, 0, 0], [0, 0, 0]],
            [[0, 1, 1], [0, 0, 0], [0, 0, 0]],
            [[0, 1, 1], [1, 0, 0], [1, 0, 0]]) \<and>
   diff_pos ''aa'' ''ab'' = Inr [[[0, 1, 0], [1, 0, 0], [0, 0, 0]] ! 0 ! 1] \<and>
   [''a'', ''b''] ! ([[0, 1, 1], [0, 0, 0], [0, 0, 0]] ! 0 ! 1) = [''ab'' ! 1] \<and>
   square (length [''aa'', ''--'']) [[0, 1], [1, 0 :: real]] \<and>
   calc_monomer_matrix_indices [''aa'', ''--''] [''a'', ''-''] [[0, 1], [1, 0]]
     = Inl AssertionError \<and>
   SubstitutionModel_init svd_two_rows (word_args [''aa'', ''ab'', ''ba''])
     = Inr (sub_word_model, []) \<and>
   arg_use_monomer_probs (word_args [''aa'', ''ab'', ''ba'']) \<and>
   monomer_matrix_indices sub_word_model
     = Some ([[0, 1, 0], [1, 0, 0], [0, 0, 0]],
             [[0, 1, 1], [0, 0, 0], [0, 0, 0]],
             instantaneous_mask_f sub_word_model)"
proof -
  let ?W = "[''aa'', ''ab'', ''ba'']"
  let ?I = "[[0, 1, 1], [1, 0, 0], [1, 0, 0 :: real]]"
  have sq: "square (length ?W) ?I" by (simp add: square_def)
  note t = calc_monomer_matrix_indices_single_difference [OF sq, of "[''a'', ''b'']"]
  from t sub_word_matrix_indices have
    e: "\<forall>i<length ?W. \<forall>j<length ?W.
           (?I ! i ! j \<noteq> 0 \<longrightarrow>
              ?I ! i ! j = 1 \<and>
              diff_pos (?W ! i) (?W ! j) = Inr [[[0, 1, 0], [1, 0, 0], [0, 0, 0]] ! i ! j] \<and>
              [''a'', ''b''] ! ([[0, 1, 1], [0, 0, 0], [0, 0, 0]] ! i ! j)
                = [?W ! j ! ([[0, 1, 0], [1, 0, 0], [0, 0, 0]] ! i ! j)])"
    by blast
  have d: "diff_pos ''aa'' ''ab'' = Inr [[[0, 1, 0], [1, 0, 0], [0, 0, 0]] ! 0 ! 1] \<and>
      [''a'', ''b''] ! ([[0, 1, 1], [0, 0, 0], [0, 0, 0]] ! 0 ! 1) = [''ab'' ! 1]"
    using e [rule_format, of 0 1] by simp
  let ?G = "[''aa'', ''--'']"
  let ?J = "[[0, 1], [1, 0 :: real]]"
  have sg: "square (length ?G) ?J" by (simp add: square_def)
  note g = calc_monomer_matrix_indices_single_difference [OF sg, of "[''a'', ''-'']"]
  have bad: "\<exists>i<length ?G. \<exists>j<length ?G.
      ?J ! i ! j \<noteq> 0 \<and> (\<forall>p. diff_pos (?G ! i) (?G ! j) \<noteq> Inr [p])"
    by (rule exI [of _ 0], simp, rule exI [of _ 1]) (simp add: diff_pos_def upt_conv_Cons)
  have ok: "(\<exists>L. list_all (\<lambda>w. length w = L) ?G) \<and>
      list_all (\<lambda>w. list_all (\<lambda>c. [c] \<in> set [''a'', ''-'']) w) ?G"
    by (simp add: exI [of _ 2])
  from g bad ok have a: "calc_monomer_matrix_indices ?G [''a'', ''-''] ?J = Inl AssertionError"
    by blast
  have u: "arg_use_monomer_probs (word_args ?W)" by (simp add: word_fields)
  have mm: "monomer_matrix_indices sub_word_model
     = Some ([[0, 1, 0], [1, 0, 0], [0, 0, 0]],
             [[0, 1, 1], [0, 0, 0], [0, 0, 0]],
             instantaneous_mask_f sub_word_model)"
    by (simp add: sub_word_model_def)
  show ?thesis using sq sub_word_matrix_indices d sg a sub_word_init u mm by blast
qed

lemma square_map2:
  assumes "square n a" and "square n b"
  shows "square n (map2 (map2 f) a b)"
    and "i < n \<Longrightarrow> j < n \<Longrightarrow> map2 (map2 f) a b ! i ! j = f (a ! i ! j) (b ! i ! j)"
  using assms by (auto simp: square_def list_all_length)

lemma take_rows_total:
  assumes "square n t" and "\<And>i j. i < n \<Longrightarrow> j < n \<Longrightarrow> t ! i ! j < length a"
  shows "traverse (\<lambda>row. np_take a row) t = Inr (map (map (\<lambda>k. a ! k)) t)"
proof (rule traverse_total)
  fix row assume "row \<in> set t"
  then obtain i where i: "i < length t" "row = t ! i" by (auto simp: in_set_conv_nth)
  from assms(1) i have n: "i < n" "length row = n" by (auto simp: square_def list_all_length)
  have "\<forall>k \<in> set row. k < length a"
  proof
    fix k assume "k \<in> set row"
    then obtain j where "j < length row" "k = row ! j" by (auto simp: in_set_conv_nth)
    then show "k < length a" using assms(2) [of i j] n i by simp
  qed
  then show "np_take a row = Inr (map (\<lambda>k. a ! k) row)" by (rule np_take_total)
qed

lemma square_map_map:
  assumes "square n a"
  shows "square n (map (map f) a)"
    and "i < n \<Longrightarrow> j < n \<Longrightarrow> map (map f) a ! i ! j = f (a ! i ! j)"
  using assms by (auto simp: square_def list_all_length)

lemma weight_matrix_gather:
  assumes mmi: "monomer_matrix_indices m = Some (posn, motif, mk)"
    and sq: "square n posn" "square n motif" "square n mk"
    and lens: "list_all (\<lambda>p. length p = S) ps"
    and motif: "\<And>i j. i < n \<Longrightarrow> j < n \<Longrightarrow> motif ! i ! j < S"
    and posn: "\<And>i j. i < n \<Longrightarrow> j < n \<Longrightarrow> length ps \<noteq> 1 \<Longrightarrow> posn ! i ! j < length ps"
    and ne: "ps \<noteq> []"
  shows "\<exists>W. calcWordWeightMatrix m ps = Inr (Array2 W) \<and> square n W \<and>
      (\<forall>i<n. \<forall>j<n. W ! i ! j
          = (if length ps = 1 then ps ! 0 else ps ! (posn ! i ! j)) ! (motif ! i ! j) * mk ! i ! j)"
proof (cases "length ps = 1")
  case True
  then have l0: "length (ps ! 0) = S" using lens by (cases ps) auto
  let ?T = "map (map (\<lambda>k. ps ! 0 ! k)) motif"
  have t: "traverse (\<lambda>row. np_take (ps ! 0) row) motif = Inr ?T"
    by (rule take_rows_total [OF sq(2)]) (simp add: l0 motif)
  have c: "calcWordWeightMatrix m ps = Inr (Array2 (np_mult ?T mk))"
    using True by (simp add: calcWordWeightMatrix_def mmi t)
  note st = square_map_map [OF sq(2), where f = "\<lambda>k. ps ! 0 ! k"]
  note w = np_mult_square [OF st(1) sq(3)]
  show ?thesis using c w True st(2) by simp
next
  case False
  from ne lens have sz: "(case ps of [] \<Rightarrow> 0 | v # _ \<Rightarrow> length v) = S" by (cases ps) auto
  let ?E = "map2 (map2 (\<lambda>posn ind. posn * S + ind)) posn motif"
  note se = square_map2 [OF sq(1) sq(2), where f = "\<lambda>posn ind. posn * S + ind"]
  have all: "\<forall>r \<in> set ps. length r = S" using lens by (simp add: list_all_iff)
  have bound: "?E ! i ! j < length (concat ps)" if "i < n" "j < n" for i j
  proof -
    have "posn ! i ! j * S + motif ! i ! j < posn ! i ! j * S + S"
      using motif [OF that] by simp
    also have "\<dots> = Suc (posn ! i ! j) * S" by simp
    also have "\<dots> \<le> length ps * S"
      using posn [OF that False] by (intro mult_le_mono1) simp
    finally show ?thesis by (simp add: se(2) [OF that] concat_square_length [OF all])
  qed
  let ?T = "map (map (\<lambda>k. concat ps ! k)) ?E"
  have t: "traverse (\<lambda>row. np_take (concat ps) row) ?E = Inr ?T"
    by (rule take_rows_total [OF se(1)]) (rule bound)
  have c: "calcWordWeightMatrix m ps = Inr (Array2 (np_mult ?T mk))"
    using False by (simp add: calcWordWeightMatrix_def mmi sz Let_def t)
  note st = square_map_map [OF se(1), where f = "\<lambda>k. concat ps ! k"]
  note w = np_mult_square [OF st(1) sq(3)]
  have v: "?T ! i ! j = ps ! (posn ! i ! j) ! (motif ! i ! j)" if "i < n" "j < n" for i j
  proof -
    have "?T ! i ! j = concat ps ! (?E ! i ! j)" by (rule st(2) [OF that])
    also have "\<dots> = concat ps ! (posn ! i ! j * S + motif ! i ! j)"
      by (simp only: se(2) [OF that])
    also have "\<dots> = ps ! (posn ! i ! j) ! (motif ! i ! j)"
      by (rule concat_square_nth [OF all posn [OF that False] motif [OF that]])
    finally show ?thesis .
  qed
  show ?thesis using c w False v by simp
qed

section \<open>The weight matrix of a word model\<close>

text \<open>
  Claim C6. For a constructed model that uses monomer probabilities, and probability
  vectors as long as the monomer alphabet (one vector, or one for each position of a
  word), \<^verbatim>\<open>calcWordWeightMatrix\<close> returns a square matrix. Its entry for a
  pair the instantaneous mask flags is the probability of the monomer the new word has
  at the single position where the two words differ, read from the vector of that
  position when there is one for each position; its entry for every other pair is 0.
\<close>

theorem calcWordWeightMatrix_destination_monomer:
  assumes init: "SubstitutionModel_init svd args = Inr (m, ws)"
    and use: "arg_use_monomer_probs args"
    and ne: "mprobs_alphabet m \<noteq> []"
    and lens: "list_all (\<lambda>p. length p = length (mprobs_alphabet m)) ps"
    and shape: "length ps = 1 \<or>
      (ps \<noteq> [] \<and> list_all (\<lambda>w. length w \<le> length ps) (alphabet m))"
  shows "\<exists>posn motif W.
      monomer_matrix_indices m = Some (posn, motif, instantaneous_mask_f m) \<and>
      calcWordWeightMatrix m ps = Inr (Array2 W) \<and> square (length (alphabet m)) W \<and>
      (\<forall>i<length (alphabet m). \<forall>j<length (alphabet m).
         (instantaneous_mask m ! i ! j = 0 \<longrightarrow> W ! i ! j = 0) \<and>
         (instantaneous_mask m ! i ! j \<noteq> 0 \<longrightarrow>
            diff_pos (alphabet m ! i) (alphabet m ! j) = Inr [posn ! i ! j] \<and>
            motif ! i ! j < length (mprobs_alphabet m) \<and>
            mprobs_alphabet m ! (motif ! i ! j) = [alphabet m ! j ! (posn ! i ! j)] \<and>
            W ! i ! j
              = (if length ps = 1 then ps ! 0 else ps ! (posn ! i ! j)) ! (motif ! i ! j)))"
proof -
  let ?N = "length (alphabet m)"
  let ?f = "instantaneous_mask_f m"
  from init_monomer_tables [OF init use] obtain mmi where
    mm: "monomer_matrix_indices m = Some mmi"
    and c: "calc_monomer_matrix_indices (alphabet m) (mprobs_alphabet m) ?f = Inr mmi"
    by blast
  obtain posn motif mk where mmi: "mmi = (posn, motif, mk)" by (cases mmi) auto
  note t = calc_monomer_matrix_indices_Inr [OF c [unfolded mmi]]
  note sqf = init_predicate_masks_square(2) [OF init]
  from SubstitutionModel_init_InrD [OF init] obtain w1 where
    i: "init_instantaneous args = Inr (instantaneous_mask m, ?f, w1)"
    and al: "alphabet m = arg_alphabet args"
    by blast
  have flag: "(instantaneous_mask m ! i ! j \<noteq> 0) = (?f ! i ! j \<noteq> 0)"
    if "i < ?N" "j < ?N" for i j
    using init_instantaneous_shape(4) [OF i] that by (simp add: al)
  have inb: "i < length ?f \<and> j < length (?f ! i)" if "i < ?N" "j < ?N" for i j
    using sqf that by (simp add: square_def list_all_length)
  have off: "posn ! i ! j = 0 \<and> motif ! i ! j = 0"
    if "i < ?N" "j < ?N" "?f ! i ! j = 0" for i j
    using monomer_matrix_entry_Inr(1) [OF t(4) [OF that(1,2)]] inb [OF that(1,2)] that(3)
    by blast
  have on: "?f ! i ! j = 1 \<and>
      diff_pos (alphabet m ! i) (alphabet m ! j) = Inr [posn ! i ! j] \<and>
      motif ! i ! j < length (mprobs_alphabet m) \<and>
      mprobs_alphabet m ! (motif ! i ! j) = [alphabet m ! j ! (posn ! i ! j)]"
    if "i < ?N" "j < ?N" "?f ! i ! j \<noteq> 0" for i j
    using monomer_matrix_entry_Inr(2) [OF t(4) [OF that(1,2)]] inb [OF that(1,2)] that(3)
    by blast
  have mb: "motif ! i ! j < length (mprobs_alphabet m)" if "i < ?N" "j < ?N" for i j
    using off [OF that] on [OF that] ne by (cases "?f ! i ! j = 0") simp_all
  have pne: "ps \<noteq> []" using shape by auto
  have pb: "posn ! i ! j < length ps" if "i < ?N" "j < ?N" "length ps \<noteq> 1" for i j
  proof (cases "?f ! i ! j = 0")
    case True
    then show ?thesis using off [OF that(1,2)] pne by simp
  next
    case False
    from on [OF that(1,2) False] have "diff_pos (alphabet m ! i) (alphabet m ! j) = Inr [posn ! i ! j]"
      by simp
    from diff_pos_single(1) [OF this] have "posn ! i ! j < length (alphabet m ! i)" .
    moreover have "length (alphabet m ! i) \<le> length ps"
      using shape that(1,3) by (simp add: list_all_length)
    ultimately show ?thesis by simp
  qed
  from weight_matrix_gather [OF mm [unfolded mmi] t(2) t(3) _ lens mb pb pne] sqf t(1)
  obtain W where
    w: "calcWordWeightMatrix m ps = Inr (Array2 W)" "square ?N W"
    and e: "\<And>i j. i < ?N \<Longrightarrow> j < ?N \<Longrightarrow> W ! i ! j
          = (if length ps = 1 then ps ! 0 else ps ! (posn ! i ! j)) ! (motif ! i ! j) * ?f ! i ! j"
    by auto
  have entries: "(instantaneous_mask m ! i ! j = 0 \<longrightarrow> W ! i ! j = 0) \<and>
         (instantaneous_mask m ! i ! j \<noteq> 0 \<longrightarrow>
            diff_pos (alphabet m ! i) (alphabet m ! j) = Inr [posn ! i ! j] \<and>
            motif ! i ! j < length (mprobs_alphabet m) \<and>
            mprobs_alphabet m ! (motif ! i ! j) = [alphabet m ! j ! (posn ! i ! j)] \<and>
            W ! i ! j
              = (if length ps = 1 then ps ! 0 else ps ! (posn ! i ! j)) ! (motif ! i ! j))"
    if "i < ?N" "j < ?N" for i j
  proof (cases "?f ! i ! j = 0")
    case True
    then show ?thesis using flag [OF that] e [OF that] by simp
  next
    case False
    from on [OF that False] e [OF that] flag [OF that] False show ?thesis by simp
  qed
  have "monomer_matrix_indices m = Some (posn, motif, ?f)" using mm mmi t(1) by simp
  with w entries show ?thesis by (intro exI [of _ posn] exI [of _ motif] exI [of _ W]) simp
qed

lemma sub_word_weights:
  "calcWordWeightMatrix sub_word_model [[1 / 4, 3 / 4], [1 / 2, 1 / 2]]
     = Inr (Array2 [[0, 1 / 2, 3 / 4], [1 / 2, 0, 0], [1 / 4, 0, 0]])"
  "calcWordWeightMatrix sub_word_model [[1 / 4, 3 / 4]]
     = Inr (Array2 [[0, 3 / 4, 3 / 4], [1 / 4, 0, 0], [1 / 4, 0, 0]])"
  by (simp_all add: calcWordWeightMatrix_def sub_word_model_def np_take_def np_mult_def)

theorem calcWordWeightMatrix_destination_monomer_witness:
  "SubstitutionModel_init svd_two_rows (word_args [''aa'', ''ab'', ''ba''])
     = Inr (sub_word_model, []) \<and>
   arg_use_monomer_probs (word_args [''aa'', ''ab'', ''ba'']) \<and>
   mprobs_alphabet sub_word_model = [''a'', ''b''] \<and>
   list_all (\<lambda>p. length p = length (mprobs_alphabet sub_word_model))
     [[1 / 4, 3 / 4], [1 / 2, 1 / 2 :: real]] \<and>
   list_all (\<lambda>w. length w \<le> length [[1 / 4, 3 / 4], [1 / 2, 1 / 2 :: real]])
     (alphabet sub_word_model) \<and>
   monomer_matrix_indices sub_word_model
     = Some ([[0, 1, 0], [1, 0, 0], [0, 0, 0]], [[0, 1, 1], [0, 0, 0], [0, 0, 0]],
             instantaneous_mask_f sub_word_model) \<and>
   calcWordWeightMatrix sub_word_model [[1 / 4, 3 / 4], [1 / 2, 1 / 2]]
     = Inr (Array2 [[0, 1 / 2, 3 / 4], [1 / 2, 0, 0], [1 / 4, 0, 0]]) \<and>
   instantaneous_mask sub_word_model ! 0 ! 2 = 1 \<and>
   diff_pos ''aa'' ''ba'' = Inr [0] \<and>
   [[0, 1 / 2, 3 / 4], [1 / 2, 0, 0], [1 / 4, 0, 0 :: real]] ! 0 ! 2
     = [[1 / 4, 3 / 4], [1 / 2, 1 / 2]] ! 0 ! 1 \<and>
   instantaneous_mask sub_word_model ! 1 ! 2 = 0 \<and>
   [[0, 1 / 2, 3 / 4], [1 / 2, 0, 0], [1 / 4, 0, 0 :: real]] ! 1 ! 2 = 0"
proof -
  let ?ps = "[[1 / 4, 3 / 4], [1 / 2, 1 / 2 :: real]]"
  let ?W = "[[0, 1 / 2, 3 / 4], [1 / 2, 0, 0], [1 / 4, 0, 0 :: real]]"
  have u: "arg_use_monomer_probs (word_args [''aa'', ''ab'', ''ba''])"
    by (simp add: word_fields)
  have ma: "mprobs_alphabet sub_word_model = [''a'', ''b'']"
    and al: "alphabet sub_word_model = [''aa'', ''ab'', ''ba'']"
    and im: "instantaneous_mask sub_word_model = [[0, 1, 1], [1, 0, 0], [1, 0, 0]]"
    and mm: "monomer_matrix_indices sub_word_model
     = Some ([[0, 1, 0], [1, 0, 0], [0, 0, 0]], [[0, 1, 1], [0, 0, 0], [0, 0, 0]],
             instantaneous_mask_f sub_word_model)"
    by (simp_all add: sub_word_model_def)
  have ne: "mprobs_alphabet sub_word_model \<noteq> []" by (simp add: ma)
  have lens: "list_all (\<lambda>p. length p = length (mprobs_alphabet sub_word_model)) ?ps"
    by (simp add: ma)
  have ws: "list_all (\<lambda>w. length w \<le> length ?ps) (alphabet sub_word_model)"
    by (simp add: al)
  then have shape: "length ?ps = 1 \<or> (?ps \<noteq> [] \<and>
      list_all (\<lambda>w. length w \<le> length ?ps) (alphabet sub_word_model))"
    by simp
  from calcWordWeightMatrix_destination_monomer [OF sub_word_init u ne lens shape]
  obtain posn motif W where
    p: "monomer_matrix_indices sub_word_model
          = Some (posn, motif, instantaneous_mask_f sub_word_model)"
    and w: "calcWordWeightMatrix sub_word_model ?ps = Inr (Array2 W)"
    and e: "\<forall>i<length (alphabet sub_word_model). \<forall>j<length (alphabet sub_word_model).
         (instantaneous_mask sub_word_model ! i ! j = 0 \<longrightarrow> W ! i ! j = 0) \<and>
         (instantaneous_mask sub_word_model ! i ! j \<noteq> 0 \<longrightarrow>
            diff_pos (alphabet sub_word_model ! i) (alphabet sub_word_model ! j)
              = Inr [posn ! i ! j] \<and>
            W ! i ! j
              = (if length ?ps = 1 then ?ps ! 0 else ?ps ! (posn ! i ! j)) ! (motif ! i ! j))"
    by blast
  from p mm have pm: "posn = [[0, 1, 0], [1, 0, 0], [0, 0, 0]]"
    "motif = [[0, 1, 1], [0, 0, 0], [0, 0, 0]]" by simp_all
  from w sub_word_weights(1) have W: "W = ?W" by simp
  have a: "instantaneous_mask sub_word_model ! 0 ! 2 = 1 \<and> diff_pos ''aa'' ''ba'' = Inr [0] \<and>
      ?W ! 0 ! 2 = ?ps ! 0 ! 1"
    using e [rule_format, of 0 2] by (simp add: al im pm W)
  have b: "instantaneous_mask sub_word_model ! 1 ! 2 = 0 \<and> ?W ! 1 ! 2 = 0"
    using e [rule_format, of 1 2] by (simp add: al im pm W)
  show ?thesis using sub_word_init u ma lens ws mm sub_word_weights(1) a b by blast
qed

end
